theory Spec2Isabelle
  imports Complex_Main
begin

section \<open>Python values, exceptions and containers\<close>

text \<open>
  The module \<^verbatim>\<open>klippy/extras/bed_mesh.py\<close> computes with Python floats, ints and lists.
  Floats are modelled by \<^typ>\<open>real\<close> (exact arithmetic: rounding error is outside the
  model, so a property the source holds "within floating tolerance" is an equation
  here), Python ints by \<^typ>\<open>int\<close>, lists and tuples of floats by \<^typ>\<open>real list\<close>.
  An exception is the left summand of a result; a division by zero, an index out of
  range and a call on \<^verbatim>\<open>None\<close> raise as they do in Python.
\<close>

datatype error =
    ConfigError | BedMeshError | GcodeError
  | IndexError | ZeroDivisionError | ValueError | TypeError | AttributeError

definition ebind :: "'e + 'a \<Rightarrow> ('a \<Rightarrow> 'e + 'b) \<Rightarrow> 'e + 'b" where
  "ebind r f = (case r of Inl e \<Rightarrow> Inl e | Inr v \<Rightarrow> f v)"

primrec emap :: "('a \<Rightarrow> 'e + 'b) \<Rightarrow> 'a list \<Rightarrow> 'e + 'b list" where
  "emap f [] = Inr []"
| "emap f (x # xs) =
     (case f x of Inl e \<Rightarrow> Inl e
      | Inr y \<Rightarrow> (case emap f xs of Inl e \<Rightarrow> Inl e | Inr ys \<Rightarrow> Inr (y # ys)))"

primrec efold :: "('a \<Rightarrow> 's \<Rightarrow> 'e + 's) \<Rightarrow> 'a list \<Rightarrow> 's \<Rightarrow> 'e + 's" where
  "efold f [] s = Inr s"
| "efold f (x # xs) s = (case f x s of Inl e \<Rightarrow> Inl e | Inr s' \<Rightarrow> efold f xs s')"

text \<open>\<^verbatim>\<open>xs[i]\<close>: a negative index counts from the end, anything else out of range raises.\<close>

definition py_index :: "'a list \<Rightarrow> int \<Rightarrow> error + 'a" where
  "py_index xs i =
     (if 0 \<le> i \<and> i < int (length xs) then Inr (xs ! nat i)
      else if i < 0 \<and> - int (length xs) \<le> i then Inr (xs ! nat (int (length xs) + i))
      else Inl IndexError)"

text \<open>\<^verbatim>\<open>xs[i] = v\<close> with the same index rule.\<close>

definition py_setitem :: "'a list \<Rightarrow> int \<Rightarrow> 'a \<Rightarrow> error + 'a list" where
  "py_setitem xs i v =
     (if 0 \<le> i \<and> i < int (length xs) then Inr (xs[nat i := v])
      else if i < 0 \<and> - int (length xs) \<le> i then Inr (xs[nat (int (length xs) + i) := v])
      else Inl IndexError)"

text \<open>\<^verbatim>\<open>m[y][x]\<close> and \<^verbatim>\<open>m[y][x] = v\<close> on a list of rows.\<close>

definition mat_get :: "real list list \<Rightarrow> int \<Rightarrow> int \<Rightarrow> error + real" where
  "mat_get m y x = ebind (py_index m y) (\<lambda>row. py_index row x)"

definition mat_set :: "real list list \<Rightarrow> int \<Rightarrow> int \<Rightarrow> real \<Rightarrow> error + real list list" where
  "mat_set m y x v =
     ebind (py_index m y) (\<lambda>row. ebind (py_setitem row x v) (\<lambda>row'. py_setitem m y row'))"

text \<open>\<^verbatim>\<open>a % b\<close> and \<^verbatim>\<open>a // b\<close> on ints: floor division, as \<open>mod\<close> and \<open>div\<close> on \<^typ>\<open>int\<close>.\<close>

definition py_mod :: "int \<Rightarrow> int \<Rightarrow> error + int" where
  "py_mod a b = (if b = 0 then Inl ZeroDivisionError else Inr (a mod b))"

definition py_floordiv :: "int \<Rightarrow> int \<Rightarrow> error + int" where
  "py_floordiv a b = (if b = 0 then Inl ZeroDivisionError else Inr (a div b))"

text \<open>\<^verbatim>\<open>a / b\<close> on floats.\<close>

definition py_truediv :: "real \<Rightarrow> real \<Rightarrow> error + real" where
  "py_truediv a b = (if b = 0 then Inl ZeroDivisionError else Inr (a / b))"

text \<open>\<^verbatim>\<open>range(n)\<close> and \<^verbatim>\<open>range(a, b, step)\<close>.\<close>

definition py_range :: "int \<Rightarrow> int list" where
  "py_range n = map int [0..<nat n]"

definition py_range3 :: "int \<Rightarrow> int \<Rightarrow> int \<Rightarrow> error + int list" where
  "py_range3 a b step =
     (if step = 0 then Inl ValueError
      else if 0 < step then Inr (map (\<lambda>k. a + int k * step) [0..<nat ((b - a + step - 1) div step)])
      else Inr (map (\<lambda>k. a + int k * step) [0..<nat ((a - b - step - 1) div (- step))]))"

text \<open>
  \<^verbatim>\<open>round(x, nd)\<close> of Python 3: to the nearest multiple of \<open>10\<^sup>-\<^sup>n\<^sup>d\<close>, a tie to the
  even one.
\<close>

definition py_round :: "real \<Rightarrow> nat \<Rightarrow> real" where
  "py_round x nd =
     (let y = x * 10 ^ nd; f = \<lfloor>y\<rfloor>; r = y - of_int f
      in (if r < 1 / 2 then of_int f
          else if 1 / 2 < r then of_int f + 1
          else if even f then of_int f else of_int f + 1) / 10 ^ nd)"

section \<open>Module-level helpers\<close>

text \<open>\<^verbatim>\<open>isclose(a, b, rel_tol=1e-09, abs_tol=0.0)\<close> (PEP 485).\<close>

definition isclose :: "real \<Rightarrow> real \<Rightarrow> real \<Rightarrow> real \<Rightarrow> bool" where
  "isclose a b rel_tol abs_tol \<longleftrightarrow> \<bar>a - b\<bar> \<le> max (rel_tol * max \<bar>a\<bar> \<bar>b\<bar>) abs_tol"

definition rel_tol_default :: real where
  "rel_tol_default = 1 / 10 ^ 9"

text \<open>
  \<^verbatim>\<open>within(coord, min_c, max_c, tol=0.0)\<close>: the closed rectangle, widened by \<open>tol\<close>
  (named \<open>within_c\<close>: \<open>within\<close> is a reserved word of the filter notation).
\<close>

definition within_c :: "real \<times> real \<Rightarrow> real \<times> real \<Rightarrow> real \<times> real \<Rightarrow> real \<Rightarrow> bool" where
  "within_c coord min_c max_c tol \<longleftrightarrow>
     (fst max_c + tol \<ge> fst coord \<and> fst coord \<ge> fst min_c - tol) \<and>
     (snd max_c + tol \<ge> snd coord \<and> snd coord \<ge> snd min_c - tol)"

definition constrain :: "'a::linorder \<Rightarrow> 'a \<Rightarrow> 'a \<Rightarrow> 'a" where
  "constrain val min_val max_val = min max_val (max min_val val)"

definition lerp :: "real \<Rightarrow> real \<Rightarrow> real \<Rightarrow> real" where
  "lerp t v0 v1 = (1 - t) * v0 + t * v1"

section \<open>ZMesh: the height map\<close>

text \<open>
  A matrix is a Python list of rows. \<^verbatim>\<open>_sample_direct\<close> stores the very list it is given
  as the dense matrix, so the probed and the dense matrix can be one object, and
  \<^verbatim>\<open>set_zero_reference\<close> mutates matrices in place. Matrices therefore live in a store,
  and a ZMesh holds their addresses. A cell of the store holds a whole matrix: every
  matrix of this module is built row by row from fresh lists, so no row belongs to two
  matrices.
\<close>

record store =
  cells :: "nat \<Rightarrow> real list list"
  next_free :: nat

definition alloc :: "store \<Rightarrow> real list list \<Rightarrow> nat \<times> store" where
  "alloc h m = (next_free h, h\<lparr>cells := (cells h)(next_free h := m), next_free := Suc (next_free h)\<rparr>)"

record mesh_params =
  min_x :: real
  max_x :: real
  min_y :: real
  max_y :: real
  x_count :: int
  y_count :: int
  mesh_x_pps :: int
  mesh_y_pps :: int
  algo :: string
  tension :: real

record zmesh =
  mesh_params :: mesh_params
  probed_matrix :: "nat option"
  mesh_matrix :: "nat option"
  mesh_offsets :: "real \<times> real"
  mesh_x_min :: real
  mesh_x_max :: real
  mesh_y_min :: real
  mesh_y_max :: real
  mesh_x_count :: int
  mesh_y_count :: int
  x_mult :: int
  y_mult :: int
  mesh_x_dist :: real
  mesh_y_dist :: real

text \<open>
  \<^verbatim>\<open>ZMesh.__init__\<close> (the profile name and the logging are left out). The two
  divisions by \<^verbatim>\<open>mesh_x_count - 1\<close> and \<^verbatim>\<open>mesh_y_count - 1\<close> raise on a count of one.
\<close>

definition ZMesh_init :: "mesh_params \<Rightarrow> error + zmesh" where
  "ZMesh_init params =
     (let px_cnt = x_count params; py_cnt = y_count params;
          cx = (px_cnt - 1) * mesh_x_pps params + px_cnt;
          cy = (py_cnt - 1) * mesh_y_pps params + py_cnt
      in ebind (py_truediv (max_x params - min_x params) (of_int (cx - 1))) (\<lambda>dx.
         ebind (py_truediv (max_y params - min_y params) (of_int (cy - 1))) (\<lambda>dy.
         Inr \<lparr>mesh_params = params, probed_matrix = None, mesh_matrix = None,
              mesh_offsets = (0, 0),
              mesh_x_min = min_x params, mesh_x_max = max_x params,
              mesh_y_min = min_y params, mesh_y_max = max_y params,
              mesh_x_count = cx, mesh_y_count = cy,
              x_mult = mesh_x_pps params + 1, y_mult = mesh_y_pps params + 1,
              mesh_x_dist = dx, mesh_y_dist = dy\<rparr>)))"

definition get_x_coordinate :: "zmesh \<Rightarrow> int \<Rightarrow> real" where
  "get_x_coordinate m index = mesh_x_min m + mesh_x_dist m * of_int index"

definition get_y_coordinate :: "zmesh \<Rightarrow> int \<Rightarrow> real" where
  "get_y_coordinate m index = mesh_y_min m + mesh_y_dist m * of_int index"

text \<open>\<^verbatim>\<open>_get_linear_index(coord, axis)\<close>: the cell of the dense grid and the parameter in it.\<close>

definition get_linear_index :: "zmesh \<Rightarrow> real \<Rightarrow> nat \<Rightarrow> error + (real \<times> int)" where
  "get_linear_index m coord axis =
     (let mesh_min = (if axis = 0 then mesh_x_min m else mesh_y_min m);
          mesh_cnt = (if axis = 0 then mesh_x_count m else mesh_y_count m);
          mesh_dist = (if axis = 0 then mesh_x_dist m else mesh_y_dist m);
          cfunc = (if axis = 0 then get_x_coordinate m else get_y_coordinate m)
      in ebind (py_truediv (coord - mesh_min) mesh_dist) (\<lambda>q.
         let idx = constrain \<lfloor>q\<rfloor> 0 (mesh_cnt - 2)
         in ebind (py_truediv (coord - cfunc idx) mesh_dist) (\<lambda>t.
            Inr (constrain t 0 1, idx))))"

text \<open>\<^verbatim>\<open>calc_z(x, y)\<close>: bilinear interpolation in the dense matrix, 0.0 without one.\<close>

definition calc_z :: "zmesh \<Rightarrow> store \<Rightarrow> real \<Rightarrow> real \<Rightarrow> error + real" where
  "calc_z m h x y =
     (case mesh_matrix m of
        None \<Rightarrow> Inr 0
      | Some a \<Rightarrow>
          (let tbl = cells h a
           in ebind (get_linear_index m (x + fst (mesh_offsets m)) 0) (\<lambda>(tx, xidx).
              ebind (get_linear_index m (y + snd (mesh_offsets m)) 1) (\<lambda>(ty, yidx).
              ebind (mat_get tbl yidx xidx) (\<lambda>v00.
              ebind (mat_get tbl yidx (xidx + 1)) (\<lambda>v01.
              ebind (mat_get tbl (yidx + 1) xidx) (\<lambda>v10.
              ebind (mat_get tbl (yidx + 1) (xidx + 1)) (\<lambda>v11.
              Inr (lerp ty (lerp tx v00 v01) (lerp tx v10 v11))))))))))"

text \<open>
  \<^verbatim>\<open>get_z_range\<close> and \<^verbatim>\<open>get_z_average\<close>. \<^verbatim>\<open>min\<close> and \<^verbatim>\<open>max\<close> of an empty list raise
  \<^verbatim>\<open>ValueError\<close>; the average divides by the number of nodes.
\<close>

definition py_min :: "real list \<Rightarrow> error + real" where
  "py_min xs = (case xs of [] \<Rightarrow> Inl ValueError | x # r \<Rightarrow> Inr (fold min r x))"

definition py_max :: "real list \<Rightarrow> error + real" where
  "py_max xs = (case xs of [] \<Rightarrow> Inl ValueError | x # r \<Rightarrow> Inr (fold max r x))"

definition get_z_range :: "zmesh \<Rightarrow> store \<Rightarrow> error + (real \<times> real)" where
  "get_z_range m h =
     (case mesh_matrix m of
        None \<Rightarrow> Inr (0, 0)
      | Some a \<Rightarrow>
          ebind (emap py_min (cells h a)) (\<lambda>mins. ebind (py_min mins) (\<lambda>mesh_min.
          ebind (emap py_max (cells h a)) (\<lambda>maxs. ebind (py_max maxs) (\<lambda>mesh_max.
          Inr (mesh_min, mesh_max))))))"

definition get_z_average :: "zmesh \<Rightarrow> store \<Rightarrow> error + real" where
  "get_z_average m h =
     (case mesh_matrix m of
        None \<Rightarrow> Inr 0
      | Some a \<Rightarrow>
          ebind (py_truediv (sum_list (map sum_list (cells h a)))
                            (of_nat (sum_list (map length (cells h a))))) (\<lambda>avg_z.
          Inr (py_round avg_z 2)))"

subsection \<open>Building the dense matrix\<close>

text \<open>
  The list comprehension that opens both \<^verbatim>\<open>_sample_lagrange\<close> and \<^verbatim>\<open>_sample_bicubic\<close>:
  row \<open>j\<close>, column \<open>i\<close> holds the probed value where both indices are multiples of the
  strides and 0.0 elsewhere.
\<close>

definition init_mesh_matrix :: "zmesh \<Rightarrow> real list list \<Rightarrow> error + real list list" where
  "init_mesh_matrix m z_matrix =
     emap (\<lambda>j. emap (\<lambda>i.
         ebind (py_mod i (x_mult m)) (\<lambda>ri.
           if ri \<noteq> 0 then Inr 0
           else ebind (py_mod j (y_mult m)) (\<lambda>rj.
             if rj \<noteq> 0 then Inr 0
             else ebind (py_floordiv j (y_mult m)) (\<lambda>jj.
                  ebind (py_index z_matrix jj) (\<lambda>row.
                  ebind (py_floordiv i (x_mult m)) (\<lambda>ii. py_index row ii))))))
       (py_range (mesh_x_count m)))
     (py_range (mesh_y_count m))"

definition get_lagrange_coords :: "zmesh \<Rightarrow> real list \<times> real list" where
  "get_lagrange_coords m =
     (map (\<lambda>i. get_x_coordinate m (i * x_mult m)) (py_range (x_count (mesh_params m))),
      map (\<lambda>j. get_y_coordinate m (j * y_mult m)) (py_range (y_count (mesh_params m))))"

text \<open>The inner loop of \<^verbatim>\<open>_calc_lagrange\<close>: numerator and denominator of the \<open>i\<close>-th basis
  polynomial at \<open>c\<close>.\<close>

definition lagrange_nd :: "real list \<Rightarrow> real \<Rightarrow> nat \<Rightarrow> real \<times> real" where
  "lagrange_nd lpts c i =
     fold (\<lambda>j (n, d). if j = i then (n, d)
                       else (n * (c - lpts ! j), d * (lpts ! i - lpts ! j)))
          [0..<length lpts] (1, 1)"

definition calc_lagrange ::
    "zmesh \<Rightarrow> real list list \<Rightarrow> real list \<Rightarrow> real \<Rightarrow> int \<Rightarrow> nat \<Rightarrow> error + real" where
  "calc_lagrange m mat lpts c vec axis =
     efold (\<lambda>i total.
         ebind (if axis = 0 then mat_get mat vec (int i * x_mult m)
                else mat_get mat (int i * y_mult m) vec) (\<lambda>z.
         ebind (py_truediv (z * fst (lagrange_nd lpts c i)) (snd (lagrange_nd lpts c i))) (\<lambda>q.
         Inr (total + q))))
       [0..<length lpts] 0"

definition sample_lagrange :: "zmesh \<Rightarrow> real list list \<Rightarrow> error + real list list" where
  "sample_lagrange m z_matrix =
     ebind (init_mesh_matrix m z_matrix) (\<lambda>mat0.
     ebind
       (efold (\<lambda>i mat.
           ebind (py_mod i (y_mult m)) (\<lambda>ri.
             if ri \<noteq> 0 then Inr mat
             else efold (\<lambda>j mat.
                 ebind (py_mod j (x_mult m)) (\<lambda>rj.
                   if rj = 0 then Inr mat
                   else ebind (calc_lagrange m mat (fst (get_lagrange_coords m))
                                 (get_x_coordinate m j) i 0) (\<lambda>v.
                        mat_set mat i j v)))
               (py_range (mesh_x_count m)) mat))
         (py_range (mesh_y_count m)) mat0) (\<lambda>mat1.
     efold (\<lambda>i mat.
         efold (\<lambda>j mat.
             ebind (py_mod j (y_mult m)) (\<lambda>rj.
               if rj = 0 then Inr mat
               else ebind (calc_lagrange m mat (snd (get_lagrange_coords m))
                             (get_y_coordinate m j) i 1) (\<lambda>v.
                    mat_set mat j i v)))
           (py_range (mesh_y_count m)) mat)
       (py_range (mesh_x_count m)) mat1))"

definition cardinal_spline :: "real \<times> real \<times> real \<times> real \<times> real \<Rightarrow> real \<Rightarrow> real" where
  "cardinal_spline p tens =
     (case p of (p0, p1, p2, p3, t) \<Rightarrow>
        (let t2 = t * t; t3 = t2 * t;
             m1 = tens * (p2 - p0); m2 = tens * (p3 - p1);
             a = p1 * (2 * t3 - 3 * t2 + 1);
             b = p2 * (- 2 * t3 + 3 * t2);
             c = m1 * (t3 - 2 * t2 + t);
             d = m2 * (t3 - t2)
         in a + b + c + d))"

text \<open>
  \<^verbatim>\<open>_get_x_ctl_pts\<close> and \<^verbatim>\<open>_get_y_ctl_pts\<close> are the same code on a row and on a column.
  \<open>ctl_pts rd mult cnt pos\<close> is that code, \<open>rd k\<close> reading entry \<open>k\<close> of the row or the
  column; \<open>find_ctl_pts\<close> is its \<^verbatim>\<open>for\<close> loop, which raises when it finds no segment.
\<close>

primrec find_ctl_pts ::
    "(int \<Rightarrow> error + real) \<Rightarrow> int \<Rightarrow> int \<Rightarrow> int list \<Rightarrow> error + (real \<times> real \<times> real \<times> real \<times> real)" where
  "find_ctl_pts rd mult pos [] = Inl BedMeshError"
| "find_ctl_pts rd mult pos (i # rest) =
     (if pos > i \<and> pos < i + mult then
        ebind (rd (i - mult)) (\<lambda>p0. ebind (rd i) (\<lambda>p1.
        ebind (rd (i + mult)) (\<lambda>p2. ebind (rd (i + 2 * mult)) (\<lambda>p3.
        ebind (py_truediv (of_int (pos - i)) (of_int mult)) (\<lambda>t.
        Inr (p0, p1, p2, p3, t))))))
      else find_ctl_pts rd mult pos rest)"

definition ctl_pts ::
    "(int \<Rightarrow> error + real) \<Rightarrow> int \<Rightarrow> int \<Rightarrow> int \<Rightarrow> error + (real \<times> real \<times> real \<times> real \<times> real)" where
  "ctl_pts rd mult cnt pos =
     (let last_pt = cnt - 1 - mult
      in if pos < mult then
           ebind (rd 0) (\<lambda>p1. ebind (rd mult) (\<lambda>p2. ebind (rd (2 * mult)) (\<lambda>p3.
           ebind (py_truediv (of_int pos) (of_int mult)) (\<lambda>t.
           Inr (p1, p1, p2, p3, t)))))
         else if pos > last_pt then
           ebind (rd (last_pt - mult)) (\<lambda>p0. ebind (rd last_pt) (\<lambda>p1.
           ebind (rd (last_pt + mult)) (\<lambda>p2.
           ebind (py_truediv (of_int (pos - last_pt)) (of_int mult)) (\<lambda>t.
           Inr (p0, p1, p2, p2, t)))))
         else ebind (py_range3 mult last_pt mult) (find_ctl_pts rd mult pos))"

definition get_x_ctl_pts ::
    "zmesh \<Rightarrow> real list list \<Rightarrow> int \<Rightarrow> int \<Rightarrow> error + (real \<times> real \<times> real \<times> real \<times> real)" where
  "get_x_ctl_pts m mat x y =
     ebind (py_index mat y) (\<lambda>x_row. ctl_pts (py_index x_row) (x_mult m) (mesh_x_count m) x)"

definition get_y_ctl_pts ::
    "zmesh \<Rightarrow> real list list \<Rightarrow> int \<Rightarrow> int \<Rightarrow> error + (real \<times> real \<times> real \<times> real \<times> real)" where
  "get_y_ctl_pts m mat x y = ctl_pts (\<lambda>k. mat_get mat k x) (y_mult m) (mesh_y_count m) y"

definition sample_bicubic :: "zmesh \<Rightarrow> real list list \<Rightarrow> error + real list list" where
  "sample_bicubic m z_matrix =
     ebind (init_mesh_matrix m z_matrix) (\<lambda>mat0.
     ebind
       (efold (\<lambda>y mat.
           ebind (py_mod y (y_mult m)) (\<lambda>ry.
             if ry \<noteq> 0 then Inr mat
             else efold (\<lambda>x mat.
                 ebind (py_mod x (x_mult m)) (\<lambda>rx.
                   if rx = 0 then Inr mat
                   else ebind (get_x_ctl_pts m mat x y) (\<lambda>pts.
                        mat_set mat y x (cardinal_spline pts (tension (mesh_params m))))))
               (py_range (mesh_x_count m)) mat))
         (py_range (mesh_y_count m)) mat0) (\<lambda>mat1.
     efold (\<lambda>x mat.
         efold (\<lambda>y mat.
             ebind (py_mod y (y_mult m)) (\<lambda>ry.
               if ry = 0 then Inr mat
               else ebind (get_y_ctl_pts m mat x y) (\<lambda>pts.
                    mat_set mat y x (cardinal_spline pts (tension (mesh_params m))))))
           (py_range (mesh_y_count m)) mat)
       (py_range (mesh_x_count m)) mat1))"

text \<open>
  \<^verbatim>\<open>print_mesh\<close>, which \<^verbatim>\<open>build_mesh\<close> calls last: the text it prints is left out, the
  exceptions of the values it computes are not (the average, the range, and one read of
  every row from \<^verbatim>\<open>mesh_y_count - 1\<close> down to 0 of the rounded copy of the matrix).
\<close>

definition get_mesh_matrix :: "zmesh \<Rightarrow> store \<Rightarrow> real list list" where
  "get_mesh_matrix m h =
     (case mesh_matrix m of
        None \<Rightarrow> [[]]
      | Some a \<Rightarrow> map (map (\<lambda>z. py_round z 6)) (cells h a))"

definition print_mesh :: "zmesh \<Rightarrow> store \<Rightarrow> error + unit" where
  "print_mesh m h =
     ebind (get_z_average m h) (\<lambda>_.
     ebind (get_z_range m h) (\<lambda>_.
     efold (\<lambda>y_line _. ebind (py_index (get_mesh_matrix m h) y_line) (\<lambda>_. Inr ()))
       (rev (py_range (mesh_y_count m))) ()))"

text \<open>
  \<^verbatim>\<open>build_mesh(z_matrix)\<close>, the matrix given by its address. \<^verbatim>\<open>_sample_direct\<close> makes the
  dense matrix the probed matrix itself; the two interpolations store a new list. An
  algorithm name outside the table leaves \<^verbatim>\<open>_sample\<close> \<^verbatim>\<open>None\<close>, and calling it raises.
\<close>

definition build_mesh :: "zmesh \<Rightarrow> store \<Rightarrow> nat \<Rightarrow> error + (zmesh \<times> store)" where
  "build_mesh m h z_matrix =
     (let m1 = m\<lparr>probed_matrix := Some z_matrix\<rparr>
      in ebind
           (if algo (mesh_params m1) = ''lagrange'' then
              ebind (sample_lagrange m1 (cells h z_matrix)) (\<lambda>mat.
                Inr (m1\<lparr>mesh_matrix := Some (fst (alloc h mat))\<rparr>, snd (alloc h mat)))
            else if algo (mesh_params m1) = ''bicubic'' then
              ebind (sample_bicubic m1 (cells h z_matrix)) (\<lambda>mat.
                Inr (m1\<lparr>mesh_matrix := Some (fst (alloc h mat))\<rparr>, snd (alloc h mat)))
            else if algo (mesh_params m1) = ''direct'' then
              Inr (m1\<lparr>mesh_matrix := Some z_matrix\<rparr>, h)
            else Inl TypeError)
           (\<lambda>(m2, h2). ebind (print_mesh m2 h2) (\<lambda>_. Inr (m2, h2))))"

text \<open>
  \<^verbatim>\<open>set_zero_reference(xpos, ypos)\<close>: the height at the point is taken once, then
  subtracted from every entry of the probed matrix and of the dense matrix, one object
  after the other.
\<close>

definition sub_offset :: "real list list \<Rightarrow> real \<Rightarrow> real list list" where
  "sub_offset mat offset =
     fold (\<lambda>yidx mat.
            fold (\<lambda>xidx mat. mat[yidx := (mat ! yidx)[xidx := mat ! yidx ! xidx - offset]])
                 [0..<length (mat ! yidx)] mat)
          [0..<length mat] mat"

definition set_zero_reference :: "zmesh \<Rightarrow> store \<Rightarrow> real \<Rightarrow> real \<Rightarrow> error + store" where
  "set_zero_reference m h xpos ypos =
     ebind (calc_z m h xpos ypos) (\<lambda>offset.
       efold (\<lambda>matrix h'.
           case matrix of
             None \<Rightarrow> Inl TypeError
           | Some a \<Rightarrow> Inr (h'\<lparr>cells := (cells h')(a := sub_offset (cells h' a) offset)\<rparr>))
         [probed_matrix m, mesh_matrix m] h)"

section \<open>MoveSplitter: cutting a move into sub-moves\<close>

text \<open>
  The attributes of a \<^verbatim>\<open>MoveSplitter\<close>. The first four are set by \<^verbatim>\<open>__init__\<close> and
  \<^verbatim>\<open>initialize\<close>; the others exist once \<^verbatim>\<open>build_move\<close> has run, which assigns every one
  of them, and are only read after it. The mesh attribute is \<open>ms_z_mesh\<close> here (the
  BedMesh has a \<^verbatim>\<open>z_mesh\<close> of its own). A position is the list \<^verbatim>\<open>[x, y, z, e]\<close>.
\<close>

record move_splitter =
  split_delta_z :: real
  move_check_distance :: real
  ms_z_mesh :: "zmesh option"
  fade_offset :: real
  prev_pos :: "real list"
  next_pos :: "real list"
  current_pos :: "real list"
  z_factor :: real
  z_offset :: real
  traverse_complete :: bool
  distance_checked :: real
  total_move_length :: real
  axis_move :: "bool list"

text \<open>
  \<^verbatim>\<open>MoveSplitter.__init__\<close>, given the values of the options \<^verbatim>\<open>split_delta_z\<close>
  (\<^verbatim>\<open>minval=0.01\<close>) and \<^verbatim>\<open>move_check_distance\<close> (\<^verbatim>\<open>minval=3.0\<close>).
  Modelled from the spec: \<^verbatim>\<open>config.getfloat\<close> of klippy/configfile.py, which is not in
  this module; it rejects a value below \<^verbatim>\<open>minval\<close> (the spec's "minimum 0.01" and
  "minimum 3").
\<close>

definition MoveSplitter_init :: "real \<Rightarrow> real \<Rightarrow> error + move_splitter" where
  "MoveSplitter_init cfg_split_delta_z cfg_move_check_distance =
     (if cfg_split_delta_z < 1 / 100 then Inl ConfigError
      else if cfg_move_check_distance < 3 then Inl ConfigError
      else Inr \<lparr>split_delta_z = cfg_split_delta_z,
                move_check_distance = cfg_move_check_distance,
                ms_z_mesh = None, fade_offset = 0,
                prev_pos = [], next_pos = [], current_pos = [], z_factor = 0, z_offset = 0,
                traverse_complete = False, distance_checked = 0, total_move_length = 0,
                axis_move = []\<rparr>)"

definition initialize :: "move_splitter \<Rightarrow> zmesh option \<Rightarrow> real \<Rightarrow> move_splitter" where
  "initialize s mesh fade_ofs = s\<lparr>ms_z_mesh := mesh, fade_offset := fade_ofs\<rparr>"

definition calc_z_offset :: "move_splitter \<Rightarrow> store \<Rightarrow> real list \<Rightarrow> error + real" where
  "calc_z_offset s h pos =
     (case ms_z_mesh s of
        None \<Rightarrow> Inl AttributeError
      | Some m \<Rightarrow>
          ebind (py_index pos 0) (\<lambda>x. ebind (py_index pos 1) (\<lambda>y.
          ebind (calc_z m h x y) (\<lambda>z.
          Inr (z_factor s * (z - fade_offset s) + fade_offset s)))))"

definition build_move :: "move_splitter \<Rightarrow> store \<Rightarrow> real list \<Rightarrow> real list \<Rightarrow> real \<Rightarrow> error + move_splitter" where
  "build_move s h prev nxt factor =
     (let s1 = s\<lparr>prev_pos := prev, next_pos := nxt, current_pos := prev, z_factor := factor\<rparr>
      in ebind (calc_z_offset s1 h prev) (\<lambda>zo.
         let axes_d = map (\<lambda>(np, pp). np - pp) (zip nxt prev)
         in Inr (s1\<lparr>z_offset := zo, traverse_complete := False, distance_checked := 0,
                    total_move_length := sqrt (sum_list (map (\<lambda>d. d * d) (take 3 axes_d))),
                    axis_move := map (\<lambda>d. \<not> isclose d 0 rel_tol_default (1 / 10 ^ 10)) axes_d\<rparr>)))"

text \<open>\<^verbatim>\<open>_set_next_move(distance_from_prev)\<close>: the moving axes of \<^verbatim>\<open>current_pos\<close> go to the
  point at that distance.\<close>

definition set_next_move :: "move_splitter \<Rightarrow> real \<Rightarrow> error + move_splitter" where
  "set_next_move s distance_from_prev =
     ebind (py_truediv distance_from_prev (total_move_length s)) (\<lambda>t.
       if 1 < t \<or> t < 0 then Inl GcodeError
       else ebind
         (efold (\<lambda>i cur.
            ebind (py_index (axis_move s) i) (\<lambda>moving.
              if moving then
                ebind (py_index (prev_pos s) i) (\<lambda>p. ebind (py_index (next_pos s) i) (\<lambda>n.
                  py_setitem cur i (lerp t p n)))
              else Inr cur))
            (py_range (int (length (next_pos s)))) (current_pos s))
         (\<lambda>cur. Inr (s\<lparr>current_pos := cur\<rparr>)))"

text \<open>
  The \<^verbatim>\<open>while\<close> loop of \<^verbatim>\<open>split\<close>. It returns \<open>Some newpos\<close> where the source returns from
  inside the loop and \<open>None\<close> where the loop ends. The outer \<open>option\<close> is the loop's
  termination: the function has a value only where the loop ends.
\<close>

partial_function (option) split_loop ::
    "move_splitter \<Rightarrow> store \<Rightarrow> (error + (real list option \<times> move_splitter)) option" where
  "split_loop s h =
     (if distance_checked s + move_check_distance s < total_move_length s then
        (case set_next_move (s\<lparr>distance_checked := distance_checked s + move_check_distance s\<rparr>)
                (distance_checked s + move_check_distance s) of
           Inl e \<Rightarrow> Some (Inl e)
         | Inr s2 \<Rightarrow>
            (case calc_z_offset s2 h (current_pos s2) of
               Inl e \<Rightarrow> Some (Inl e)
             | Inr next_z \<Rightarrow>
                 if \<bar>next_z - z_offset s2\<bar> \<ge> split_delta_z s2 then
                   (case py_index (current_pos s2) 2 of
                      Inl e \<Rightarrow> Some (Inl e)
                    | Inr z \<Rightarrow>
                       (case py_setitem (current_pos s2) 2 (z + next_z) of
                          Inl e \<Rightarrow> Some (Inl e)
                        | Inr newpos \<Rightarrow> Some (Inr (Some newpos, s2\<lparr>z_offset := next_z\<rparr>))))
                 else split_loop s2 h))
      else Some (Inr (None, s)))"

text \<open>The end of \<^verbatim>\<open>split\<close>: the end point, with the offset computed there added to Z.\<close>

definition split_end :: "move_splitter \<Rightarrow> store \<Rightarrow> error + (real list option \<times> move_splitter)" where
  "split_end s h =
     (let s1 = s\<lparr>current_pos := next_pos s\<rparr>
      in ebind (calc_z_offset s1 h (current_pos s1)) (\<lambda>zo.
         ebind (py_index (current_pos s1) 2) (\<lambda>z.
         ebind (py_setitem (current_pos s1) 2 (z + zo)) (\<lambda>cur.
         Inr (Some cur, s1\<lparr>z_offset := zo, current_pos := cur, traverse_complete := True\<rparr>)))))"

definition split :: "move_splitter \<Rightarrow> store \<Rightarrow> (error + (real list option \<times> move_splitter)) option" where
  "split s h =
     (if \<not> traverse_complete s then
        (case py_index (axis_move s) 0 of
           Inl e \<Rightarrow> Some (Inl e)
         | Inr m0 \<Rightarrow>
            (case (if m0 then Inr True else py_index (axis_move s) 1) of
               Inl e \<Rightarrow> Some (Inl e)
             | Inr xy_move \<Rightarrow>
                 if xy_move then
                   (case split_loop s h of
                      None \<Rightarrow> None
                    | Some (Inl e) \<Rightarrow> Some (Inl e)
                    | Some (Inr (Some newpos, s')) \<Rightarrow> Some (Inr (Some newpos, s'))
                    | Some (Inr (None, s')) \<Rightarrow> Some (split_end s' h))
                 else Some (split_end s h)))
      else Some (Inr (None, s)))"

section \<open>BedMesh: installing a mesh and fading it out\<close>

definition FADE_DISABLE :: real where
  "FADE_DISABLE = 2147483647"

record bed_mesh =
  last_position :: "real list"
  z_mesh :: "zmesh option"
  horizontal_move_z :: real
  fade_start :: real
  fade_end :: real
  fade_dist :: real
  log_fade_complete :: bool
  base_fade_target :: "real option"
  fade_target :: real
  tool_offset :: real
  splitter :: move_splitter

text \<open>
  \<^verbatim>\<open>BedMesh.__init__\<close>, given the values of the options \<^verbatim>\<open>horizontal_move_z\<close>,
  \<^verbatim>\<open>fade_start\<close>, \<^verbatim>\<open>fade_end\<close> and \<^verbatim>\<open>fade_target\<close> (their defaults are 5.0, 1.0, 0.0 and
  \<^verbatim>\<open>None\<close>) and the splitter it creates. The calibration and profile objects, the
  command registration and the status dictionary are left out.
\<close>

definition BedMesh_init :: "real \<Rightarrow> real \<Rightarrow> real \<Rightarrow> real option \<Rightarrow> move_splitter \<Rightarrow> bed_mesh" where
  "BedMesh_init cfg_move_z cfg_fade_start cfg_fade_end cfg_fade_target sp =
     (let dist = cfg_fade_end - cfg_fade_start
      in \<lparr>last_position = [0, 0, 0, 0], z_mesh = None, horizontal_move_z = cfg_move_z,
          fade_start = (if dist \<le> 0 then FADE_DISABLE else cfg_fade_start),
          fade_end = (if dist \<le> 0 then FADE_DISABLE else cfg_fade_end),
          fade_dist = dist, log_fade_complete = False,
          base_fade_target = cfg_fade_target, fade_target = 0, tool_offset = 0,
          splitter = sp\<rparr>)"

text \<open>
  \<^verbatim>\<open>set_mesh(mesh)\<close>. An exception leaves the object as the statements before the
  \<^verbatim>\<open>raise\<close> made it, so an error carries the state it leaves behind. The calls after the
  assignment of \<^verbatim>\<open>z_mesh\<close> (\<^verbatim>\<open>reset_last_position\<close> of the gcode_move object and
  \<^verbatim>\<open>update_status\<close>) belong to other objects and are left out.
\<close>

definition set_mesh_install :: "bed_mesh \<Rightarrow> zmesh option \<Rightarrow> bed_mesh" where
  "set_mesh_install s mesh =
     s\<lparr>tool_offset := 0, z_mesh := mesh,
       splitter := initialize (splitter s) mesh (fade_target s)\<rparr>"

definition set_mesh :: "bed_mesh \<Rightarrow> store \<Rightarrow> zmesh option \<Rightarrow> (error \<times> bed_mesh) + bed_mesh" where
  "set_mesh s h mesh =
     (case mesh of
        None \<Rightarrow> Inr (set_mesh_install (s\<lparr>fade_target := 0\<rparr>) mesh)
      | Some zm \<Rightarrow>
          if fade_end s \<noteq> FADE_DISABLE then
            (let s1 = s\<lparr>log_fade_complete := True\<rparr>
             in case
                  (case base_fade_target s1 of
                     None \<Rightarrow>
                       (case get_z_average zm h of
                          Inl e \<Rightarrow> Inl (e, s1)
                        | Inr avg \<Rightarrow> Inr (s1\<lparr>fade_target := avg\<rparr>))
                   | Some target \<Rightarrow>
                       (let s2 = s1\<lparr>fade_target := target\<rparr>
                        in case get_z_range zm h of
                             Inl e \<Rightarrow> Inl (e, s2)
                           | Inr (min_z, max_z) \<Rightarrow>
                               if \<not> (min_z \<le> fade_target s2 \<and> fade_target s2 \<le> max_z)
                                  \<and> fade_target s2 \<noteq> 0
                               then Inl (GcodeError, s2\<lparr>z_mesh := None, fade_target := 0\<rparr>)
                               else Inr s2))
                of
                  Inl r \<Rightarrow> Inl r
                | Inr s3 \<Rightarrow>
                    (case get_z_range zm h of
                       Inl e \<Rightarrow> Inl (e, s3)
                     | Inr (min_z, max_z) \<Rightarrow>
                         if fade_dist s3 \<le> max \<bar>min_z\<bar> \<bar>max_z\<bar>
                         then Inl (GcodeError, s3\<lparr>z_mesh := None, fade_target := 0\<rparr>)
                         else Inr (set_mesh_install s3 mesh)))
          else Inr (set_mesh_install (s\<lparr>fade_target := 0\<rparr>) mesh))"

text \<open>\<^verbatim>\<open>get_z_factor(z_pos)\<close>.\<close>

definition get_z_factor :: "bed_mesh \<Rightarrow> real \<Rightarrow> error + real" where
  "get_z_factor s z =
     (let z_pos = z + tool_offset s
      in if z_pos \<ge> fade_end s then Inr 0
         else if z_pos \<ge> fade_start s then py_truediv (fade_end s - z_pos) (fade_dist s)
         else Inr 1)"

section \<open>BedMeshCalibrate and ProbeManager: bed shape, probe points, faulty regions\<close>






text \<open>
  \<^verbatim>\<open>_init_faulty_regions\<close>. The options \<^verbatim>\<open>faulty_region_i_min\<close> and
  \<^verbatim>\<open>faulty_region_i_max\<close> are two partial functions of \<open>i\<close>; the loop runs \<open>i\<close> from 1 to
  99 and stops at the first \<open>i\<close> without a minimum. A region is the pair of its minimum
  and maximum corner.
  Modelled from the spec: \<^verbatim>\<open>config.getfloatlist\<close> of klippy/configfile.py, not in this
  module; without a default it raises a configuration error on a missing option.
\<close>

definition corners :: "real \<times> real \<Rightarrow> real \<times> real \<Rightarrow> (real \<times> real) list" where
  "corners c1 c3 = [c1, (fst c1, snd c3), c3, (fst c3, snd c1)]"

definition regions_overlap :: "(real \<times> real) \<times> (real \<times> real) \<Rightarrow> (real \<times> real) \<times> (real \<times> real) \<Rightarrow> bool" where
  "regions_overlap prev new \<longleftrightarrow>
     list_ex (\<lambda>coord. within_c coord (fst new) (snd new) 0) (corners (fst prev) (snd prev)) \<or>
     list_ex (\<lambda>coord. within_c coord (fst prev) (snd prev) 0) (corners (fst new) (snd new))"

primrec faulty_regions_loop ::
    "(nat \<Rightarrow> (real \<times> real) option) \<Rightarrow> (nat \<Rightarrow> (real \<times> real) option) \<Rightarrow> nat list \<Rightarrow>
     ((real \<times> real) \<times> (real \<times> real)) list \<Rightarrow> error + ((real \<times> real) \<times> (real \<times> real)) list" where
  "faulty_regions_loop cfg_min cfg_max [] regions = Inr regions"
| "faulty_regions_loop cfg_min cfg_max (i # rest) regions =
     (case cfg_min i of
        None \<Rightarrow> Inr regions
      | Some start \<Rightarrow>
          (case cfg_max i of
             None \<Rightarrow> Inl ConfigError
           | Some stop \<Rightarrow>
               (let c1 = (min (fst start) (fst stop), min (snd start) (snd stop));
                    c3 = (max (fst start) (fst stop), max (snd start) (snd stop))
                in if list_ex (\<lambda>prev. regions_overlap prev (c1, c3)) regions
                   then Inl ConfigError
                   else faulty_regions_loop cfg_min cfg_max rest (regions @ [(c1, c3)]))))"

definition init_faulty_regions ::
    "(nat \<Rightarrow> (real \<times> real) option) \<Rightarrow> (nat \<Rightarrow> (real \<times> real) option) \<Rightarrow>
     error + ((real \<times> real) \<times> (real \<times> real)) list" where
  "init_faulty_regions cfg_min cfg_max = faulty_regions_loop cfg_min cfg_max [1..<100] []"

section \<open>Notions used in the statements\<close>

text \<open>The splitter of the default configuration (\<^verbatim>\<open>split_delta_z\<close> 0.025,
  \<^verbatim>\<open>move_check_distance\<close> 5.0).\<close>

definition default_splitter :: move_splitter where
  "default_splitter = projr (MoveSplitter_init (25 / 1000) 5)"

text \<open>
  The fade fields of a BedMesh are written by \<^verbatim>\<open>__init__\<close> only. \<open>fade_configured s cs ce\<close>
  says that they are what \<^verbatim>\<open>__init__\<close> computes from the configured \<^verbatim>\<open>fade_start\<close> \<open>cs\<close> and
  \<^verbatim>\<open>fade_end\<close> \<open>ce\<close>.
\<close>

definition fade_configured :: "bed_mesh \<Rightarrow> real \<Rightarrow> real \<Rightarrow> bool" where
  "fade_configured s cs ce \<longleftrightarrow>
     fade_dist s = fade_dist (BedMesh_init 0 cs ce None default_splitter) \<and>
     fade_start s = fade_start (BedMesh_init 0 cs ce None default_splitter) \<and>
     fade_end s = fade_end (BedMesh_init 0 cs ce None default_splitter)"

text \<open>The region the options number \<open>i\<close> describe, and "a corner of \<open>a\<close> lies in \<open>b\<close>".\<close>

definition region_of :: "real \<times> real \<Rightarrow> real \<times> real \<Rightarrow> (real \<times> real) \<times> (real \<times> real)" where
  "region_of start stop =
     ((min (fst start) (fst stop), min (snd start) (snd stop)),
      (max (fst start) (fst stop), max (snd start) (snd stop)))"

definition configured_region ::
    "(nat \<Rightarrow> (real \<times> real) option) \<Rightarrow> (nat \<Rightarrow> (real \<times> real) option) \<Rightarrow> nat \<Rightarrow>
     (real \<times> real) \<times> (real \<times> real)" where
  "configured_region cfg_min cfg_max i = region_of (the (cfg_min i)) (the (cfg_max i))"

definition corner_inside ::
    "(real \<times> real) \<times> (real \<times> real) \<Rightarrow> (real \<times> real) \<times> (real \<times> real) \<Rightarrow> bool" where
  "corner_inside a b \<longleftrightarrow> list_ex (\<lambda>c. within_c c (fst b) (snd b) 0) (corners (fst a) (snd a))"

text \<open>
  The rectangular snake lattice in closed form: row \<open>i\<close> at height \<open>lo_y + i * y_dist\<close>,
  listed from \<open>lo_x\<close> upwards when \<open>i\<close> is even and from \<open>hi_x\<close> downwards when it is odd.
  \<open>floor_step\<close> is the step of an axis, floored to a hundredth. \<open>round_lattice\<close> keeps the
  lattice points within \<open>r\<close> of (0, 0) and moves them by the origin of the bed.
\<close>

definition snake_row :: "real \<Rightarrow> real \<Rightarrow> real \<Rightarrow> int \<Rightarrow> int \<Rightarrow> real \<Rightarrow> (real \<times> real) list" where
  "snake_row lo_x hi_x x_dist x_cnt i pos_y =
     map (\<lambda>j. (if i mod 2 = 0 then lo_x + of_int j * x_dist else hi_x - of_int j * x_dist, pos_y))
         (py_range x_cnt)"




text \<open>
  Concrete objects for the examples: the parameters of a 3 by 3 mesh on (0,0)-(200,200),
  a store with a nearly flat probed matrix at address 0 and one of height 10 at address
  1, the meshes \<^verbatim>\<open>ZMesh(params).build_mesh(matrix)\<close> builds from them with the direct
  algorithm (\<open>direct_3x3 a\<close> is the value of that mesh for the matrix at \<open>a\<close>), and the
  BedMesh with a fade band from 1 to 10 after \<^verbatim>\<open>set_mesh(flat_mesh)\<close>.
\<close>

definition example_params :: "string \<Rightarrow> int \<Rightarrow> mesh_params" where
  "example_params a pps =
     \<lparr>min_x = 0, max_x = 200, min_y = 0, max_y = 200, x_count = 3, y_count = 3,
      mesh_x_pps = pps, mesh_y_pps = pps, algo = a, tension = 2 / 10\<rparr>"

definition example_store :: store where
  "example_store =
     \<lparr>cells = (\<lambda>_. [])(0 := [[1 / 10, 1 / 10, 1 / 10], [1 / 10, 2 / 10, 1 / 10], [1 / 10, 1 / 10, 1 / 10]],
                        1 := [[10, 10, 10], [10, 10, 10], [10, 10, 10]]),
      next_free = 2\<rparr>"

definition flat_mesh :: zmesh where
  "flat_mesh = fst (projr (build_mesh (projr (ZMesh_init (example_params ''direct'' 0))) example_store 0))"

definition tall_mesh :: zmesh where
  "tall_mesh = fst (projr (build_mesh (projr (ZMesh_init (example_params ''direct'' 0))) example_store 1))"

definition direct_3x3 :: "nat \<Rightarrow> zmesh" where
  "direct_3x3 a = \<lparr>mesh_params = example_params ''direct'' 0, probed_matrix = Some a, mesh_matrix = Some a,
              mesh_offsets = (0, 0),
              mesh_x_min = 0, mesh_x_max = 200,
              mesh_y_min = 0, mesh_y_max = 200,
              mesh_x_count = 3, mesh_y_count = 3,
              x_mult = 1, y_mult = 1,
              mesh_x_dist = 100, mesh_y_dist = 100\<rparr>"

definition flat_installed :: bed_mesh where
  "flat_installed = projr (set_mesh (BedMesh_init 5 1 10 None default_splitter) example_store (Some flat_mesh))"

text \<open>
  \<open>mesh_ok m h\<close>: the mesh has no dense matrix, or one of \<^verbatim>\<open>mesh_y_count\<close> rows of
  \<^verbatim>\<open>mesh_x_count\<close> entries with at least two of each and cells of non-zero size; no read
  of \<^verbatim>\<open>calc_z\<close> is then out of range.
\<close>

definition mesh_ok :: "zmesh \<Rightarrow> store \<Rightarrow> bool" where
  "mesh_ok m h \<longleftrightarrow>
     (case mesh_matrix m of
        None \<Rightarrow> True
      | Some a \<Rightarrow>
          mesh_x_dist m \<noteq> 0 \<and> mesh_y_dist m \<noteq> 0 \<and>
          2 \<le> mesh_x_count m \<and> 2 \<le> mesh_y_count m \<and>
          int (length (cells h a)) = mesh_y_count m \<and>
          list_all (\<lambda>row. int (length row) = mesh_x_count m) (cells h a))"

text \<open>
  \<open>move_ready s h\<close>: what \<^verbatim>\<open>build_move\<close> establishes and the loop of \<^verbatim>\<open>split\<close> keeps: a
  mesh to look up, a positive check distance, positions of at least three coordinates
  (the previous one at least as long as the next one), one flag per coordinate.
\<close>

definition move_ready :: "move_splitter \<Rightarrow> store \<Rightarrow> bool" where
  "move_ready s h \<longleftrightarrow>
     (case ms_z_mesh s of None \<Rightarrow> False | Some m \<Rightarrow> mesh_ok m h) \<and>
     0 < move_check_distance s \<and>
     3 \<le> length (next_pos s) \<and> length (next_pos s) \<le> length (prev_pos s) \<and>
     length (axis_move s) = length (next_pos s) \<and>
     length (next_pos s) \<le> length (current_pos s) \<and>
     0 \<le> distance_checked s"

text \<open>
  \<open>split_trace k s h\<close>: \<open>k\<close> successive calls of \<^verbatim>\<open>split()\<close>, each recorded as the state
  before the call, the value returned and the state after. It has no value when a call
  does not return and is an error when a call raises. \<open>chained s tr\<close>: the calls of \<open>tr\<close>
  follow one another from \<open>s\<close>.
\<close>

fun split_trace ::
    "nat \<Rightarrow> move_splitter \<Rightarrow> store \<Rightarrow>
     (error + (move_splitter \<times> real list option \<times> move_splitter) list) option" where
  "split_trace 0 s h = Some (Inr [])"
| "split_trace (Suc k) s h =
     (case split s h of
        None \<Rightarrow> None
      | Some (Inl e) \<Rightarrow> Some (Inl e)
      | Some (Inr (out, s')) \<Rightarrow>
          (case split_trace k s' h of
             None \<Rightarrow> None
           | Some (Inl e) \<Rightarrow> Some (Inl e)
           | Some (Inr tr) \<Rightarrow> Some (Inr ((s, out, s') # tr))))"

text \<open>
  \<open>same_move s s'\<close>: the two states differ at most in the cursor (the distance checked,
  the current position, the last offset, the completion flag). \<open>advanced b a j\<close>: the
  loop ran \<open>j\<close> times between \<open>b\<close> and \<open>a\<close>. \<open>intermediate_call h c\<close>: the call \<open>c\<close>
  returned from inside the loop.
\<close>

definition same_move :: "move_splitter \<Rightarrow> move_splitter \<Rightarrow> bool" where
  "same_move s s' \<longleftrightarrow>
     split_delta_z s' = split_delta_z s \<and> move_check_distance s' = move_check_distance s \<and>
     ms_z_mesh s' = ms_z_mesh s \<and> fade_offset s' = fade_offset s \<and>
     prev_pos s' = prev_pos s \<and> next_pos s' = next_pos s \<and> z_factor s' = z_factor s \<and>
     total_move_length s' = total_move_length s \<and> axis_move s' = axis_move s"

definition advanced :: "move_splitter \<Rightarrow> move_splitter \<Rightarrow> nat \<Rightarrow> bool" where
  "advanced b a j \<longleftrightarrow>
     distance_checked a = distance_checked b + of_nat j * move_check_distance b \<and>
     (j = 0 \<or> distance_checked a < total_move_length b)"

definition intermediate_call :: "store \<Rightarrow> move_splitter \<times> real list option \<times> move_splitter \<Rightarrow> bool" where
  "intermediate_call h c \<longleftrightarrow>
     (case c of (b, out, a) \<Rightarrow>
        \<not> traverse_complete a \<and> same_move b a \<and>
        distance_checked b + move_check_distance b \<le> distance_checked a \<and>
        distance_checked a < total_move_length b \<and>
        split_delta_z b \<le> \<bar>z_offset a - z_offset b\<bar> \<and>
        calc_z_offset a h (current_pos a) = Inr (z_offset a) \<and>
        out = Some ((current_pos a)[2 := current_pos a ! 2 + z_offset a]))"

fun chained :: "move_splitter \<Rightarrow> (move_splitter \<times> real list option \<times> move_splitter) list \<Rightarrow> bool" where
  "chained s [] = True"
| "chained s ((b, out, a) # tr) = (b = s \<and> chained a tr)"

text \<open>
  A move for the examples: a mesh rising by 1 per 100 along X, the default splitter
  with that mesh, and the move from (0, 0, 0) to (12, 0, 0) with factor 1.
  \<open>example_state d cur zo tc\<close> is the state of that move with cursor \<open>d\<close>, \<open>cur\<close>, \<open>zo\<close>, \<open>tc\<close>.
\<close>

definition slope_store :: store where
  "slope_store = \<lparr>cells = (\<lambda>_. [])(0 := [[0, 1, 2], [0, 1, 2], [0, 1, 2]]), next_free = 1\<rparr>"

definition slope_mesh :: zmesh where
  "slope_mesh = fst (projr (build_mesh (projr (ZMesh_init (example_params ''direct'' 0))) slope_store 0))"

definition example_splitter :: move_splitter where
  "example_splitter = initialize default_splitter (Some slope_mesh) 0"

definition example_move :: move_splitter where
  "example_move = projr (build_move example_splitter slope_store [0, 0, 0, 0] [12, 0, 0, 0] 1)"

definition example_state :: "real \<Rightarrow> real list \<Rightarrow> real \<Rightarrow> bool \<Rightarrow> move_splitter" where
  "example_state d cur zo tc =
     \<lparr>split_delta_z = 25 / 1000, move_check_distance = 5,
      ms_z_mesh = Some slope_mesh, fade_offset = 0,
      prev_pos = [0, 0, 0, 0], next_pos = [12, 0, 0, 0], current_pos = cur, z_factor = 1,
      z_offset = zo, traverse_complete = tc, distance_checked = d, total_move_length = 12,
      axis_move = [True, False, False, False]\<rparr>"

text \<open>
  \<open>samples_kept m z_matrix mat\<close>: the matrix \<open>mat\<close> has the size of the dense grid of \<open>m\<close>
  and holds \<^verbatim>\<open>z_matrix[j][i]\<close> at row \<^verbatim>\<open>j * y_mult\<close>, column \<^verbatim>\<open>i * x_mult\<close>, for every
  probed index \<open>(i, j)\<close>.
\<close>

definition samples_kept :: "zmesh \<Rightarrow> real list list \<Rightarrow> real list list \<Rightarrow> bool" where
  "samples_kept m z_matrix mat \<longleftrightarrow>
     int (length mat) = mesh_y_count m \<and>
     list_all (\<lambda>row. int (length row) = mesh_x_count m) mat \<and>
     list_all (\<lambda>j. list_all (\<lambda>i.
         mat ! nat (j * y_mult m) ! nat (i * x_mult m) = z_matrix ! nat j ! nat i)
       (py_range (x_count (mesh_params m)))) (py_range (y_count (mesh_params m)))"

text \<open>
  The 3 by 3 example interpolated by the bicubic algorithm with one point between two
  probed ones: the mesh out of \<^verbatim>\<open>ZMesh.__init__\<close>, the dense matrix of 5 by 5 that
  \<^verbatim>\<open>_sample_bicubic\<close> computes for it, and the mesh and the store after \<^verbatim>\<open>build_mesh\<close>.
  \<open>flat_zeroed\<close> and \<open>bicubic_zeroed\<close> are the stores after
  \<^verbatim>\<open>set_zero_reference(100, 100)\<close> on the direct and on the bicubic mesh.
\<close>

definition bicubic_init :: zmesh where
  "bicubic_init = projr (ZMesh_init (example_params ''bicubic'' 1))"

definition bicubic_dense :: "real list list" where
  "bicubic_dense =
     [[1 / 10, 1 / 10, 1 / 10, 1 / 10, 1 / 10],
      [1 / 10, 2041 / 16000, 61 / 400, 2041 / 16000, 1 / 10],
      [1 / 10, 61 / 400, 2 / 10, 61 / 400, 1 / 10],
      [1 / 10, 2041 / 16000, 61 / 400, 2041 / 16000, 1 / 10],
      [1 / 10, 1 / 10, 1 / 10, 1 / 10, 1 / 10]]"

definition bicubic_mesh :: zmesh where
  "bicubic_mesh = fst (projr (build_mesh bicubic_init example_store 0))"

definition bicubic_store :: store where
  "bicubic_store = snd (projr (build_mesh bicubic_init example_store 0))"

definition flat_zeroed :: store where
  "flat_zeroed = projr (set_zero_reference flat_mesh example_store 100 100)"

definition bicubic_zeroed :: store where
  "bicubic_zeroed = projr (set_zero_reference bicubic_mesh bicubic_store 100 100)"

section \<open>Properties\<close>

subsection \<open>The fade factor\<close>

lemma init_fade_configured: "fade_configured (BedMesh_init mz cs ce ft sp) cs ce"
  by (simp add: fade_configured_def BedMesh_init_def Let_def)

lemma fade_configured_fields:
  "fade_configured s cs ce \<longleftrightarrow>
     fade_dist s = ce - cs \<and>
     fade_start s = (if ce \<le> cs then FADE_DISABLE else cs) \<and>
     fade_end s = (if ce \<le> cs then FADE_DISABLE else ce)"
  by (simp add: fade_configured_def BedMesh_init_def Let_def)

lemma get_z_factor_enabled:
  assumes "fade_configured s cs ce" and "cs < ce"
  shows "get_z_factor s z =
           Inr (if ce \<le> z + tool_offset s then 0
                else if cs \<le> z + tool_offset s then (ce - (z + tool_offset s)) / (ce - cs)
                else 1)"
  using assms by (simp add: fade_configured_fields get_z_factor_def py_truediv_def Let_def)

lemma get_z_factor_disabled:
  assumes "fade_configured s cs ce" and "ce \<le> cs"
  shows "get_z_factor s z = Inr (if FADE_DISABLE \<le> z + tool_offset s then 0 else 1)"
  using assms by (simp add: fade_configured_fields get_z_factor_def py_truediv_def Let_def)

lemma ramp_bounds:
  fixes p :: real
  assumes "cs \<le> p" "p < ce"
  shows "0 \<le> (ce - p) / (ce - cs)" "(ce - p) / (ce - cs) \<le> 1"
  using assms by (simp_all add: divide_simps)

lemma get_z_factor_range:
  assumes "fade_configured s cs ce"
  shows "\<exists>f. get_z_factor s z = Inr f \<and> 0 \<le> f \<and> f \<le> 1"
proof (cases "cs < ce")
  case True
  show ?thesis
    unfolding get_z_factor_enabled [OF assms True]
    using ramp_bounds [of cs "z + tool_offset s" ce] by auto
next
  case False
  then have off: "ce \<le> cs" by simp
  show ?thesis
    unfolding get_z_factor_disabled [OF assms off] by auto
qed

lemma get_z_factor_mono:
  assumes cfg: "fade_configured s cs ce" and en: "cs < ce" and le: "z \<le> z'"
    and f: "get_z_factor s z = Inr f" and f': "get_z_factor s z' = Inr f'"
  shows "f' \<le> f"
proof -
  let ?p = "z + tool_offset s" and ?p' = "z' + tool_offset s"
  have pp: "?p \<le> ?p'" using le by simp
  have F: "f = (if ce \<le> ?p then 0 else if cs \<le> ?p then (ce - ?p) / (ce - cs) else 1)"
    using f get_z_factor_enabled [OF cfg en, of z] by simp
  have F': "f' = (if ce \<le> ?p' then 0 else if cs \<le> ?p' then (ce - ?p') / (ce - cs) else 1)"
    using f' get_z_factor_enabled [OF cfg en, of z'] by simp
  have ramp: "(ce - ?p') / (ce - cs) \<le> (ce - ?p) / (ce - cs)"
    using pp en by (simp add: divide_right_mono)
  show ?thesis
    unfolding F F'
    using pp en ramp ramp_bounds [of cs ?p ce] ramp_bounds [of cs ?p' ce]
    by (auto split: if_splits)
qed

text \<open>
  Claim C3 as stated fails where fading is disabled: \<^verbatim>\<open>__init__\<close> disables it by moving
  both ends of the band to the sentinel \<^verbatim>\<open>FADE_DISABLE = 0x7FFFFFFF\<close>, and
  \<^verbatim>\<open>get_z_factor\<close> still compares with it. With the default options (\<^verbatim>\<open>fade_start\<close> 1.0,
  \<^verbatim>\<open>fade_end\<close> 0.0: a span of -1) the factor at z = 2147483647 is 0, not 1.
\<close>

theorem get_z_factor_disabled_counterexample:
  "get_z_factor (BedMesh_init 5 1 0 None default_splitter) 2147483647 = Inr 0 \<and>
   get_z_factor (BedMesh_init 5 1 0 None default_splitter) 2147483647 \<noteq> Inr 1"
  by (simp add: get_z_factor_def BedMesh_init_def FADE_DISABLE_def Let_def)

text \<open>
  Claim C3, amended. Let \<open>p = z + tool_offset\<close> be the height \<^verbatim>\<open>get_z_factor\<close> compares
  (\<^verbatim>\<open>tool_offset\<close> is 0.0 unless a \<^verbatim>\<open>BED_MESH_OFFSET ZFADE=\<close> command set it). In every state
  whose fade fields come from the configured pair \<open>cs\<close>, \<open>ce\<close>: the factor is a number in
  [0, 1] and no exception is raised; when \<open>cs < ce\<close> it is 0 for \<open>p \<ge> ce\<close>, 1 for \<open>p < cs\<close>,
  \<open>(ce - p) / (ce - cs)\<close> in between, and it does not increase with \<open>z\<close>; when the span
  \<open>ce - cs\<close> is not positive it is 1 for every \<open>p\<close> below the sentinel 2147483647 (and 0
  from the sentinel on).
\<close>

theorem get_z_factor_fade:
  assumes "fade_configured s cs ce"
  shows "(\<exists>f. get_z_factor s z = Inr f \<and> 0 \<le> f \<and> f \<le> 1) \<and>
     (cs < ce \<longrightarrow>
        (ce \<le> z + tool_offset s \<longrightarrow> get_z_factor s z = Inr 0) \<and>
        (z + tool_offset s < cs \<longrightarrow> get_z_factor s z = Inr 1) \<and>
        (cs \<le> z + tool_offset s \<and> z + tool_offset s < ce \<longrightarrow>
           get_z_factor s z = Inr ((ce - (z + tool_offset s)) / (ce - cs))) \<and>
        (\<forall>z' f f'. z \<le> z' \<and> get_z_factor s z = Inr f \<and> get_z_factor s z' = Inr f' \<longrightarrow> f' \<le> f)) \<and>
     (ce \<le> cs \<longrightarrow>
        (z + tool_offset s < FADE_DISABLE \<longrightarrow> get_z_factor s z = Inr 1) \<and>
        (FADE_DISABLE \<le> z + tool_offset s \<longrightarrow> get_z_factor s z = Inr 0))"
proof (intro conjI impI allI)
  show "\<exists>f. get_z_factor s z = Inr f \<and> 0 \<le> f \<and> f \<le> 1"
    by (rule get_z_factor_range [OF assms])
next
  assume "cs < ce" "ce \<le> z + tool_offset s"
  then show "get_z_factor s z = Inr 0" by (simp add: get_z_factor_enabled [OF assms])
next
  assume "cs < ce" "z + tool_offset s < cs"
  then show "get_z_factor s z = Inr 1" by (simp add: get_z_factor_enabled [OF assms])
next
  assume "cs < ce" "cs \<le> z + tool_offset s \<and> z + tool_offset s < ce"
  then show "get_z_factor s z = Inr ((ce - (z + tool_offset s)) / (ce - cs))"
    by (simp add: get_z_factor_enabled [OF assms])
next
  fix z' f f'
  assume "cs < ce" "z \<le> z' \<and> get_z_factor s z = Inr f \<and> get_z_factor s z' = Inr f'"
  then show "f' \<le> f" using get_z_factor_mono [OF assms] by blast
next
  assume "ce \<le> cs" "z + tool_offset s < FADE_DISABLE"
  then show "get_z_factor s z = Inr 1" by (simp add: get_z_factor_disabled [OF assms])
next
  assume "ce \<le> cs" "FADE_DISABLE \<le> z + tool_offset s"
  then show "get_z_factor s z = Inr 0" by (simp add: get_z_factor_disabled [OF assms])
qed

text \<open>The amended claim at a band from 1 to 10 and z = 4 (factor 2/3), and at the default,
  disabled band and z = 4 (factor 1).\<close>

theorem get_z_factor_fade_witness:
  "fade_configured (BedMesh_init 5 1 10 None default_splitter) 1 10 \<and>
   get_z_factor (BedMesh_init 5 1 10 None default_splitter) 4 = Inr (2 / 3) \<and>
   fade_configured (BedMesh_init 5 1 0 None default_splitter) 1 0 \<and>
   get_z_factor (BedMesh_init 5 1 0 None default_splitter) 4 = Inr 1"
proof -
  let ?s = "BedMesh_init 5 1 10 None default_splitter"
  let ?d = "BedMesh_init 5 1 0 None default_splitter"
  have c: "fade_configured ?s 1 10" by (rule init_fade_configured)
  have d: "fade_configured ?d 1 0" by (rule init_fade_configured)
  have t: "tool_offset ?s = 0" "tool_offset ?d = 0" by (simp_all add: BedMesh_init_def Let_def)
  from get_z_factor_fade [OF c, of 4] have "get_z_factor ?s 4 = Inr ((10 - 4) / (10 - 1))"
    by (simp add: t)
  moreover from get_z_factor_fade [OF d, of 4] have "get_z_factor ?d 4 = Inr 1"
    by (simp add: t FADE_DISABLE_def)
  ultimately show ?thesis using c d by simp
qed

subsection \<open>Faulty regions\<close>

lemma regions_overlap_iff: "regions_overlap a b \<longleftrightarrow> corner_inside a b \<or> corner_inside b a"
  by (simp add: regions_overlap_def corner_inside_def)

lemma faulty_loop_error:
  "faulty_regions_loop cfg_min cfg_max idxs regs0 = Inl e \<Longrightarrow> e = ConfigError"
  by (induction idxs arbitrary: regs0) (auto simp: Let_def split: option.splits if_splits)

lemma faulty_loop_inv:
  assumes "faulty_regions_loop cfg_min cfg_max idxs regs0 = Inr regs"
    and "sorted_wrt (\<lambda>a b. \<not> regions_overlap a b) regs0"
  shows "sorted_wrt (\<lambda>a b. \<not> regions_overlap a b) regs \<and>
         (\<exists>k \<le> length idxs.
            regs = regs0 @ map (configured_region cfg_min cfg_max) (take k idxs) \<and>
            (\<forall>i \<in> set (take k idxs). cfg_min i \<noteq> None \<and> cfg_max i \<noteq> None) \<and>
            (k < length idxs \<longrightarrow> cfg_min (idxs ! k) = None))"
  using assms
proof (induction idxs arbitrary: regs0)
  case Nil
  then show ?case by simp
next
  case (Cons i rest)
  show ?case
  proof (cases "cfg_min i")
    case None
    with Cons.prems have "regs = regs0" by simp
    with Cons.prems None show ?thesis by (intro conjI exI [of _ 0]) auto
  next
    case (Some start)
    with Cons.prems obtain stop where stop: "cfg_max i = Some stop"
      by (cases "cfg_max i") auto
    let ?r = "region_of start stop"
    from Cons.prems Some stop
    have no: "\<not> list_ex (\<lambda>prev. regions_overlap prev ?r) regs0"
      and rec: "faulty_regions_loop cfg_min cfg_max rest (regs0 @ [?r]) = Inr regs"
      by (auto simp: Let_def region_of_def split: if_splits)
    have srt: "sorted_wrt (\<lambda>a b. \<not> regions_overlap a b) (regs0 @ [?r])"
      using Cons.prems(2) no by (auto simp: sorted_wrt_append list_ex_iff)
    from Cons.IH [OF rec srt] obtain k where
      s: "sorted_wrt (\<lambda>a b. \<not> regions_overlap a b) regs" and k: "k \<le> length rest"
      and eq: "regs = (regs0 @ [?r]) @ map (configured_region cfg_min cfg_max) (take k rest)"
      and df: "\<forall>i \<in> set (take k rest). cfg_min i \<noteq> None \<and> cfg_max i \<noteq> None"
      and st: "k < length rest \<longrightarrow> cfg_min (rest ! k) = None"
      by blast
    have cr: "configured_region cfg_min cfg_max i = ?r"
      by (simp add: configured_region_def Some stop)
    show ?thesis
      using s k eq df st cr Some stop
      by (intro conjI exI [of _ "Suc k"]) auto
  qed
qed

lemma init_faulty_regions_accepts:
  assumes "init_faulty_regions cfg_min cfg_max = Inr regs"
  shows "(\<exists>k \<le> 99. regs = map (configured_region cfg_min cfg_max) [1..<Suc k] \<and>
                   (k < 99 \<longrightarrow> cfg_min (Suc k) = None)) \<and>
         sorted_wrt (\<lambda>a b. \<not> regions_overlap a b) regs"
proof -
  have s0: "sorted_wrt (\<lambda>a b. \<not> regions_overlap a b) []" by simp
  from faulty_loop_inv [OF assms [unfolded init_faulty_regions_def] s0]
  obtain k where s: "sorted_wrt (\<lambda>a b. \<not> regions_overlap a b) regs"
    and k: "k \<le> length [1..<100::nat]"
    and eq: "regs = [] @ map (configured_region cfg_min cfg_max) (take k [1..<100])"
    and st: "k < length [1..<100::nat] \<longrightarrow> cfg_min ([1..<100] ! k) = None"
    by blast
  have k99: "k \<le> 99" using k by simp
  have tk: "take k [1..<100] = [1..<Suc k]" using k99 by (simp add: take_upt del: upt_Suc)
  have "k < 99 \<longrightarrow> cfg_min (Suc k) = None" using st by (simp add: nth_upt del: upt_Suc)
  with s k99 eq tk show ?thesis by (auto simp del: upt_Suc)
qed

lemma nth_configured:
  assumes "1 \<le> i" "i \<le> k"
  shows "map f [1..<Suc k] ! (i - 1) = f i"
proof -
  have "i - 1 < length [1..<Suc k]" using assms by simp
  then have "map f [1..<Suc k] ! (i - 1) = f ([1..<Suc k] ! (i - 1))" by (rule nth_map)
  also have "[1..<Suc k] ! (i - 1) = 1 + (i - 1)" using assms by (intro nth_upt) simp
  also have "1 + (i - 1) = i" using assms by simp
  finally show ?thesis .
qed

text \<open>
  Claim C9. When \<^verbatim>\<open>_init_faulty_regions\<close> accepts the options, the regions it stores are
  the configured ones in order, up to the first missing \<^verbatim>\<open>faulty_region_i_min\<close> (at most
  99), and for any two of them no corner of either lies in the other (the four corners
  of each, both ways). When a corner of a configured region lies in another one it
  raises a configuration error. The two regions (10,10)-(50,50) and (30,30)-(70,70) are
  rejected.
\<close>

theorem init_faulty_regions_validated:
  "(init_faulty_regions cfg_min cfg_max = Inr regs \<longrightarrow>
      (\<exists>k \<le> 99. regs = map (configured_region cfg_min cfg_max) [1..<Suc k] \<and>
                 (k < 99 \<longrightarrow> cfg_min (Suc k) = None)) \<and>
      (\<forall>i j. i < j \<and> j < length regs \<longrightarrow>
         \<not> corner_inside (regs ! i) (regs ! j) \<and> \<not> corner_inside (regs ! j) (regs ! i))) \<and>
   (1 \<le> i \<and> i < j \<and> j \<le> 99 \<and> (\<forall>k. 1 \<le> k \<and> k \<le> j \<longrightarrow> cfg_min k \<noteq> None) \<and>
    (corner_inside (configured_region cfg_min cfg_max i) (configured_region cfg_min cfg_max j) \<or>
     corner_inside (configured_region cfg_min cfg_max j) (configured_region cfg_min cfg_max i))
    \<longrightarrow> init_faulty_regions cfg_min cfg_max = Inl ConfigError) \<and>
   init_faulty_regions
     (\<lambda>n. if n = 1 then Some (10, 10) else if n = 2 then Some (30, 30) else None)
     (\<lambda>n. if n = 1 then Some (50, 50) else if n = 2 then Some (70, 70) else None)
   = Inl ConfigError"
proof (intro conjI impI)
  assume ok: "init_faulty_regions cfg_min cfg_max = Inr regs"
  from init_faulty_regions_accepts [OF ok]
  show "\<exists>k \<le> 99. regs = map (configured_region cfg_min cfg_max) [1..<Suc k] \<and>
                 (k < 99 \<longrightarrow> cfg_min (Suc k) = None)" by blast
  from init_faulty_regions_accepts [OF ok]
  have "sorted_wrt (\<lambda>a b. \<not> regions_overlap a b) regs" by blast
  then show "\<forall>i j. i < j \<and> j < length regs \<longrightarrow>
         \<not> corner_inside (regs ! i) (regs ! j) \<and> \<not> corner_inside (regs ! j) (regs ! i)"
    by (auto simp: sorted_wrt_iff_nth_less regions_overlap_iff)
next
  assume a: "1 \<le> i \<and> i < j \<and> j \<le> 99 \<and> (\<forall>k. 1 \<le> k \<and> k \<le> j \<longrightarrow> cfg_min k \<noteq> None) \<and>
    (corner_inside (configured_region cfg_min cfg_max i) (configured_region cfg_min cfg_max j) \<or>
     corner_inside (configured_region cfg_min cfg_max j) (configured_region cfg_min cfg_max i))"
  show "init_faulty_regions cfg_min cfg_max = Inl ConfigError"
  proof (cases "init_faulty_regions cfg_min cfg_max")
    case (Inl e)
    then show ?thesis
      using faulty_loop_error [of cfg_min cfg_max "[1..<100]" "[]" e]
      by (simp add: init_faulty_regions_def)
  next
    case (Inr rs)
    from init_faulty_regions_accepts [OF Inr] obtain k where k: "k \<le> 99"
      and eq: "rs = map (configured_region cfg_min cfg_max) [1..<Suc k]"
      and st: "k < 99 \<longrightarrow> cfg_min (Suc k) = None"
      and s: "sorted_wrt (\<lambda>a b. \<not> regions_overlap a b) rs" by blast
    have jk: "j \<le> k"
    proof (rule ccontr)
      assume "\<not> j \<le> k"
      then have "k < 99" "1 \<le> Suc k" "Suc k \<le> j" using a by auto
      with st a show False by blast
    qed
    have len: "length rs = k" unfolding eq by simp
    have ri: "rs ! (i - 1) = configured_region cfg_min cfg_max i"
      unfolding eq using a jk by (intro nth_configured) auto
    have rj: "rs ! (j - 1) = configured_region cfg_min cfg_max j"
      unfolding eq using a jk by (intro nth_configured) auto
    have "\<not> regions_overlap (rs ! (i - 1)) (rs ! (j - 1))"
      using s a jk len by (auto simp: sorted_wrt_iff_nth_less)
    with ri rj a show ?thesis by (simp add: regions_overlap_iff)
  qed
next
  have u: "[1..<100] = 1 # 2 # [3..<100]"
    by (simp add: upt_conv_Cons)
  show "init_faulty_regions
     (\<lambda>n. if n = 1 then Some (10, 10) else if n = 2 then Some (30, 30) else None)
     (\<lambda>n. if n = 1 then Some (50, 50) else if n = 2 then Some (70, 70) else None)
   = Inl ConfigError"
    unfolding init_faulty_regions_def u
    by (simp add: Let_def regions_overlap_def corners_def within_c_def)
qed

text \<open>Claim C9 at two disjoint regions: they are accepted, and no corner of one lies in
  the other.\<close>

theorem init_faulty_regions_validated_witness:
  "init_faulty_regions
     (\<lambda>n. if n = 1 then Some (10, 10) else if n = 2 then Some (30, 30) else None)
     (\<lambda>n. if n = 1 then Some (20, 20) else if n = 2 then Some (40, 40) else None)
   = Inr [((10, 10), (20, 20)), ((30, 30), (40, 40))] \<and>
   \<not> corner_inside ((10, 10), (20, 20)) ((30, 30), (40, 40)) \<and>
   \<not> corner_inside ((30, 30), (40, 40)) ((10, 10), (20, 20))"
proof -
  let ?mn = "\<lambda>n::nat. if n = 1 then Some (10, 10) else if n = 2 then Some (30, 30) else (None :: (real \<times> real) option)"
  let ?mx = "\<lambda>n::nat. if n = 1 then Some (20, 20) else if n = 2 then Some (40, 40) else (None :: (real \<times> real) option)"
  let ?rs = "[((10, 10), (20, 20)), ((30, 30), (40, 40))] :: ((real \<times> real) \<times> (real \<times> real)) list"
  have u: "[1..<100] = 1 # 2 # 3 # [4..<100]"
    by (simp add: upt_conv_Cons)
  have r: "init_faulty_regions ?mn ?mx = Inr ?rs"
    unfolding init_faulty_regions_def u
    by (simp add: Let_def regions_overlap_def corners_def within_c_def)
  from init_faulty_regions_validated [of ?mn ?mx ?rs] r
  have "\<forall>i j. i < j \<and> j < length ?rs \<longrightarrow>
         \<not> corner_inside (?rs ! i) (?rs ! j) \<and> \<not> corner_inside (?rs ! j) (?rs ! i)"
    by blast
  from this [rule_format, of 0 1] r show ?thesis by simp
qed

subsection \<open>Probe points\<close>


lemma fold_snoc_filter:
  "fold (\<lambda>j pts. if P (g j) then pts @ [sh (g j)] else pts) js pts
     = pts @ map sh (filter P (map g js))"
  by (induction js arbitrary: pts) auto










lemma length_snake_row [simp]: "length (snake_row lo_x hi_x xd x_cnt i pos_y) = nat x_cnt"
  by (simp add: snake_row_def py_range_def)





















subsection \<open>Installing a mesh\<close>

lemma upt_0_3: "[0..<3] = [0, 1, 2]" by (simp add: upt_rec)

lemma ZMesh_init_direct_3x3: "ZMesh_init (example_params ''direct'' 0) = Inr ((direct_3x3 a)\<lparr>probed_matrix := None, mesh_matrix := None\<rparr>)"
  by (simp add: ZMesh_init_def example_params_def direct_3x3_def py_truediv_def ebind_def Let_def)

lemma get_z_range_flat: "get_z_range (direct_3x3 0) example_store = Inr (1 / 10, 2 / 10)"
  by (simp add: get_z_range_def direct_3x3_def example_store_def ebind_def py_min_def py_max_def)

lemma get_z_range_tall: "get_z_range (direct_3x3 (Suc 0)) example_store = Inr (10, 10)"
  by (simp add: get_z_range_def direct_3x3_def example_store_def ebind_def py_min_def py_max_def)

lemma get_z_average_flat: "get_z_average (direct_3x3 0) example_store = Inr (11 / 100)"
  by (simp add: get_z_average_def direct_3x3_def example_store_def ebind_def py_truediv_def py_round_def Let_def)

lemma get_z_average_tall: "get_z_average (direct_3x3 (Suc 0)) example_store = Inr 10"
  by (simp add: get_z_average_def direct_3x3_def example_store_def ebind_def py_truediv_def py_round_def Let_def)

lemma print_mesh_flat: "print_mesh (direct_3x3 0) example_store = Inr ()"
  unfolding print_mesh_def get_z_average_flat get_z_range_flat
  by (simp add: ebind_def get_mesh_matrix_def direct_3x3_def example_store_def py_range_def upt_0_3 py_index_def)

lemma print_mesh_tall: "print_mesh (direct_3x3 (Suc 0)) example_store = Inr ()"
  unfolding print_mesh_def get_z_average_tall get_z_range_tall
  by (simp add: ebind_def get_mesh_matrix_def direct_3x3_def example_store_def py_range_def upt_0_3 py_index_def)

lemma build_direct_3x3:
  assumes "print_mesh (direct_3x3 a) h = Inr ()"
  shows "build_mesh ((direct_3x3 a)\<lparr>probed_matrix := None, mesh_matrix := None\<rparr>) h a
           = Inr (direct_3x3 a, h)"
proof -
  have al: "algo (mesh_params (direct_3x3 a)) = ''direct''"
    by (simp add: direct_3x3_def example_params_def)
  have upd: "(direct_3x3 a)\<lparr>probed_matrix := Some a, mesh_matrix := Some a\<rparr> = direct_3x3 a"
    by (simp add: direct_3x3_def)
  show ?thesis
    by (simp add: build_mesh_def Let_def ebind_def al upd assms)
qed

lemma flat_mesh_eq: "flat_mesh = direct_3x3 0"
  unfolding flat_mesh_def ZMesh_init_direct_3x3 [of 0] by (simp add: build_direct_3x3 [OF print_mesh_flat])

lemma tall_mesh_eq: "tall_mesh = direct_3x3 (Suc 0)"
  unfolding tall_mesh_def ZMesh_init_direct_3x3 [of "Suc 0"] by (simp add: build_direct_3x3 [OF print_mesh_tall])

lemma flat_installed_eq:
  "flat_installed = (BedMesh_init 5 1 10 None default_splitter)
      \<lparr>log_fade_complete := True, fade_target := 11 / 100, z_mesh := Some flat_mesh,
       splitter := initialize default_splitter (Some flat_mesh) (11 / 100)\<rparr>"
  unfolding flat_installed_def
  by (simp add: set_mesh_def flat_mesh_eq get_z_average_flat get_z_range_flat Let_def set_mesh_install_def BedMesh_init_def FADE_DISABLE_def)

lemma get_z_range_average:
  assumes "get_z_range zm h = Inr r"
  shows "\<exists>avg. get_z_average zm h = Inr avg"
proof (cases "mesh_matrix zm")
  case None
  then show ?thesis by (simp add: get_z_average_def)
next
  case (Some a)
  let ?rows = "cells h a"
  from assms Some obtain mins where m: "emap py_min ?rows = Inr mins" and mm: "mins \<noteq> []"
    by (auto simp: get_z_range_def ebind_def py_min_def split: sum.splits list.splits)
  have e: "emap py_min rows = Inr ms \<Longrightarrow> length ms = length rows \<and> (\<forall>r \<in> set rows. r \<noteq> [])" for rows ms
    by (induction rows arbitrary: ms) (auto simp: py_min_def split: sum.splits list.splits)
  from e [OF m] mm have ne: "?rows \<noteq> []" and all: "\<forall>r \<in> set ?rows. r \<noteq> []" by auto
  then obtain r0 rest where rr: "?rows = r0 # rest" by (cases ?rows) auto
  with all have "0 < length r0" by simp
  then have "sum_list (map length ?rows) \<noteq> 0" by (simp add: rr)
  then have "(of_nat (sum_list (map length ?rows)) :: real) \<noteq> 0" by (simp only: of_nat_eq_0_iff not_False_eq_True)
  then show ?thesis unfolding get_z_average_def Some option.case ebind_def py_truediv_def by simp
qed

text \<open>
  Claim C2, amended. When fading is enabled and the new mesh fails the validation (a
  configured \<^verbatim>\<open>fade_target\<close> that is not zero lies outside the range of the mesh, or the
  fade distance is not larger than the largest absolute height of the mesh),
  \<^verbatim>\<open>set_mesh\<close> raises an error and the new mesh is not installed. The state it leaves is
  not the prior one: \<^verbatim>\<open>z_mesh\<close> is \<^verbatim>\<open>None\<close> (no mesh is active, whatever was active
  before), \<^verbatim>\<open>fade_target\<close> is 0.0 and \<^verbatim>\<open>log_fade_complete\<close> is set; every other field,
  the splitter's mesh among them, is as before.
\<close>

theorem set_mesh_rejected:
  assumes en: "fade_end s \<noteq> FADE_DISABLE"
    and rng: "get_z_range zm h = Inr (min_z, max_z)"
    and bad: "(\<exists>t. base_fade_target s = Some t \<and> \<not> (min_z \<le> t \<and> t \<le> max_z) \<and> t \<noteq> 0) \<or>
              fade_dist s \<le> max \<bar>min_z\<bar> \<bar>max_z\<bar>"
  shows "set_mesh s h (Some zm)
           = Inl (GcodeError, s\<lparr>log_fade_complete := True, z_mesh := None, fade_target := 0\<rparr>)"
proof (cases "base_fade_target s")
  case None
  from get_z_range_average [OF rng] obtain avg where avg: "get_z_average zm h = Inr avg" ..
  from bad None have "fade_dist s \<le> max \<bar>min_z\<bar> \<bar>max_z\<bar>" by simp
  then show ?thesis
    by (simp add: set_mesh_def en None avg rng Let_def)
next
  case (Some t)
  show ?thesis
  proof (cases "\<not> (min_z \<le> t \<and> t \<le> max_z) \<and> t \<noteq> 0")
    case True
    then show ?thesis by (simp add: set_mesh_def en Some rng Let_def)
  next
    case False
    with bad Some have "fade_dist s \<le> max \<bar>min_z\<bar> \<bar>max_z\<bar>" by auto
    with False show ?thesis by (simp add: set_mesh_def en Some rng Let_def)
  qed
qed

text \<open>
  Claim C2 as stated fails: the two error branches of \<^verbatim>\<open>set_mesh\<close> assign
  \<^verbatim>\<open>self.z_mesh = None\<close> before they raise. With \<open>flat_mesh\<close> active and a fade band from
  1 to 10, installing \<open>tall_mesh\<close> (height 10, fade distance 9) is rejected and leaves no
  mesh active.
\<close>

theorem set_mesh_clears_counterexample:
  "z_mesh flat_installed = Some flat_mesh \<and>
   set_mesh flat_installed example_store (Some tall_mesh)
     = Inl (GcodeError, flat_installed\<lparr>log_fade_complete := True, z_mesh := None, fade_target := 0\<rparr>) \<and>
   z_mesh (flat_installed\<lparr>log_fade_complete := True, z_mesh := None, fade_target := 0\<rparr>) = None"
  unfolding flat_installed_eq
  by (simp add: set_mesh_def tall_mesh_eq get_z_average_tall get_z_range_tall Let_def BedMesh_init_def FADE_DISABLE_def)

text \<open>The amended claim at that rejected installation.\<close>

theorem set_mesh_rejected_witness:
  "fade_end flat_installed \<noteq> FADE_DISABLE \<and>
   get_z_range tall_mesh example_store = Inr (10, 10) \<and>
   fade_dist flat_installed \<le> max \<bar>10\<bar> \<bar>10\<bar> \<and>
   set_mesh flat_installed example_store (Some tall_mesh)
     = Inl (GcodeError, flat_installed\<lparr>log_fade_complete := True, z_mesh := None, fade_target := 0\<rparr>)"
proof -
  have en: "fade_end flat_installed \<noteq> FADE_DISABLE"
    by (simp add: flat_installed_eq BedMesh_init_def FADE_DISABLE_def Let_def)
  have rng: "get_z_range tall_mesh example_store = Inr (10, 10)"
    by (simp add: tall_mesh_eq get_z_range_tall)
  have fd: "fade_dist flat_installed \<le> max \<bar>10\<bar> \<bar>10\<bar>"
    by (simp add: flat_installed_eq BedMesh_init_def Let_def)
  from set_mesh_rejected [OF en rng disjI2, OF fd] en rng fd show ?thesis by simp
qed

subsection \<open>Splitting a move\<close>

lemma py_index_nonneg:
  "0 \<le> i \<Longrightarrow> i < int (length xs) \<Longrightarrow> py_index xs i = Inr (xs ! nat i)"
  by (simp add: py_index_def)

lemma py_setitem_nonneg:
  "0 \<le> i \<Longrightarrow> i < int (length xs) \<Longrightarrow> py_setitem xs i v = Inr (xs[nat i := v])"
  by (simp add: py_setitem_def)

lemma mat_get_nonneg:
  assumes "0 \<le> y" "y < int (length mat)" "0 \<le> x" "x < int (length (mat ! nat y))"
  shows "mat_get mat y x = Inr (mat ! nat y ! nat x)"
  using assms by (simp add: mat_get_def ebind_def py_index_nonneg)

lemma constrain_bounds:
  fixes lo :: "'a::linorder"
  assumes "lo \<le> hi"
  shows "lo \<le> constrain v lo hi" "constrain v lo hi \<le> hi"
  using assms by (auto simp: constrain_def)

lemma get_linear_index_ok:
  assumes "(if axis = 0 then mesh_x_dist m else mesh_y_dist m) \<noteq> 0"
    and "2 \<le> (if axis = 0 then mesh_x_count m else mesh_y_count m)"
  shows "\<exists>t idx. get_linear_index m c axis = Inr (t, idx) \<and> 0 \<le> idx \<and>
           idx + 2 \<le> (if axis = 0 then mesh_x_count m else mesh_y_count m) \<and> 0 \<le> t \<and> t \<le> 1"
proof -
  let ?cnt = "if axis = 0 then mesh_x_count m else mesh_y_count m"
  let ?d = "if axis = 0 then mesh_x_dist m else mesh_y_dist m"
  let ?mn = "if axis = 0 then mesh_x_min m else mesh_y_min m"
  let ?cf = "if axis = 0 then get_x_coordinate m else get_y_coordinate m"
  let ?idx = "constrain \<lfloor>(c - ?mn) / ?d\<rfloor> 0 (?cnt - 2)"
  let ?t = "constrain ((c - ?cf ?idx) / ?d) 0 (1::real)"
  have le: "0 \<le> ?cnt - 2" using assms(2) by simp
  have g: "get_linear_index m c axis = Inr (?t, ?idx)"
    using assms(1) by (simp add: get_linear_index_def Let_def ebind_def py_truediv_def)
  have i: "0 \<le> ?idx" "?idx \<le> ?cnt - 2" using constrain_bounds [OF le] by blast+
  have t: "0 \<le> ?t" "?t \<le> 1" using constrain_bounds [of "0::real" 1] by simp_all
  from g i t show ?thesis by (intro exI [of _ ?t] exI [of _ ?idx]) simp
qed

lemma calc_z_total:
  assumes "mesh_ok m h"
  shows "\<exists>z. calc_z m h x y = Inr z"
proof (cases "mesh_matrix m")
  case None
  then show ?thesis by (simp add: calc_z_def)
next
  case (Some a)
  let ?tbl = "cells h a"
  from assms Some have d: "mesh_x_dist m \<noteq> 0" "mesh_y_dist m \<noteq> 0"
    and c: "2 \<le> mesh_x_count m" "2 \<le> mesh_y_count m"
    and ly: "int (length ?tbl) = mesh_y_count m"
    and lx: "\<forall>row \<in> set ?tbl. int (length row) = mesh_x_count m"
    by (simp_all add: mesh_ok_def list_all_iff)
  from get_linear_index_ok [of 0 m "x + fst (mesh_offsets m)"] d c
  obtain tx xi where gx: "get_linear_index m (x + fst (mesh_offsets m)) 0 = Inr (tx, xi)"
    and xi: "0 \<le> xi" "xi + 2 \<le> mesh_x_count m" by auto
  from get_linear_index_ok [of 1 m "y + snd (mesh_offsets m)"] d c
  obtain ty yi where gy: "get_linear_index m (y + snd (mesh_offsets m)) 1 = Inr (ty, yi)"
    and yi: "0 \<le> yi" "yi + 2 \<le> mesh_y_count m" by auto
  have rd: "mat_get ?tbl r k = Inr (?tbl ! nat r ! nat k)"
    if "0 \<le> r" "r < mesh_y_count m" "0 \<le> k" "k < mesh_x_count m" for r k
  proof -
    have "nat r < length ?tbl" using that ly by simp
    then have "?tbl ! nat r \<in> set ?tbl" by simp
    with lx have "int (length (?tbl ! nat r)) = mesh_x_count m" by blast
    with that ly show ?thesis by (intro mat_get_nonneg) simp_all
  qed
  have r00: "mat_get ?tbl yi xi = Inr (?tbl ! nat yi ! nat xi)" using xi yi by (intro rd) simp_all
  have r01: "mat_get ?tbl yi (xi + 1) = Inr (?tbl ! nat yi ! nat (xi + 1))"
    using xi yi by (intro rd) simp_all
  have r10: "mat_get ?tbl (yi + 1) xi = Inr (?tbl ! nat (yi + 1) ! nat xi)"
    using xi yi by (intro rd) simp_all
  have r11: "mat_get ?tbl (yi + 1) (xi + 1) = Inr (?tbl ! nat (yi + 1) ! nat (xi + 1))"
    using xi yi by (intro rd) simp_all
  show ?thesis
    by (simp add: calc_z_def Some Let_def ebind_def gx gy r00 r01 r10 r11 del: One_nat_def)
qed

lemma efold_inv_total:
  assumes "\<And>x st. x \<in> set xs \<Longrightarrow> I st \<Longrightarrow> \<exists>st'. f x st = Inr st' \<and> I st'" and "I s"
  shows "\<exists>s'. efold f xs s = Inr s' \<and> I s'"
  using assms
proof (induction xs arbitrary: s)
  case Nil
  then show ?case by simp
next
  case (Cons x xs)
  from Cons.prems(1) [of x s] Cons.prems(2) obtain s1 where s1: "f x s = Inr s1" "I s1" by auto
  from Cons.IH [of s1] Cons.prems(1) s1(2) obtain s' where "efold f xs s1 = Inr s'" "I s'"
    by auto
  with s1 show ?case by simp
qed

lemma calc_z_offset_total:
  assumes "case ms_z_mesh s of None \<Rightarrow> False | Some m \<Rightarrow> mesh_ok m h" and "2 \<le> length pos"
  shows "\<exists>zo. calc_z_offset s h pos = Inr zo"
proof -
  from assms(1) obtain m where m: "ms_z_mesh s = Some m" "mesh_ok m h"
    by (cases "ms_z_mesh s") auto
  from calc_z_total [OF m(2)] obtain z where z: "calc_z m h (pos ! 0) (pos ! 1) = Inr z" by blast
  have p: "py_index pos 0 = Inr (pos ! 0)" "py_index pos 1 = Inr (pos ! 1)"
    using assms(2) by (auto simp: py_index_def)
  show ?thesis
    unfolding calc_z_offset_def m option.case p ebind_def sum.case z by blast
qed

lemma calc_z_offset_cong:
  assumes "ms_z_mesh s = ms_z_mesh s'" "z_factor s = z_factor s'" "fade_offset s = fade_offset s'"
  shows "calc_z_offset s h pos = calc_z_offset s' h pos"
  using assms by (simp add: calc_z_offset_def split: option.splits)

lemma set_next_move_total:
  assumes "0 < total_move_length s" "0 \<le> d" "d \<le> total_move_length s"
    and "length (axis_move s) = length (next_pos s)"
    and "length (next_pos s) \<le> length (prev_pos s)"
    and "length (next_pos s) \<le> length (current_pos s)"
  shows "\<exists>cur. set_next_move s d = Inr (s\<lparr>current_pos := cur\<rparr>) \<and>
               length cur = length (current_pos s)"
proof -
  let ?t = "d / total_move_length s"
  let ?f = "\<lambda>i cur.
            ebind (py_index (axis_move s) i) (\<lambda>moving.
              if moving then
                ebind (py_index (prev_pos s) i) (\<lambda>p. ebind (py_index (next_pos s) i) (\<lambda>n.
                  py_setitem cur i (lerp ?t p n)))
              else Inr cur)"
  have t: "\<not> (1 < ?t \<or> ?t < 0)" using assms(1-3) by (simp add: divide_simps)
  have step: "\<exists>st'. ?f i st = Inr st' \<and> length st' = length (current_pos s)"
    if "i \<in> set (py_range (int (length (next_pos s))))" "length st = length (current_pos s)" for i st
  proof -
    from that(1) have i: "0 \<le> i" "i < int (length (next_pos s))" by (auto simp: py_range_def)
    with assms(4-6) that(2) have
      "py_index (axis_move s) i = Inr (axis_move s ! nat i)"
      "py_index (prev_pos s) i = Inr (prev_pos s ! nat i)"
      "py_index (next_pos s) i = Inr (next_pos s ! nat i)"
      "py_setitem st i v = Inr (st[nat i := v])" for v
      by (simp_all add: py_index_nonneg py_setitem_nonneg)
    with that(2) show ?thesis by (simp add: ebind_def)
  qed
  from efold_inv_total [of "py_range (int (length (next_pos s)))"
      "\<lambda>st. length st = length (current_pos s)" ?f "current_pos s", OF step]
  obtain cur where "efold ?f (py_range (int (length (next_pos s)))) (current_pos s) = Inr cur"
    "length cur = length (current_pos s)" by auto
  with t assms(1) show ?thesis
    by (intro exI [of _ cur]) (simp add: set_next_move_def py_truediv_def ebind_def)
qed

lemma split_loop_stop:
  assumes "\<not> distance_checked s + move_check_distance s < total_move_length s"
  shows "split_loop s h = Some (Inr (None, s))"
  by (subst split_loop.simps) (simp add: assms)

lemma split_loop_emit:
  assumes "distance_checked s + move_check_distance s < total_move_length s"
    and "set_next_move (s\<lparr>distance_checked := distance_checked s + move_check_distance s\<rparr>)
           (distance_checked s + move_check_distance s) = Inr s2"
    and "calc_z_offset s2 h (current_pos s2) = Inr next_z"
    and "split_delta_z s2 \<le> \<bar>next_z - z_offset s2\<bar>"
    and "3 \<le> length (current_pos s2)"
  shows "split_loop s h
           = Some (Inr (Some ((current_pos s2)[2 := current_pos s2 ! 2 + next_z]),
                        s2\<lparr>z_offset := next_z\<rparr>))"
  using assms by (subst split_loop.simps) (simp add: py_index_def py_setitem_def)

lemma split_loop_skip:
  assumes "distance_checked s + move_check_distance s < total_move_length s"
    and "set_next_move (s\<lparr>distance_checked := distance_checked s + move_check_distance s\<rparr>)
           (distance_checked s + move_check_distance s) = Inr s2"
    and "calc_z_offset s2 h (current_pos s2) = Inr next_z"
    and "\<bar>next_z - z_offset s2\<bar> < split_delta_z s2"
  shows "split_loop s h = split_loop s2 h"
  using assms by (subst split_loop.simps) simp

lemma split_loop_result:
  assumes "move_ready s h"
    and "total_move_length s - distance_checked s \<le> of_nat n * move_check_distance s"
  shows "\<exists>out d' c' z' j.
           split_loop s h
             = Some (Inr (out, s\<lparr>distance_checked := d', current_pos := c', z_offset := z'\<rparr>)) \<and>
           length c' = length (current_pos s) \<and>
           d' = distance_checked s + of_nat j * move_check_distance s \<and>
           (j = 0 \<or> d' < total_move_length s) \<and>
           (case out of
              Some p \<Rightarrow> 1 \<le> j \<and> d' < total_move_length s \<and>
                        split_delta_z s \<le> \<bar>z' - z_offset s\<bar> \<and>
                        calc_z_offset s h c' = Inr z' \<and> p = c'[2 := c' ! 2 + z']
            | None \<Rightarrow> z' = z_offset s \<and>
                      \<not> d' + move_check_distance s < total_move_length s)"
  using assms
proof (induction n arbitrary: s)
  case 0
  then have stop: "\<not> distance_checked s + move_check_distance s < total_move_length s"
    by (simp add: move_ready_def)
  have "split_loop s h = Some (Inr (None, s\<lparr>distance_checked := distance_checked s,
            current_pos := current_pos s, z_offset := z_offset s\<rparr>))"
    by (simp add: split_loop_stop [OF stop])
  with stop show ?case
    by (intro exI [of _ None] exI [of _ "distance_checked s"] exI [of _ "current_pos s"]
          exI [of _ "z_offset s"] exI [of _ 0]) simp
next
  case (Suc n)
  let ?mcd = "move_check_distance s" and ?dc = "distance_checked s"
  from Suc.prems(1) have rdy: "0 < ?mcd" "0 \<le> ?dc" "3 \<le> length (next_pos s)"
    "length (next_pos s) \<le> length (prev_pos s)" "length (axis_move s) = length (next_pos s)"
    "length (next_pos s) \<le> length (current_pos s)"
    "case ms_z_mesh s of None \<Rightarrow> False | Some m \<Rightarrow> mesh_ok m h"
    by (simp_all add: move_ready_def)
  show ?case
  proof (cases "?dc + ?mcd < total_move_length s")
    case False
    have "split_loop s h = Some (Inr (None, s\<lparr>distance_checked := ?dc,
            current_pos := current_pos s, z_offset := z_offset s\<rparr>))"
      by (simp add: split_loop_stop [OF False])
    with False show ?thesis
      by (intro exI [of _ None] exI [of _ ?dc] exI [of _ "current_pos s"]
            exI [of _ "z_offset s"] exI [of _ 0]) simp
  next
    case True
    let ?s1 = "s\<lparr>distance_checked := ?dc + ?mcd\<rparr>"
    from set_next_move_total [of ?s1 "?dc + ?mcd"] True rdy
    obtain cur where snm: "set_next_move ?s1 (?dc + ?mcd) = Inr (?s1\<lparr>current_pos := cur\<rparr>)"
      and lcur: "length cur = length (current_pos s)" by auto
    let ?s2 = "?s1\<lparr>current_pos := cur\<rparr>"
    from calc_z_offset_total [where s = ?s2 and h = h and pos = cur] rdy lcur
    obtain next_z where nz: "calc_z_offset ?s2 h cur = Inr next_z" by auto
    have nz': "calc_z_offset ?s2 h (current_pos ?s2) = Inr next_z" using nz by simp
    have cz: "calc_z_offset s h cur = Inr next_z"
      using nz calc_z_offset_cong [of s ?s2 h cur] by simp
    show ?thesis
    proof (cases "split_delta_z s \<le> \<bar>next_z - z_offset s\<bar>")
      case emit: True
      have l3: "3 \<le> length (current_pos ?s2)" using rdy lcur by simp
      have "split_loop s h
           = Some (Inr (Some ((current_pos ?s2)[2 := current_pos ?s2 ! 2 + next_z]),
                        ?s2\<lparr>z_offset := next_z\<rparr>))"
        using emit by (intro split_loop_emit [OF True snm nz' _ l3]) simp
      then have "split_loop s h
           = Some (Inr (Some (cur[2 := cur ! 2 + next_z]),
                        s\<lparr>distance_checked := ?dc + ?mcd, current_pos := cur, z_offset := next_z\<rparr>))"
        by simp
      with True emit cz lcur show ?thesis
        by (intro exI [of _ "Some (cur[2 := cur ! 2 + next_z])"] exI [of _ "?dc + ?mcd"]
              exI [of _ cur] exI [of _ next_z] exI [of _ 1]) simp
    next
      case skip: False
      have sk: "split_loop s h = split_loop ?s2 h"
        using skip by (intro split_loop_skip [OF True snm nz']) simp
      have rdy2: "move_ready ?s2 h"
        using Suc.prems(1) lcur by (simp add: move_ready_def)
      have fuel2: "total_move_length ?s2 - distance_checked ?s2 \<le> of_nat n * move_check_distance ?s2"
        using Suc.prems(2) by (simp add: algebra_simps)
      from Suc.IH [OF rdy2 fuel2] obtain out d' c' z' j where
        r: "split_loop ?s2 h
             = Some (Inr (out, ?s2\<lparr>distance_checked := d', current_pos := c', z_offset := z'\<rparr>))"
        and l: "length c' = length (current_pos ?s2)"
        and d: "d' = distance_checked ?s2 + of_nat j * move_check_distance ?s2"
        and jd: "j = 0 \<or> d' < total_move_length ?s2"
        and o: "case out of
              Some p \<Rightarrow> 1 \<le> j \<and> d' < total_move_length ?s2 \<and>
                        split_delta_z ?s2 \<le> \<bar>z' - z_offset ?s2\<bar> \<and>
                        calc_z_offset ?s2 h c' = Inr z' \<and> p = c'[2 := c' ! 2 + z']
            | None \<Rightarrow> z' = z_offset ?s2 \<and>
                      \<not> d' + move_check_distance ?s2 < total_move_length ?s2"
        by blast
      have r': "split_loop s h
             = Some (Inr (out, s\<lparr>distance_checked := d', current_pos := c', z_offset := z'\<rparr>))"
        using sk r by simp
      have d2: "d' = ?dc + of_nat (Suc j) * ?mcd" using d by (simp add: algebra_simps)
      have o': "case out of
              Some p \<Rightarrow> 1 \<le> Suc j \<and> d' < total_move_length s \<and>
                        split_delta_z s \<le> \<bar>z' - z_offset s\<bar> \<and>
                        calc_z_offset s h c' = Inr z' \<and> p = c'[2 := c' ! 2 + z']
            | None \<Rightarrow> z' = z_offset s \<and> \<not> d' + ?mcd < total_move_length s"
        using o calc_z_offset_cong [of s ?s2 h c'] by (cases out) simp_all
      have jd': "d' < total_move_length s" using jd d True by auto
      from r' l lcur d2 o' jd' show ?thesis
        by (intro exI [of _ out] exI [of _ d'] exI [of _ c'] exI [of _ z'] exI [of _ "Suc j"]) simp
    qed
  qed
qed

lemma same_move_refl [simp]: "same_move s s"
  by (simp add: same_move_def)

lemma same_move_trans: "same_move a b \<Longrightarrow> same_move b c \<Longrightarrow> same_move a c"
  by (simp add: same_move_def)


lemma split_end_result:
  assumes "move_ready s h"
  shows "\<exists>zo. calc_z_offset s h (next_pos s) = Inr zo \<and>
           split_end s h
             = Inr (Some ((next_pos s)[2 := next_pos s ! 2 + zo]),
                    s\<lparr>current_pos := (next_pos s)[2 := next_pos s ! 2 + zo], z_offset := zo,
                      traverse_complete := True\<rparr>)"
proof -
  from assms have m: "case ms_z_mesh s of None \<Rightarrow> False | Some m \<Rightarrow> mesh_ok m h"
    and l: "3 \<le> length (next_pos s)" by (simp_all add: move_ready_def)
  from calc_z_offset_total [where s = s and h = h and pos = "next_pos s"] m l
  obtain zo where zo: "calc_z_offset s h (next_pos s) = Inr zo" by auto
  have zo': "calc_z_offset (s\<lparr>current_pos := next_pos s\<rparr>) h (next_pos s) = Inr zo"
    using zo calc_z_offset_cong [of s "s\<lparr>current_pos := next_pos s\<rparr>" h "next_pos s"] by simp
  show ?thesis
    using l zo zo' by (simp add: split_end_def Let_def ebind_def py_index_def py_setitem_def)
qed

lemma fuel_exists:
  fixes total dc mcd :: real
  assumes "0 < mcd"
  shows "\<exists>n::nat. total - dc \<le> of_nat n * mcd"
proof -
  obtain n :: nat where "(total - dc) / mcd \<le> of_nat n" using real_arch_simple by blast
  then have "total - dc \<le> of_nat n * mcd" using assms by (simp add: pos_divide_le_eq)
  then show ?thesis ..
qed

text \<open>One call from a state of a traversal that is not complete.\<close>

lemma split_result:
  assumes rdy: "move_ready s h" and nc: "\<not> traverse_complete s"
  shows "\<exists>p s' j. split s h = Some (Inr (Some p, s')) \<and> same_move s s' \<and> advanced s s' j \<and>
           (if traverse_complete s'
            then (\<exists>zo. calc_z_offset s h (next_pos s) = Inr zo \<and>
                       p = (next_pos s)[2 := next_pos s ! 2 + zo]) \<and>
                 (axis_move s ! 0 \<or> axis_move s ! 1 \<longrightarrow>
                    \<not> distance_checked s' + move_check_distance s < total_move_length s)
            else move_ready s' h \<and> 1 \<le> j \<and>
                 split_delta_z s \<le> \<bar>z_offset s' - z_offset s\<bar> \<and>
                 calc_z_offset s' h (current_pos s') = Inr (z_offset s') \<and>
                 p = (current_pos s')[2 := current_pos s' ! 2 + z_offset s'])"
proof -
  from rdy have l: "length (axis_move s) = length (next_pos s)" "3 \<le> length (next_pos s)"
    and mcd: "0 < move_check_distance s"
    by (simp_all add: move_ready_def)
  have a0: "py_index (axis_move s) 0 = Inr (axis_move s ! 0)"
    and a1: "py_index (axis_move s) 1 = Inr (axis_move s ! 1)"
    using l by (auto simp: py_index_def)
  show ?thesis
  proof (cases "axis_move s ! 0 \<or> axis_move s ! 1")
    case False
    from split_end_result [OF rdy] obtain zo where zo: "calc_z_offset s h (next_pos s) = Inr zo"
      and e: "split_end s h
             = Inr (Some ((next_pos s)[2 := next_pos s ! 2 + zo]),
                    s\<lparr>current_pos := (next_pos s)[2 := next_pos s ! 2 + zo], z_offset := zo,
                      traverse_complete := True\<rparr>)" by blast
    have "split s h = Some (split_end s h)"
      using False nc by (simp add: split_def a0 a1)
    with e zo False show ?thesis
      by (intro exI [of _ "(next_pos s)[2 := next_pos s ! 2 + zo]"]
            exI [of _ "s\<lparr>current_pos := (next_pos s)[2 := next_pos s ! 2 + zo], z_offset := zo,
                      traverse_complete := True\<rparr>"] exI [of _ 0])
         (simp add: same_move_def advanced_def)
  next
    case True
    then have xy: "(if axis_move s ! 0 then Inr True else py_index (axis_move s) 1) = Inr True"
      by (auto simp: a1)
    from fuel_exists [OF mcd] obtain n :: nat where
      "total_move_length s - distance_checked s \<le> of_nat n * move_check_distance s" by blast
    from split_loop_result [OF rdy this] obtain out d' c' z' j where
      sl: "split_loop s h
             = Some (Inr (out, s\<lparr>distance_checked := d', current_pos := c', z_offset := z'\<rparr>))"
      and lc: "length c' = length (current_pos s)"
      and d: "d' = distance_checked s + of_nat j * move_check_distance s"
      and jd: "j = 0 \<or> d' < total_move_length s"
      and o: "case out of
              Some p \<Rightarrow> 1 \<le> j \<and> d' < total_move_length s \<and>
                        split_delta_z s \<le> \<bar>z' - z_offset s\<bar> \<and>
                        calc_z_offset s h c' = Inr z' \<and> p = c'[2 := c' ! 2 + z']
            | None \<Rightarrow> z' = z_offset s \<and>
                      \<not> d' + move_check_distance s < total_move_length s"
      by blast
    let ?s' = "s\<lparr>distance_checked := d', current_pos := c', z_offset := z'\<rparr>"
    have rdy': "move_ready ?s' h"
      using rdy lc d mcd by (simp add: move_ready_def)
    show ?thesis
    proof (cases out)
      case (Some p)
      with o have oj: "1 \<le> j" "split_delta_z s \<le> \<bar>z' - z_offset s\<bar>"
        "calc_z_offset s h c' = Inr z'" "p = c'[2 := c' ! 2 + z']" by simp_all
      have cz: "calc_z_offset ?s' h c' = Inr z'"
        using oj(3) calc_z_offset_cong [of s ?s' h c'] by simp
      have "split s h = Some (Inr (Some p, ?s'))"
        using nc sl Some by (simp add: split_def a0 xy)
      with rdy' oj cz d jd nc show ?thesis
        by (intro exI [of _ p] exI [of _ ?s'] exI [of _ j]) (simp add: same_move_def advanced_def)
    next
      case None
      from split_end_result [OF rdy'] obtain zo where
        zo: "calc_z_offset ?s' h (next_pos ?s') = Inr zo"
        and e: "split_end ?s' h
             = Inr (Some ((next_pos ?s')[2 := next_pos ?s' ! 2 + zo]),
                    ?s'\<lparr>current_pos := (next_pos ?s')[2 := next_pos ?s' ! 2 + zo], z_offset := zo,
                      traverse_complete := True\<rparr>)" by blast
      have zo0: "calc_z_offset s h (next_pos s) = Inr zo"
        using zo calc_z_offset_cong [of s ?s' h "next_pos s"] by simp
      have sp: "split s h = Some (split_end ?s' h)"
        using nc sl None by (simp add: split_def a0 xy)
      from o None have stop: "\<not> d' + move_check_distance s < total_move_length s" by simp
      from sp stop e zo0 d jd show ?thesis
        by (intro exI [of _ "(next_pos s)[2 := next_pos s ! 2 + zo]"]
            exI [of _ "?s'\<lparr>current_pos := (next_pos ?s')[2 := next_pos ?s' ! 2 + zo], z_offset := zo,
                      traverse_complete := True\<rparr>"] exI [of _ j])
           (simp add: same_move_def advanced_def)
    qed
  qed
qed

lemma advanced_one_step:
  assumes "advanced b a j" "1 \<le> j" "0 < move_check_distance b"
  shows "distance_checked b + move_check_distance b \<le> distance_checked a"
    and "distance_checked a < total_move_length b"
proof -
  have "(1::real) \<le> of_nat j" using assms(2) by simp
  then have "1 * move_check_distance b \<le> of_nat j * move_check_distance b"
    using assms(3) by (intro mult_right_mono) simp_all
  with assms(1) show "distance_checked b + move_check_distance b \<le> distance_checked a"
    by (simp add: advanced_def)
  from assms(1,2) show "distance_checked a < total_move_length b"
    by (auto simp: advanced_def)
qed

lemma split_trace_result:
  assumes "move_ready s h" and "\<not> traverse_complete s"
    and "total_move_length s - distance_checked s \<le> of_nat n * move_check_distance s"
  shows "\<exists>pre b zo a.
           split_trace (Suc (length pre)) s h
             = Some (Inr (pre @ [(b, Some ((next_pos s)[2 := next_pos s ! 2 + zo]), a)])) \<and>
           calc_z_offset s h (next_pos s) = Inr zo \<and>
           traverse_complete a \<and> same_move s b \<and> same_move s a \<and> \<not> traverse_complete b \<and>
           0 \<le> distance_checked b \<and> (\<exists>j. advanced b a j) \<and>
           (axis_move s ! 0 \<or> axis_move s ! 1 \<longrightarrow>
              \<not> distance_checked a + move_check_distance s < total_move_length s) \<and>
           (\<forall>c \<in> set pre. intermediate_call h c \<and> same_move s (fst c) \<and>
                            \<not> traverse_complete (fst c) \<and> 0 \<le> distance_checked (fst c) \<and>
                            (\<exists>j. 1 \<le> j \<and> advanced (fst c) (snd (snd c)) j)) \<and>
           (pre = [] \<or>
            distance_checked s + of_nat (length pre) * move_check_distance s < total_move_length s)"
  using assms
proof (induction n arbitrary: s)
  case 0
  from 0(1) have mcd: "0 < move_check_distance s" and dc: "0 \<le> distance_checked s"
    by (simp_all add: move_ready_def)
  from split_result [OF 0(1,2)] obtain p s' j where
    sp: "split s h = Some (Inr (Some p, s'))" and sm: "same_move s s'" and adv: "advanced s s' j"
    and r: "if traverse_complete s'
            then (\<exists>zo. calc_z_offset s h (next_pos s) = Inr zo \<and>
                       p = (next_pos s)[2 := next_pos s ! 2 + zo]) \<and>
                 (axis_move s ! 0 \<or> axis_move s ! 1 \<longrightarrow>
                    \<not> distance_checked s' + move_check_distance s < total_move_length s)
            else move_ready s' h \<and> 1 \<le> j \<and>
                 split_delta_z s \<le> \<bar>z_offset s' - z_offset s\<bar> \<and>
                 calc_z_offset s' h (current_pos s') = Inr (z_offset s') \<and>
                 p = (current_pos s')[2 := current_pos s' ! 2 + z_offset s']" by blast
  have tc: "traverse_complete s'"
  proof (rule ccontr)
    assume "\<not> traverse_complete s'"
    with r have "1 \<le> j" by simp
    from advanced_one_step [OF adv this mcd] 0(3) mcd show False by simp
  qed
  with r obtain zo where zo: "calc_z_offset s h (next_pos s) = Inr zo"
    "p = (next_pos s)[2 := next_pos s ! 2 + zo]" by auto
  from r tc have stop: "axis_move s ! 0 \<or> axis_move s ! 1 \<longrightarrow>
              \<not> distance_checked s' + move_check_distance s < total_move_length s" by simp
  have "split_trace (Suc (length [])) s h
          = Some (Inr ([] @ [(s, Some ((next_pos s)[2 := next_pos s ! 2 + zo]), s')]))"
    using sp zo by simp
  with zo tc sm adv 0(2) dc stop show ?case
    by (intro exI [of _ "[]"] exI [of _ s] exI [of _ zo] exI [of _ s']) auto
next
  case (Suc n)
  from Suc.prems(1) have mcd: "0 < move_check_distance s" and dc: "0 \<le> distance_checked s"
    by (simp_all add: move_ready_def)
  from split_result [OF Suc.prems(1,2)] obtain p s' j where
    sp: "split s h = Some (Inr (Some p, s'))" and sm: "same_move s s'" and adv: "advanced s s' j"
    and r: "if traverse_complete s'
            then (\<exists>zo. calc_z_offset s h (next_pos s) = Inr zo \<and>
                       p = (next_pos s)[2 := next_pos s ! 2 + zo]) \<and>
                 (axis_move s ! 0 \<or> axis_move s ! 1 \<longrightarrow>
                    \<not> distance_checked s' + move_check_distance s < total_move_length s)
            else move_ready s' h \<and> 1 \<le> j \<and>
                 split_delta_z s \<le> \<bar>z_offset s' - z_offset s\<bar> \<and>
                 calc_z_offset s' h (current_pos s') = Inr (z_offset s') \<and>
                 p = (current_pos s')[2 := current_pos s' ! 2 + z_offset s']" by blast
  show ?case
  proof (cases "traverse_complete s'")
    case True
    with r obtain zo where zo: "calc_z_offset s h (next_pos s) = Inr zo"
      "p = (next_pos s)[2 := next_pos s ! 2 + zo]" by auto
    from r True have stop: "axis_move s ! 0 \<or> axis_move s ! 1 \<longrightarrow>
              \<not> distance_checked s' + move_check_distance s < total_move_length s" by simp
    have "split_trace (Suc (length [])) s h
          = Some (Inr ([] @ [(s, Some ((next_pos s)[2 := next_pos s ! 2 + zo]), s')]))"
      using sp zo by simp
    with zo True sm adv Suc.prems(2) dc stop show ?thesis
      by (intro exI [of _ "[]"] exI [of _ s] exI [of _ zo] exI [of _ s']) auto
  next
    case False
    with r have rdy': "move_ready s' h" and j1: "1 \<le> j"
      and dz: "split_delta_z s \<le> \<bar>z_offset s' - z_offset s\<bar>"
      and cz: "calc_z_offset s' h (current_pos s') = Inr (z_offset s')"
      and pe: "p = (current_pos s')[2 := current_pos s' ! 2 + z_offset s']" by simp_all
    note one = advanced_one_step [OF adv j1 mcd]
    have eqs: "move_check_distance s' = move_check_distance s"
      "total_move_length s' = total_move_length s" "next_pos s' = next_pos s"
      "axis_move s' = axis_move s"
      using sm by (simp_all add: same_move_def)
    have fuel: "total_move_length s' - distance_checked s' \<le> of_nat n * move_check_distance s'"
      using Suc.prems(3) one(1) by (simp add: eqs algebra_simps)
    from Suc.IH [OF rdy' False fuel] obtain pre b zo a where
      tr: "split_trace (Suc (length pre)) s' h
             = Some (Inr (pre @ [(b, Some ((next_pos s')[2 := next_pos s' ! 2 + zo]), a)]))"
      and zo: "calc_z_offset s' h (next_pos s') = Inr zo"
      and fin: "traverse_complete a" "same_move s' b" "same_move s' a" "\<not> traverse_complete b"
        "0 \<le> distance_checked b" "\<exists>j. advanced b a j"
      and stop: "axis_move s' ! 0 \<or> axis_move s' ! 1 \<longrightarrow>
              \<not> distance_checked a + move_check_distance s' < total_move_length s'"
      and mid: "\<forall>c \<in> set pre. intermediate_call h c \<and> same_move s' (fst c) \<and>
                            \<not> traverse_complete (fst c) \<and> 0 \<le> distance_checked (fst c) \<and>
                            (\<exists>j. 1 \<le> j \<and> advanced (fst c) (snd (snd c)) j)"
      and bd: "pre = [] \<or>
            distance_checked s' + of_nat (length pre) * move_check_distance s' < total_move_length s'"
      by blast
    let ?c = "(s, Some p, s')"
    have zo0: "calc_z_offset s h (next_pos s) = Inr zo"
      using zo calc_z_offset_cong [of s s' h "next_pos s"] sm by (simp add: same_move_def)
    have tr0: "split_trace (Suc (length (?c # pre))) s h
             = Some (Inr ((?c # pre) @ [(b, Some ((next_pos s)[2 := next_pos s ! 2 + zo]), a)]))"
      using sp tr by (simp add: eqs)
    have ic: "intermediate_call h ?c"
      using False sm one dz cz pe by (simp add: intermediate_call_def)
    have mid0: "\<forall>c \<in> set (?c # pre). intermediate_call h c \<and> same_move s (fst c) \<and>
                            \<not> traverse_complete (fst c) \<and> 0 \<le> distance_checked (fst c) \<and>
                            (\<exists>j. 1 \<le> j \<and> advanced (fst c) (snd (snd c)) j)"
      using ic mid sm adv j1 Suc.prems(2) dc by (auto intro: same_move_trans)
    have stop0: "axis_move s ! 0 \<or> axis_move s ! 1 \<longrightarrow>
              \<not> distance_checked a + move_check_distance s < total_move_length s"
      using stop by (simp add: eqs)
    have bd0: "distance_checked s + of_nat (length (?c # pre)) * move_check_distance s
                 < total_move_length s"
    proof (cases "pre = []")
      case True
      with one show ?thesis by simp
    next
      case False
      with bd have "distance_checked s' + of_nat (length pre) * move_check_distance s
                      < total_move_length s" by (simp add: eqs)
      with one(1) show ?thesis by (simp add: algebra_simps)
    qed
    from tr0 zo0 fin mid0 bd0 sm stop0 show ?thesis
      by (intro exI [of _ "?c # pre"] exI [of _ b] exI [of _ zo] exI [of _ a])
         (auto intro: same_move_trans)
  qed
qed

lemma split_complete: "traverse_complete s \<Longrightarrow> split s h = Some (Inr (None, s))"
  by (simp add: split_def)

lemma split_trace_complete:
  "traverse_complete s \<Longrightarrow> split_trace n s h = Some (Inr (replicate n (s, None, s)))"
  by (induction n) (simp_all add: split_complete)

lemma split_trace_chained:
  "split_trace k s h = Some (Inr tr) \<Longrightarrow>
     length tr = k \<and> chained s tr \<and> (\<forall>c \<in> set tr. split (fst c) h = Some (Inr (snd c)))"
proof (induction k arbitrary: s tr)
  case 0
  then show ?case by simp
next
  case (Suc k)
  from Suc.prems obtain out s' tr' where sp: "split s h = Some (Inr (out, s'))"
    and tr': "split_trace k s' h = Some (Inr tr')" and tr: "tr = (s, out, s') # tr'"
    by (auto split: option.splits sum.splits)
  from Suc.IH [OF tr'] sp tr show ?case by simp
qed

lemma build_move_ready:
  assumes "ms_z_mesh sp = Some m" "mesh_ok m h" "0 < move_check_distance sp"
    and "3 \<le> length nxt" "length nxt \<le> length prev"
  shows "\<exists>s0. build_move sp h prev nxt factor = Inr s0"
    and "build_move sp h prev nxt factor = Inr s0 \<Longrightarrow>
           move_ready s0 h \<and> \<not> traverse_complete s0 \<and> distance_checked s0 = 0 \<and>
           next_pos s0 = nxt \<and> prev_pos s0 = prev \<and> current_pos s0 = prev \<and>
           move_check_distance s0 = move_check_distance sp \<and>
           split_delta_z s0 = split_delta_z sp \<and> 0 \<le> total_move_length s0 \<and>
           calc_z_offset s0 h prev = Inr (z_offset s0)"
proof -
  let ?s1 = "sp\<lparr>prev_pos := prev, next_pos := nxt, current_pos := prev, z_factor := factor\<rparr>"
  from calc_z_offset_total [where s = ?s1 and h = h and pos = prev] assms
  obtain zo where zo: "calc_z_offset ?s1 h prev = Inr zo" by auto
  then show "\<exists>s0. build_move sp h prev nxt factor = Inr s0"
    by (simp add: build_move_def Let_def ebind_def)
  assume b: "build_move sp h prev nxt factor = Inr s0"
  let ?axes = "map (\<lambda>(np, pp). np - pp) (zip nxt prev)"
  from b zo have s0: "s0 = ?s1\<lparr>z_offset := zo, traverse_complete := False, distance_checked := 0,
                    total_move_length := sqrt (sum_list (map (\<lambda>d. d * d) (take 3 ?axes))),
                    axis_move := map (\<lambda>d. \<not> isclose d 0 rel_tol_default (1 / 10 ^ 10)) ?axes\<rparr>"
    by (simp add: build_move_def Let_def ebind_def)
  have nn: "0 \<le> sum_list (map (\<lambda>d. d * d) xs)" for xs :: "real list"
    by (induction xs) simp_all
  have cz: "calc_z_offset s0 h prev = Inr zo"
    using zo calc_z_offset_cong [of s0 ?s1 h prev] by (simp add: s0)
  show "move_ready s0 h \<and> \<not> traverse_complete s0 \<and> distance_checked s0 = 0 \<and>
           next_pos s0 = nxt \<and> prev_pos s0 = prev \<and> current_pos s0 = prev \<and>
           move_check_distance s0 = move_check_distance sp \<and>
           split_delta_z s0 = split_delta_z sp \<and> 0 \<le> total_move_length s0 \<and>
           calc_z_offset s0 h prev = Inr (z_offset s0)"
    using assms cz nn by (simp add: s0 move_ready_def)
qed

text \<open>
  Claim C5. For a move built by \<^verbatim>\<open>build_move(prev_pos, next_pos, factor)\<close> on a
  well-shaped mesh, with a positive check distance and positions of at least three
  coordinates, the successive calls of \<^verbatim>\<open>split()\<close> return finitely many sub-moves; the
  last one is \<^verbatim>\<open>next_pos\<close> with the offset computed at \<^verbatim>\<open>next_pos\<close> added to Z; it is
  returned by the call that sets \<^verbatim>\<open>traverse_complete\<close> (no earlier call does), when a
  move with an X or Y component has no further checkpoint before its end; and every
  call after that returns \<^verbatim>\<open>None\<close> and changes nothing.
\<close>

theorem split_reaches_next_pos:
  assumes "ms_z_mesh sp = Some m" and "mesh_ok m h" and "0 < move_check_distance sp"
    and "3 \<le> length nxt" and "length nxt \<le> length prev"
    and "build_move sp h prev nxt factor = Inr s0"
  shows "\<exists>pre b zo a.
           split_trace (Suc (length pre)) s0 h
             = Some (Inr (pre @ [(b, Some (nxt[2 := nxt ! 2 + zo]), a)])) \<and>
           chained s0 (pre @ [(b, Some (nxt[2 := nxt ! 2 + zo]), a)]) \<and>
           calc_z_offset s0 h nxt = Inr zo \<and>
           (\<forall>c \<in> set pre. fst (snd c) \<noteq> None \<and> \<not> traverse_complete (fst c) \<and>
                            \<not> traverse_complete (snd (snd c))) \<and>
           \<not> traverse_complete b \<and> traverse_complete a \<and>
           (axis_move s0 ! 0 \<or> axis_move s0 ! 1 \<longrightarrow>
              \<not> distance_checked a + move_check_distance s0 < total_move_length s0) \<and>
           (\<forall>n. split_trace n a h = Some (Inr (replicate n (a, None, a))))"
proof -
  note r = build_move_ready(2) [OF assms(1-5) assms(6)]
  from r have rdy: "move_ready s0 h" and nc: "\<not> traverse_complete s0" and nx: "next_pos s0 = nxt"
    by simp_all
  from rdy have mcd: "0 < move_check_distance s0" by (simp add: move_ready_def)
  from fuel_exists [OF mcd] obtain n :: nat where
    "total_move_length s0 - distance_checked s0 \<le> of_nat n * move_check_distance s0" by blast
  from split_trace_result [OF rdy nc this] obtain pre b zo a where
    tr: "split_trace (Suc (length pre)) s0 h
             = Some (Inr (pre @ [(b, Some ((next_pos s0)[2 := next_pos s0 ! 2 + zo]), a)]))"
    and zo: "calc_z_offset s0 h (next_pos s0) = Inr zo"
    and fin: "traverse_complete a" "\<not> traverse_complete b"
    and stop: "axis_move s0 ! 0 \<or> axis_move s0 ! 1 \<longrightarrow>
              \<not> distance_checked a + move_check_distance s0 < total_move_length s0"
    and mid: "\<forall>c \<in> set pre. intermediate_call h c \<and> same_move s0 (fst c) \<and>
                            \<not> traverse_complete (fst c) \<and> 0 \<le> distance_checked (fst c) \<and>
                            (\<exists>j. 1 \<le> j \<and> advanced (fst c) (snd (snd c)) j)"
    by blast
  have ch: "chained s0 (pre @ [(b, Some (nxt[2 := nxt ! 2 + zo]), a)])"
    using split_trace_chained [OF tr] by (simp add: nx)
  have m: "\<forall>c \<in> set pre. fst (snd c) \<noteq> None \<and> \<not> traverse_complete (fst c) \<and>
                            \<not> traverse_complete (snd (snd c))"
    using mid by (auto simp: intermediate_call_def)
  have after: "\<forall>n. split_trace n a h = Some (Inr (replicate n (a, None, a)))"
    using split_trace_complete [OF fin(1)] by blast
  from tr zo ch m fin stop after show ?thesis
    unfolding nx by blast
qed

text \<open>
  Claim C6. In the traversal of a built move, every call but the last one (every
  intermediate sub-move) leaves a Z-offset that differs by at least \<^verbatim>\<open>split_delta_z\<close>
  from the one it found, which is the offset of the previous sub-move, or for the first
  call the offset \<^verbatim>\<open>build_move\<close> computed at \<^verbatim>\<open>prev_pos\<close>; that offset is the one
  computed at the point returned, and it is added to the Z of that point. A checkpoint
  whose offset differs by less from the last one is passed without a return: the loop
  goes on from it with the last offset unchanged.
\<close>

theorem split_emits_on_delta_z:
  assumes "ms_z_mesh sp = Some m" and "mesh_ok m h" and "0 < move_check_distance sp"
    and "3 \<le> length nxt" and "length nxt \<le> length prev"
    and "build_move sp h prev nxt factor = Inr s0"
  shows "(\<exists>pre fin.
            split_trace (Suc (length pre)) s0 h = Some (Inr (pre @ [fin])) \<and>
            chained s0 (pre @ [fin]) \<and> traverse_complete (snd (snd fin)) \<and>
            calc_z_offset s0 h prev = Inr (z_offset s0) \<and>
            (\<forall>c \<in> set pre.
               \<not> traverse_complete (snd (snd c)) \<and>
               split_delta_z sp \<le> \<bar>z_offset (snd (snd c)) - z_offset (fst c)\<bar> \<and>
               calc_z_offset (snd (snd c)) h (current_pos (snd (snd c)))
                 = Inr (z_offset (snd (snd c))) \<and>
               fst (snd c) = Some ((current_pos (snd (snd c)))
                   [2 := current_pos (snd (snd c)) ! 2 + z_offset (snd (snd c))]) \<and>
               distance_checked (fst c) + move_check_distance sp \<le> distance_checked (snd (snd c)) \<and>
               distance_checked (snd (snd c)) < total_move_length s0)) \<and>
         (\<forall>s s2 z.
            distance_checked s + move_check_distance s < total_move_length s \<and>
            set_next_move (s\<lparr>distance_checked := distance_checked s + move_check_distance s\<rparr>)
              (distance_checked s + move_check_distance s) = Inr s2 \<and>
            calc_z_offset s2 h (current_pos s2) = Inr z \<and>
            \<bar>z - z_offset s2\<bar> < split_delta_z s2
            \<longrightarrow> split_loop s h = split_loop s2 h \<and> z_offset s2 = z_offset s \<and>
                distance_checked s2 = distance_checked s + move_check_distance s)"
proof (intro conjI allI impI)
  note r = build_move_ready(2) [OF assms(1-5) assms(6)]
  from r have rdy: "move_ready s0 h" and nc: "\<not> traverse_complete s0"
    and cz0: "calc_z_offset s0 h prev = Inr (z_offset s0)"
    and cfg: "move_check_distance s0 = move_check_distance sp" "split_delta_z s0 = split_delta_z sp"
    by simp_all
  from rdy have mcd: "0 < move_check_distance s0" by (simp add: move_ready_def)
  from fuel_exists [OF mcd] obtain n :: nat where
    "total_move_length s0 - distance_checked s0 \<le> of_nat n * move_check_distance s0" by blast
  from split_trace_result [OF rdy nc this] obtain pre b zo a where
    tr: "split_trace (Suc (length pre)) s0 h
             = Some (Inr (pre @ [(b, Some ((next_pos s0)[2 := next_pos s0 ! 2 + zo]), a)]))"
    and fin: "traverse_complete a"
    and mid: "\<forall>c \<in> set pre. intermediate_call h c \<and> same_move s0 (fst c) \<and>
                            \<not> traverse_complete (fst c) \<and> 0 \<le> distance_checked (fst c) \<and>
                            (\<exists>j. 1 \<le> j \<and> advanced (fst c) (snd (snd c)) j)"
    by blast
  let ?fin = "(b, Some ((next_pos s0)[2 := next_pos s0 ! 2 + zo]), a)"
  have ch: "chained s0 (pre @ [?fin])" using split_trace_chained [OF tr] by simp
  have m: "\<forall>c \<in> set pre.
               \<not> traverse_complete (snd (snd c)) \<and>
               split_delta_z sp \<le> \<bar>z_offset (snd (snd c)) - z_offset (fst c)\<bar> \<and>
               calc_z_offset (snd (snd c)) h (current_pos (snd (snd c)))
                 = Inr (z_offset (snd (snd c))) \<and>
               fst (snd c) = Some ((current_pos (snd (snd c)))
                   [2 := current_pos (snd (snd c)) ! 2 + z_offset (snd (snd c))]) \<and>
               distance_checked (fst c) + move_check_distance sp \<le> distance_checked (snd (snd c)) \<and>
               distance_checked (snd (snd c)) < total_move_length s0"
  proof
    fix c assume c: "c \<in> set pre"
    obtain cb co ca where ce: "c = (cb, co, ca)" by (cases c)
    from mid c ce have "intermediate_call h (cb, co, ca)" "same_move s0 cb" by auto
    then show "\<not> traverse_complete (snd (snd c)) \<and>
               split_delta_z sp \<le> \<bar>z_offset (snd (snd c)) - z_offset (fst c)\<bar> \<and>
               calc_z_offset (snd (snd c)) h (current_pos (snd (snd c)))
                 = Inr (z_offset (snd (snd c))) \<and>
               fst (snd c) = Some ((current_pos (snd (snd c)))
                   [2 := current_pos (snd (snd c)) ! 2 + z_offset (snd (snd c))]) \<and>
               distance_checked (fst c) + move_check_distance sp \<le> distance_checked (snd (snd c)) \<and>
               distance_checked (snd (snd c)) < total_move_length s0"
      using cfg by (simp add: ce intermediate_call_def same_move_def)
  qed
  from tr ch fin cz0 m
  show "\<exists>pre fin.
            split_trace (Suc (length pre)) s0 h = Some (Inr (pre @ [fin])) \<and>
            chained s0 (pre @ [fin]) \<and> traverse_complete (snd (snd fin)) \<and>
            calc_z_offset s0 h prev = Inr (z_offset s0) \<and>
            (\<forall>c \<in> set pre.
               \<not> traverse_complete (snd (snd c)) \<and>
               split_delta_z sp \<le> \<bar>z_offset (snd (snd c)) - z_offset (fst c)\<bar> \<and>
               calc_z_offset (snd (snd c)) h (current_pos (snd (snd c)))
                 = Inr (z_offset (snd (snd c))) \<and>
               fst (snd c) = Some ((current_pos (snd (snd c)))
                   [2 := current_pos (snd (snd c)) ! 2 + z_offset (snd (snd c))]) \<and>
               distance_checked (fst c) + move_check_distance sp \<le> distance_checked (snd (snd c)) \<and>
               distance_checked (snd (snd c)) < total_move_length s0)"
    by (intro exI [of _ pre] exI [of _ ?fin]) simp
next
  fix s s2 z
  assume a: "distance_checked s + move_check_distance s < total_move_length s \<and>
            set_next_move (s\<lparr>distance_checked := distance_checked s + move_check_distance s\<rparr>)
              (distance_checked s + move_check_distance s) = Inr s2 \<and>
            calc_z_offset s2 h (current_pos s2) = Inr z \<and>
            \<bar>z - z_offset s2\<bar> < split_delta_z s2"
  then show "split_loop s h = split_loop s2 h" by (intro split_loop_skip) blast+
  from a have "\<exists>cur. s2 = s\<lparr>distance_checked := distance_checked s + move_check_distance s,
                            current_pos := cur\<rparr>"
    by (auto simp: set_next_move_def ebind_def py_truediv_def split: sum.splits if_splits)
  then show "z_offset s2 = z_offset s"
    and "distance_checked s2 = distance_checked s + move_check_distance s" by auto
qed


lemma print_mesh_slope: "print_mesh (direct_3x3 0) slope_store = Inr ()"
  by (simp add: print_mesh_def get_z_average_def get_z_range_def ebind_def get_mesh_matrix_def
        direct_3x3_def slope_store_def py_range_def upt_0_3 py_index_def py_min_def py_max_def
        py_truediv_def)

lemma slope_mesh_eq: "slope_mesh = direct_3x3 0"
  unfolding slope_mesh_def ZMesh_init_direct_3x3 [of 0] by (simp add: build_direct_3x3 [OF print_mesh_slope])

lemma mesh_ok_slope: "mesh_ok slope_mesh slope_store"
  by (simp add: slope_mesh_eq mesh_ok_def direct_3x3_def slope_store_def)

lemma calc_z_slope:
  assumes "0 \<le> x" "x < 100"
  shows "calc_z (direct_3x3 0) slope_store x 0 = Inr (x / 100)"
proof -
  have f: "\<lfloor>x / 100\<rfloor> = 0" using assms by (simp add: floor_eq_iff)
  have gx: "get_linear_index (direct_3x3 0) (x + 0) 0 = Inr (x / 100, 0)"
    using assms by (simp add: get_linear_index_def direct_3x3_def Let_def ebind_def py_truediv_def f
        constrain_def get_x_coordinate_def)
  have gy: "get_linear_index (direct_3x3 0) (0 + 0) 1 = Inr (0, 0)"
    by (simp add: get_linear_index_def direct_3x3_def Let_def ebind_def py_truediv_def
        constrain_def get_y_coordinate_def)
  have mo: "mesh_offsets (direct_3x3 0) = (0, 0)" "mesh_matrix (direct_3x3 0) = Some 0"
    by (simp_all add: direct_3x3_def)
  show ?thesis
    unfolding calc_z_def mo option.case fst_conv snd_conv Let_def gx gy
    by (simp add: ebind_def mat_get_def py_index_def slope_store_def lerp_def)
qed

lemma default_splitter_eq:
  "default_splitter = \<lparr>split_delta_z = 25 / 1000, move_check_distance = 5,
                ms_z_mesh = None, fade_offset = 0,
                prev_pos = [], next_pos = [], current_pos = [], z_factor = 0, z_offset = 0,
                traverse_complete = False, distance_checked = 0, total_move_length = 0,
                axis_move = []\<rparr>"
  by (simp add: default_splitter_def MoveSplitter_init_def)

lemma calc_z_offset_slope:
  assumes "ms_z_mesh s = Some (direct_3x3 0)" "z_factor s = 1" "fade_offset s = 0"
    and "0 \<le> x" "x < 100"
  shows "calc_z_offset s slope_store [x, 0, z, e] = Inr (x / 100)"
  using assms by (simp add: calc_z_offset_def ebind_def py_index_def calc_z_slope)

lemma sqrt_144: "sqrt 144 = 12"
proof -
  have "sqrt ((12::real)\<^sup>2) = 12" by simp
  then show ?thesis by simp
qed

lemma example_move_eq: "example_move = example_state 0 [0, 0, 0, 0] 0 False"
proof -
  have i: "isclose 0 0 rel_tol_default (1 / 10 ^ 10)" "\<not> isclose 12 0 rel_tol_default (1 / 10 ^ 10)"
    by (simp_all add: isclose_def rel_tol_default_def)
  show ?thesis
    unfolding example_move_def example_splitter_def default_splitter_eq
    by (simp add: build_move_def initialize_def Let_def ebind_def calc_z_offset_slope slope_mesh_eq
          sqrt_144 example_state_def isclose_def rel_tol_default_def)
qed

lemma upt_0_4: "[0..<4] = [0, 1, 2, 3]" by (simp add: upt_rec)

lemma set_next_move_example:
  assumes "0 \<le> d" "d \<le> 12"
  shows "set_next_move (example_state d [c, 0, 0, 0] zo False) d
           = Inr (example_state d [d, 0, 0, 0] zo False)"
  using assms
  by (simp add: set_next_move_def example_state_def py_truediv_def ebind_def py_range_def upt_0_4
        py_index_def py_setitem_def lerp_def)

lemma example_state_advance:
  "(example_state d cur zo tc)\<lparr>distance_checked := d'\<rparr> = example_state d' cur zo tc"
  "(example_state d cur zo tc)\<lparr>z_offset := zo'\<rparr> = example_state d cur zo' tc"
  by (simp_all add: example_state_def)

lemma example_state_sel:
  "distance_checked (example_state d cur zo tc) = d"
  "move_check_distance (example_state d cur zo tc) = 5"
  "total_move_length (example_state d cur zo tc) = 12"
  "current_pos (example_state d cur zo tc) = cur"
  "z_offset (example_state d cur zo tc) = zo"
  "split_delta_z (example_state d cur zo tc) = 25 / 1000"
  "traverse_complete (example_state d cur zo tc) = tc"
  "axis_move (example_state d cur zo tc) = [True, False, False, False]"
  "next_pos (example_state d cur zo tc) = [12, 0, 0, 0]"
  "ms_z_mesh (example_state d cur zo tc) = Some (direct_3x3 0)"
  "z_factor (example_state d cur zo tc) = 1"
  "fade_offset (example_state d cur zo tc) = 0"
  by (simp_all add: example_state_def slope_mesh_eq)

lemma split_loop_example:
  assumes "0 \<le> d" "d + 5 < 12" "zo + 25 / 1000 \<le> (d + 5) / 100"
  shows "split_loop (example_state d [c, 0, 0, 0] zo False) slope_store
           = Some (Inr (Some [d + 5, 0, (d + 5) / 100, 0],
                        example_state (d + 5) [d + 5, 0, 0, 0] ((d + 5) / 100) False))"
proof -
  let ?s = "example_state d [c, 0, 0, 0] zo False"
  let ?s2 = "example_state (d + 5) [d + 5, 0, 0, 0] zo False"
  have c: "distance_checked ?s + move_check_distance ?s < total_move_length ?s"
    using assms by (simp add: example_state_sel)
  have n: "set_next_move (?s\<lparr>distance_checked := distance_checked ?s + move_check_distance ?s\<rparr>)
           (distance_checked ?s + move_check_distance ?s) = Inr ?s2"
    using assms by (simp add: example_state_sel example_state_advance set_next_move_example)
  have z: "calc_z_offset ?s2 slope_store (current_pos ?s2) = Inr ((d + 5) / 100)"
    using assms by (simp add: example_state_sel calc_z_offset_slope)
  have "(25 / 1000 :: real) \<le> \<bar>(d + 5) / 100 - zo\<bar>" using assms(3) by linarith
  then have dz: "split_delta_z ?s2 \<le> \<bar>(d + 5) / 100 - z_offset ?s2\<bar>"
    by (simp only: example_state_sel)
  have l: "3 \<le> length (current_pos ?s2)" by (simp add: example_state_sel)
  show ?thesis
    unfolding split_loop_emit [OF c n z dz l]
    by (simp add: example_state_sel example_state_advance)
qed

lemma split_example_emit:
  assumes "0 \<le> d" "d + 5 < 12" "zo + 25 / 1000 \<le> (d + 5) / 100"
  shows "split (example_state d [c, 0, 0, 0] zo False) slope_store
           = Some (Inr (Some [d + 5, 0, (d + 5) / 100, 0],
                        example_state (d + 5) [d + 5, 0, 0, 0] ((d + 5) / 100) False))"
  by (simp add: split_def example_state_sel py_index_def split_loop_example [OF assms])

lemma split_example_end:
  assumes "\<not> d + 5 < 12"
  shows "split (example_state d cur zo False) slope_store
           = Some (Inr (Some [12, 0, 12 / 100, 0],
                        example_state d [12, 0, 12 / 100, 0] (12 / 100) True))"
proof -
  let ?s = "example_state d cur zo False"
  have stop: "split_loop ?s slope_store = Some (Inr (None, ?s))"
    using assms by (intro split_loop_stop) (simp add: example_state_sel)
  have z: "calc_z_offset (?s\<lparr>current_pos := [12, 0, 0, 0]\<rparr>) slope_store [12, 0, 0, 0] = Inr (12 / 100)"
    by (intro calc_z_offset_slope) (simp_all add: example_state_def slope_mesh_eq)
  have e: "split_end ?s slope_store
             = Inr (Some [12, 0, 12 / 100, 0], example_state d [12, 0, 12 / 100, 0] (12 / 100) True)"
    unfolding split_end_def Let_def example_state_sel
    by (simp add: z ebind_def py_index_def py_setitem_def) (simp add: example_state_def)
  show ?thesis
    by (simp add: split_def example_state_sel py_index_def stop e)
qed

lemma split_trace_example:
  "split_trace 3 example_move slope_store
     = Some (Inr [(example_state 0 [0, 0, 0, 0] 0 False, Some [5, 0, 1 / 20, 0],
                   example_state 5 [5, 0, 0, 0] (1 / 20) False),
                  (example_state 5 [5, 0, 0, 0] (1 / 20) False, Some [10, 0, 1 / 10, 0],
                   example_state 10 [10, 0, 0, 0] (1 / 10) False),
                  (example_state 10 [10, 0, 0, 0] (1 / 10) False, Some [12, 0, 3 / 25, 0],
                   example_state 10 [12, 0, 3 / 25, 0] (3 / 25) True)])"
proof -
  have s1: "split (example_state 0 [0, 0, 0, 0] 0 False) slope_store
      = Some (Inr (Some [5, 0, 1 / 20, 0], example_state 5 [5, 0, 0, 0] (1 / 20) False))"
    using split_example_emit [of 0 0 0] by simp
  have s2: "split (example_state 5 [5, 0, 0, 0] (1 / 20) False) slope_store
      = Some (Inr (Some [10, 0, 1 / 10, 0], example_state 10 [10, 0, 0, 0] (1 / 10) False))"
    using split_example_emit [of 5 "1 / 20" 5] by simp
  have s3: "split (example_state 10 [10, 0, 0, 0] (1 / 10) False) slope_store
      = Some (Inr (Some [12, 0, 3 / 25, 0], example_state 10 [12, 0, 3 / 25, 0] (3 / 25) True))"
    using split_example_end [of 10] by simp
  have three: "(3::nat) = Suc (Suc (Suc 0))" by simp
  show ?thesis
    unfolding three example_move_eq by (simp add: s1 s2 s3)
qed

lemma example_hyps:
  "ms_z_mesh example_splitter = Some slope_mesh"
  "mesh_ok slope_mesh slope_store"
  "0 < move_check_distance example_splitter"
  "3 \<le> length [12, 0, 0, 0 :: real]"
  "length [12, 0, 0, 0 :: real] \<le> length [0, 0, 0, 0 :: real]"
  "build_move example_splitter slope_store [0, 0, 0, 0] [12, 0, 0, 0] 1 = Inr example_move"
proof -
  show 1: "ms_z_mesh example_splitter = Some slope_mesh"
    and 3: "0 < move_check_distance example_splitter"
    by (simp_all add: example_splitter_def initialize_def default_splitter_eq)
  show 2: "mesh_ok slope_mesh slope_store" by (rule mesh_ok_slope)
  show 4: "3 \<le> length [12, 0, 0, 0 :: real]"
    and 5: "length [12, 0, 0, 0 :: real] \<le> length [0, 0, 0, 0 :: real]" by simp_all
  from build_move_ready(1) [OF 1 2 3 4 5, of 1]
  show "build_move example_splitter slope_store [0, 0, 0, 0] [12, 0, 0, 0] 1 = Inr example_move"
    unfolding example_move_def by auto
qed

text \<open>Claim C5 at the example move: three sub-moves, the last one (12, 0, 0.12).\<close>

theorem split_reaches_next_pos_witness:
  "mesh_ok slope_mesh slope_store \<and>
   build_move example_splitter slope_store [0, 0, 0, 0] [12, 0, 0, 0] 1 = Inr example_move \<and>
   split_trace 3 example_move slope_store
     = Some (Inr [(example_state 0 [0, 0, 0, 0] 0 False, Some [5, 0, 1 / 20, 0],
                   example_state 5 [5, 0, 0, 0] (1 / 20) False),
                  (example_state 5 [5, 0, 0, 0] (1 / 20) False, Some [10, 0, 1 / 10, 0],
                   example_state 10 [10, 0, 0, 0] (1 / 10) False),
                  (example_state 10 [10, 0, 0, 0] (1 / 10) False, Some [12, 0, 3 / 25, 0],
                   example_state 10 [12, 0, 3 / 25, 0] (3 / 25) True)]) \<and>
   (\<exists>pre b zo a.
      split_trace (Suc (length pre)) example_move slope_store
        = Some (Inr (pre @ [(b, Some ([12, 0, 0, 0][2 := [12, 0, 0, 0] ! 2 + zo]), a)])) \<and>
      calc_z_offset example_move slope_store [12, 0, 0, 0] = Inr zo \<and> traverse_complete a \<and>
      split_trace 2 a slope_store = Some (Inr [(a, None, a), (a, None, a)]))"
proof -
  from split_reaches_next_pos [OF example_hyps] obtain pre b zo a where
    "split_trace (Suc (length pre)) example_move slope_store
        = Some (Inr (pre @ [(b, Some ([12, 0, 0, 0][2 := [12, 0, 0, 0] ! 2 + zo]), a)]))"
    "calc_z_offset example_move slope_store [12, 0, 0, 0] = Inr zo" "traverse_complete a"
    "\<forall>n. split_trace n a slope_store = Some (Inr (replicate n (a, None, a)))"
    by blast
  moreover from this(4) have "split_trace 2 a slope_store = Some (Inr (replicate 2 (a, None, a)))"
    by blast
  then have "split_trace 2 a slope_store = Some (Inr [(a, None, a), (a, None, a)])"
    by (simp add: numeral_2_eq_2)
  ultimately have "\<exists>pre b zo a.
      split_trace (Suc (length pre)) example_move slope_store
        = Some (Inr (pre @ [(b, Some ([12, 0, 0, 0][2 := [12, 0, 0, 0] ! 2 + zo]), a)])) \<and>
      calc_z_offset example_move slope_store [12, 0, 0, 0] = Inr zo \<and> traverse_complete a \<and>
      split_trace 2 a slope_store = Some (Inr [(a, None, a), (a, None, a)])"
    by blast
  with example_hyps(2,6) split_trace_example show ?thesis by blast
qed

text \<open>Claim C6 at the example move: the first call returns at distance 5 with offset
  0.05, which is 0.05 away from the start offset 0.\<close>

theorem split_emits_on_delta_z_witness:
  "mesh_ok slope_mesh slope_store \<and>
   build_move example_splitter slope_store [0, 0, 0, 0] [12, 0, 0, 0] 1 = Inr example_move \<and>
   z_offset example_move = 0 \<and> split_delta_z example_splitter = 25 / 1000 \<and>
   split example_move slope_store
     = Some (Inr (Some [5, 0, 1 / 20, 0], example_state 5 [5, 0, 0, 0] (1 / 20) False)) \<and>
   z_offset (example_state 5 [5, 0, 0, 0] (1 / 20) False) = 1 / 20 \<and>
   (\<exists>pre fin.
      split_trace (Suc (length pre)) example_move slope_store = Some (Inr (pre @ [fin])) \<and>
      chained example_move (pre @ [fin]) \<and> traverse_complete (snd (snd fin)) \<and>
      calc_z_offset example_move slope_store [0, 0, 0, 0] = Inr (z_offset example_move))"
proof -
  from split_emits_on_delta_z [OF example_hyps, THEN conjunct1]
  have "\<exists>pre fin.
      split_trace (Suc (length pre)) example_move slope_store = Some (Inr (pre @ [fin])) \<and>
      chained example_move (pre @ [fin]) \<and> traverse_complete (snd (snd fin)) \<and>
      calc_z_offset example_move slope_store [0, 0, 0, 0] = Inr (z_offset example_move)"
    by blast
  moreover have "split example_move slope_store
     = Some (Inr (Some [5, 0, 1 / 20, 0], example_state 5 [5, 0, 0, 0] (1 / 20) False))"
    unfolding example_move_eq using split_example_emit [of 0 0 0] by simp
  moreover have "z_offset example_move = 0" "split_delta_z example_splitter = 25 / 1000"
    "z_offset (example_state 5 [5, 0, 0, 0] (1 / 20) False) = 1 / 20"
    by (simp_all add: example_move_eq example_state_sel example_splitter_def initialize_def
          default_splitter_eq)
  ultimately show ?thesis using example_hyps(2,6) by blast
qed


subsection \<open>Exactness at the probed points\<close>

lemma get_linear_index_node:
  assumes d: "(if axis = 0 then mesh_x_dist m else mesh_y_dist m) \<noteq> 0"
    and c: "2 \<le> (if axis = 0 then mesh_x_count m else mesh_y_count m)"
    and k: "0 \<le> k" "k < (if axis = 0 then mesh_x_count m else mesh_y_count m)"
  shows "get_linear_index m ((if axis = 0 then get_x_coordinate m else get_y_coordinate m) k) axis
           = Inr (of_int (k - min k ((if axis = 0 then mesh_x_count m else mesh_y_count m) - 2)),
                  min k ((if axis = 0 then mesh_x_count m else mesh_y_count m) - 2))"
proof -
  let ?cnt = "if axis = 0 then mesh_x_count m else mesh_y_count m"
  let ?d = "if axis = 0 then mesh_x_dist m else mesh_y_dist m"
  let ?mn = "if axis = 0 then mesh_x_min m else mesh_y_min m"
  let ?cf = "if axis = 0 then get_x_coordinate m else get_y_coordinate m"
  have cf: "?cf n = ?mn + ?d * of_int n" for n
    by (simp add: get_x_coordinate_def get_y_coordinate_def)
  have q: "(?cf k - ?mn) / ?d = of_int k" using d by (simp add: cf)
  have idx: "constrain \<lfloor>(of_int k :: real)\<rfloor> 0 (?cnt - 2) = min k (?cnt - 2)"
    using k c by (simp add: constrain_def min_def max_def)
  have t: "(?cf k - ?cf (min k (?cnt - 2))) / ?d = of_int (k - min k (?cnt - 2))"
    using d by (simp add: cf right_diff_distrib [symmetric])
  have tb: "constrain (of_int (k - min k (?cnt - 2)) :: real) 0 1 = of_int (k - min k (?cnt - 2))"
    using k c by (auto simp: constrain_def min_def max_def)
  have "get_linear_index m (?cf k) axis =
      ebind (py_truediv (?cf k - ?mn) ?d) (\<lambda>q.
         let idx = constrain \<lfloor>q\<rfloor> 0 (?cnt - 2)
         in ebind (py_truediv (?cf k - ?cf idx) ?d) (\<lambda>t. Inr (constrain t 0 1, idx)))"
    by (simp add: get_linear_index_def Let_def)
  also have "\<dots> = Inr (of_int (k - min k (?cnt - 2)), min k (?cnt - 2))"
    using d by (simp only: py_truediv_def if_False ebind_def sum.case q idx Let_def t tb)
  finally show ?thesis .
qed

lemma lerp_node:
  assumes "0 \<le> k" "k < cnt" "2 \<le> cnt"
  shows "lerp (of_int (k - min k (cnt - 2))) (f (min k (cnt - 2))) (f (min k (cnt - 2) + 1)) = f k"
proof (cases "k \<le> cnt - 2")
  case True
  then show ?thesis by (simp add: lerp_def min_def)
next
  case False
  with assms have "k = cnt - 1" by simp
  then show ?thesis by (simp add: lerp_def min_def)
qed

lemma calc_z_node:
  assumes ok: "mesh_ok m h" and mm: "mesh_matrix m = Some a" and off: "mesh_offsets m = (0, 0)"
    and kx: "0 \<le> kx" "kx < mesh_x_count m" and ky: "0 \<le> ky" "ky < mesh_y_count m"
  shows "calc_z m h (get_x_coordinate m kx) (get_y_coordinate m ky)
           = Inr (cells h a ! nat ky ! nat kx)"
proof -
  let ?tbl = "cells h a"
  from ok mm have d: "mesh_x_dist m \<noteq> 0" "mesh_y_dist m \<noteq> 0"
    and c: "2 \<le> mesh_x_count m" "2 \<le> mesh_y_count m"
    and ly: "int (length ?tbl) = mesh_y_count m"
    and lx: "\<forall>row \<in> set ?tbl. int (length row) = mesh_x_count m"
    by (simp_all add: mesh_ok_def list_all_iff)
  let ?xi = "min kx (mesh_x_count m - 2)" and ?yi = "min ky (mesh_y_count m - 2)"
  have gx: "get_linear_index m (get_x_coordinate m kx + fst (mesh_offsets m)) 0
              = Inr (of_int (kx - ?xi), ?xi)"
    using get_linear_index_node [of 0 m kx] d c kx by (simp add: off)
  have gy: "get_linear_index m (get_y_coordinate m ky + snd (mesh_offsets m)) 1
              = Inr (of_int (ky - ?yi), ?yi)"
    using get_linear_index_node [of 1 m ky] d c ky by (simp add: off)
  have rd: "mat_get ?tbl r k = Inr (?tbl ! nat r ! nat k)"
    if "0 \<le> r" "r < mesh_y_count m" "0 \<le> k" "k < mesh_x_count m" for r k
  proof -
    have "nat r < length ?tbl" using that ly by simp
    then have "?tbl ! nat r \<in> set ?tbl" by simp
    with lx have "int (length (?tbl ! nat r)) = mesh_x_count m" by blast
    with that ly show ?thesis by (intro mat_get_nonneg) simp_all
  qed
  have xi: "0 \<le> ?xi" "?xi + 1 < mesh_x_count m" using kx c by simp_all
  have yi: "0 \<le> ?yi" "?yi + 1 < mesh_y_count m" using ky c by simp_all
  have r00: "mat_get ?tbl ?yi ?xi = Inr (?tbl ! nat ?yi ! nat ?xi)"
    using xi yi by (intro rd) simp_all
  have r01: "mat_get ?tbl ?yi (?xi + 1) = Inr (?tbl ! nat ?yi ! nat (?xi + 1))"
    using xi yi by (intro rd) simp_all
  have r10: "mat_get ?tbl (?yi + 1) ?xi = Inr (?tbl ! nat (?yi + 1) ! nat ?xi)"
    using xi yi by (intro rd) simp_all
  have r11: "mat_get ?tbl (?yi + 1) (?xi + 1) = Inr (?tbl ! nat (?yi + 1) ! nat (?xi + 1))"
    using xi yi by (intro rd) simp_all
  have lx0: "lerp (of_int (kx - ?xi)) (?tbl ! nat ?yi ! nat ?xi) (?tbl ! nat ?yi ! nat (?xi + 1))
               = ?tbl ! nat ?yi ! nat kx"
    using lerp_node [of kx "mesh_x_count m" "\<lambda>k. ?tbl ! nat ?yi ! nat k"] kx c by simp
  have lx1: "lerp (of_int (kx - ?xi)) (?tbl ! nat (?yi + 1) ! nat ?xi)
               (?tbl ! nat (?yi + 1) ! nat (?xi + 1)) = ?tbl ! nat (?yi + 1) ! nat kx"
    using lerp_node [of kx "mesh_x_count m" "\<lambda>k. ?tbl ! nat (?yi + 1) ! nat k"] kx c by simp
  have ly0: "lerp (of_int (ky - ?yi)) (?tbl ! nat ?yi ! nat kx) (?tbl ! nat (?yi + 1) ! nat kx)
               = ?tbl ! nat ky ! nat kx"
    using lerp_node [of ky "mesh_y_count m" "\<lambda>k. ?tbl ! nat k ! nat kx"] ky c by simp
  have "calc_z m h (get_x_coordinate m kx) (get_y_coordinate m ky)
          = Inr (lerp (of_int (ky - ?yi))
                   (lerp (of_int (kx - ?xi)) (?tbl ! nat ?yi ! nat ?xi) (?tbl ! nat ?yi ! nat (?xi + 1)))
                   (lerp (of_int (kx - ?xi)) (?tbl ! nat (?yi + 1) ! nat ?xi)
                      (?tbl ! nat (?yi + 1) ! nat (?xi + 1))))"
    unfolding calc_z_def mm option.case Let_def gx gy
    by (simp only: ebind_def sum.case prod.case r00 r01 r10 r11)
  then show ?thesis by (simp only: lx0 lx1 ly0)
qed

lemma in_py_range: "i \<in> set (py_range n) \<longleftrightarrow> 0 \<le> i \<and> i < n"
proof
  assume "i \<in> set (py_range n)"
  then show "0 \<le> i \<and> i < n" by (auto simp: py_range_def)
next
  assume a: "0 \<le> i \<and> i < n"
  then have "nat i < nat n" "int (nat i) = i" by simp_all
  then have "int (nat i) \<in> int ` {0..<nat n}" by (intro imageI) simp
  with a show "i \<in> set (py_range n)" by (simp add: py_range_def)
qed

lemma samples_kept_iff:
  "samples_kept m z mat \<longleftrightarrow>
     int (length mat) = mesh_y_count m \<and>
     (\<forall>row \<in> set mat. int (length row) = mesh_x_count m) \<and>
     (\<forall>i j. 0 \<le> i \<and> i < x_count (mesh_params m) \<and> 0 \<le> j \<and> j < y_count (mesh_params m) \<longrightarrow>
        mat ! nat (j * y_mult m) ! nat (i * x_mult m) = z ! nat j ! nat i)"
  unfolding samples_kept_def list_all_iff Ball_def in_py_range by blast

lemma emap_nth:
  "emap f xs = Inr ys \<Longrightarrow> length ys = length xs \<and> (\<forall>k < length xs. f (xs ! k) = Inr (ys ! k))"
proof (induction xs arbitrary: ys)
  case Nil
  then show ?case by simp
next
  case (Cons x xs)
  from Cons.prems obtain y ys' where y: "f x = Inr y" and ys': "emap f xs = Inr ys'"
    and e: "ys = y # ys'" by (auto split: sum.splits)
  from Cons.IH [OF ys'] y e show ?case by (auto simp: nth_Cons split: nat.splits)
qed

lemma efold_inv:
  assumes "efold f xs s = Inr s'" and "I s"
    and "\<And>x st st'. x \<in> set xs \<Longrightarrow> I st \<Longrightarrow> f x st = Inr st' \<Longrightarrow> I st'"
  shows "I s'"
  using assms
proof (induction xs arbitrary: s)
  case Nil
  then show ?case by simp
next
  case (Cons x xs)
  from Cons.prems(1) obtain s1 where s1: "f x s = Inr s1" and r: "efold f xs s1 = Inr s'"
    by (auto split: sum.splits)
  have "I s1" using Cons.prems(3) [of x s s1] Cons.prems(2) s1 by simp
  show ?case
  proof (rule Cons.IH [OF r \<open>I s1\<close>])
    fix y st st' assume "y \<in> set xs" "I st" "f y st = Inr st'"
    then show "I st'" using Cons.prems(3) [of y st st'] by simp
  qed
qed

lemma mat_set_nonneg:
  assumes "mat_set mat y x v = Inr mat'" "0 \<le> y" "0 \<le> x"
  shows "y < int (length mat) \<and> x < int (length (mat ! nat y)) \<and>
         mat' = mat[nat y := (mat ! nat y)[nat x := v]]"
proof -
  have yl: "y < int (length mat)"
  proof (rule ccontr)
    assume "\<not> y < int (length mat)"
    with assms(2) have "py_index mat y = Inl IndexError" by (simp add: py_index_def)
    with assms(1) show False by (simp add: mat_set_def ebind_def)
  qed
  then have r: "py_index mat y = Inr (mat ! nat y)" using assms(2) by (simp add: py_index_def)
  have xl: "x < int (length (mat ! nat y))"
  proof (rule ccontr)
    assume "\<not> x < int (length (mat ! nat y))"
    with assms(3) have "py_setitem (mat ! nat y) x v = Inl IndexError" by (simp add: py_setitem_def)
    with assms(1) r show False by (simp add: mat_set_def ebind_def)
  qed
  then have w: "py_setitem (mat ! nat y) x v = Inr ((mat ! nat y)[nat x := v])"
    using assms(3) by (simp add: py_setitem_def)
  have "py_setitem mat y ((mat ! nat y)[nat x := v]) = Inr (mat[nat y := (mat ! nat y)[nat x := v]])"
    using yl assms(2) by (simp add: py_setitem_def)
  with assms(1) r w have "mat' = mat[nat y := (mat ! nat y)[nat x := v]]"
    by (simp add: mat_set_def ebind_def)
  with yl xl show ?thesis by simp
qed

text \<open>A write at a place that is not a sample node keeps the shape and the samples.\<close>

lemma mat_set_keeps:
  assumes s: "mat_set mat y x v = Inr mat'" and k: "samples_kept m z mat"
    and yx: "0 \<le> y" "0 \<le> x" and off: "x mod x_mult m \<noteq> 0 \<or> y mod y_mult m \<noteq> 0"
    and mult: "0 < x_mult m" "0 < y_mult m"
  shows "samples_kept m z mat'"
proof -
  from mat_set_nonneg [OF s yx] have yl: "y < int (length mat)"
    and xl: "x < int (length (mat ! nat y))"
    and m': "mat' = mat[nat y := (mat ! nat y)[nat x := v]]"
    by simp_all
  note kk = samples_kept_iff [THEN iffD1, OF k]
  note k1 = kk [THEN conjunct1] and k2 = kk [THEN conjunct2, THEN conjunct1]
    and k3 = kk [THEN conjunct2, THEN conjunct2]
  have len: "int (length mat') = mesh_y_count m" using k1 m' by simp
  have rows: "\<forall>row \<in> set mat'. int (length row) = mesh_x_count m"
  proof
    fix row assume "row \<in> set mat'"
    moreover have "set mat' \<subseteq> insert ((mat ! nat y)[nat x := v]) (set mat)"
      unfolding m' by (rule set_update_subset_insert)
    ultimately have "row \<in> insert ((mat ! nat y)[nat x := v]) (set mat)" by (rule subsetD [rotated])
    then consider "row = (mat ! nat y)[nat x := v]" | "row \<in> set mat" by blast
    then show "int (length row) = mesh_x_count m"
    proof cases
      case 1
      have "mat ! nat y \<in> set mat" using yl yx by simp
      with k2 have "int (length (mat ! nat y)) = mesh_x_count m" by blast
      with 1 show ?thesis by simp
    next
      case 2
      with k2 show ?thesis by blast
    qed
  qed
  have vals: "mat' ! nat (j * y_mult m) ! nat (i * x_mult m) = z ! nat j ! nat i"
    if ij: "0 \<le> i" "i < x_count (mesh_params m)" "0 \<le> j" "j < y_count (mesh_params m)" for i j
  proof -
    have old: "mat ! nat (j * y_mult m) ! nat (i * x_mult m) = z ! nat j ! nat i"
      using k3 [rule_format, of i j] ij by simp
    have pj: "0 \<le> j * y_mult m" using ij(3) mult(2) by simp
    have pi: "0 \<le> i * x_mult m" using ij(1) mult(1) by simp
    have ne: "nat (j * y_mult m) \<noteq> nat y \<or> nat (i * x_mult m) \<noteq> nat x"
    proof (rule ccontr)
      assume "\<not> ?thesis"
      then have e: "nat (j * y_mult m) = nat y" "nat (i * x_mult m) = nat x" by simp_all
      have ey: "j * y_mult m = y" using e(1) eq_nat_nat_iff [OF pj yx(1)] by blast
      have ex: "i * x_mult m = x" using e(2) eq_nat_nat_iff [OF pi yx(2)] by blast
      have "(j * y_mult m) mod y_mult m = 0" "(i * x_mult m) mod x_mult m = 0" by simp_all
      then have "y mod y_mult m = 0" "x mod x_mult m = 0" unfolding ey ex by blast+
      with off show False by blast
    qed
    show ?thesis
    proof (cases "nat (j * y_mult m) = nat y")
      case False
      then have "mat' ! nat (j * y_mult m) = mat ! nat (j * y_mult m)" by (simp add: m')
      then show ?thesis by (simp only: old)
    next
      case True
      with ne have nx: "nat (i * x_mult m) \<noteq> nat x" by simp
      have "nat y < length mat" using yl yx by simp
      then have "mat' ! nat y = (mat ! nat y)[nat x := v]" by (simp add: m')
      then have "mat' ! nat (j * y_mult m) ! nat (i * x_mult m) = mat ! nat y ! nat (i * x_mult m)"
        using nx True by simp
      also have "\<dots> = z ! nat j ! nat i" using old True by simp
      finally show ?thesis .
    qed
  qed
  show ?thesis
    unfolding samples_kept_iff
  proof (intro conjI allI impI)
    show "int (length mat') = mesh_y_count m" by (rule len)
    show "\<forall>row \<in> set mat'. int (length row) = mesh_x_count m" by (rule rows)
    fix i j
    assume "0 \<le> i \<and> i < x_count (mesh_params m) \<and> 0 \<le> j \<and> j < y_count (mesh_params m)"
    then have "0 \<le> i" "i < x_count (mesh_params m)" "0 \<le> j" "j < y_count (mesh_params m)"
      by blast+
    then show "mat' ! nat (j * y_mult m) ! nat (i * x_mult m) = z ! nat j ! nat i"
      by (rule vals)
  qed
qed

lemma py_range_nth: "k < nat n \<Longrightarrow> py_range n ! k = int k"
  by (simp add: py_range_def)

lemma length_py_range: "length (py_range n) = nat n"
  by (simp add: py_range_def)

lemma init_mesh_matrix_kept:
  assumes i: "init_mesh_matrix m z = Inr mat"
    and mult: "0 < x_mult m" "0 < y_mult m"
    and cx: "mesh_x_count m = (x_count (mesh_params m) - 1) * x_mult m + 1"
    and cy: "mesh_y_count m = (y_count (mesh_params m) - 1) * y_mult m + 1"
    and c1: "1 \<le> x_count (mesh_params m)" "1 \<le> y_count (mesh_params m)"
    and zl: "int (length z) = y_count (mesh_params m)"
    and zr: "\<forall>row \<in> set z. int (length row) = x_count (mesh_params m)"
  shows "samples_kept m z mat"
proof -
  let ?xc = "x_count (mesh_params m)" and ?yc = "y_count (mesh_params m)"
  let ?inner = "\<lambda>j i.
         ebind (py_mod i (x_mult m)) (\<lambda>ri.
           if ri \<noteq> 0 then Inr 0
           else ebind (py_mod j (y_mult m)) (\<lambda>rj.
             if rj \<noteq> 0 then Inr 0
             else ebind (py_floordiv j (y_mult m)) (\<lambda>jj.
                  ebind (py_index z jj) (\<lambda>row.
                  ebind (py_floordiv i (x_mult m)) (\<lambda>ii. py_index row ii)))))"
  let ?row = "\<lambda>j. emap (?inner j) (py_range (mesh_x_count m))"
  have pcx: "0 \<le> (?xc - 1) * x_mult m" and pcy: "0 \<le> (?yc - 1) * y_mult m"
    using c1 mult by simp_all
  from i have e: "emap ?row (py_range (mesh_y_count m)) = Inr mat"
    by (simp add: init_mesh_matrix_def)
  note o = emap_nth [OF e]
  have len: "length mat = nat (mesh_y_count m)" using o by (simp add: length_py_range)
  have row: "?row (int k) = Inr (mat ! k)" if "k < nat (mesh_y_count m)" for k
  proof -
    have "k < length (py_range (mesh_y_count m))" using that by (simp add: length_py_range)
    from o [THEN conjunct2, rule_format, OF this]
    show ?thesis unfolding py_range_nth [OF that] .
  qed
  have rlen: "length (mat ! k) = nat (mesh_x_count m)" if "k < nat (mesh_y_count m)" for k
    using emap_nth [OF row [OF that]] by (simp add: length_py_range)
  have ent: "?inner (int k) (int l) = Inr (mat ! k ! l)"
    if "k < nat (mesh_y_count m)" "l < nat (mesh_x_count m)" for k l
  proof -
    have "l < length (py_range (mesh_x_count m))" using that(2) by (simp add: length_py_range)
    from emap_nth [OF row [OF that(1)], THEN conjunct2, rule_format, OF this]
    show ?thesis unfolding py_range_nth [OF that(2)] .
  qed
  have l1: "int (length mat) = mesh_y_count m" using len cy pcy by simp
  have l2: "\<forall>r \<in> set mat. int (length r) = mesh_x_count m"
  proof
    fix r assume "r \<in> set mat"
    then obtain k where k: "k < length mat" "r = mat ! k" by (auto simp: in_set_conv_nth)
    with rlen [of k] len cx pcx show "int (length r) = mesh_x_count m" by simp
  qed
  have l3: "mat ! nat (j0 * y_mult m) ! nat (i0 * x_mult m) = z ! nat j0 ! nat i0"
    if ij: "0 \<le> i0" "i0 < ?xc" "0 \<le> j0" "j0 < ?yc" for i0 j0
  proof -
    let ?j = "j0 * y_mult m" and ?i = "i0 * x_mult m"
    have pj: "0 \<le> ?j" and pi: "0 \<le> ?i" using ij mult by simp_all
    have "j0 \<le> ?yc - 1" using ij by simp
    then have "?j \<le> (?yc - 1) * y_mult m" using mult(2) by (intro mult_right_mono) simp_all
    then have kj: "nat ?j < nat (mesh_y_count m)" using cy pj by simp
    have "i0 \<le> ?xc - 1" using ij by simp
    then have "?i \<le> (?xc - 1) * x_mult m" using mult(1) by (intro mult_right_mono) simp_all
    then have ki: "nat ?i < nat (mesh_x_count m)" using cx pi by simp
    have zj: "py_index z j0 = Inr (z ! nat j0)" using ij zl by (simp add: py_index_def)
    have "z ! nat j0 \<in> set z" using ij zl by simp
    with zr have "int (length (z ! nat j0)) = ?xc" by blast
    then have zi: "py_index (z ! nat j0) i0 = Inr (z ! nat j0 ! nat i0)"
      using ij by (simp add: py_index_def)
    have ev: "?inner ?j ?i = Inr (z ! nat j0 ! nat i0)"
      using mult by (simp add: py_mod_def py_floordiv_def ebind_def zj zi)
    have ej: "int (nat ?j) = ?j" and ei: "int (nat ?i) = ?i" using pj pi by simp_all
    from ent [OF kj ki, unfolded ej ei] ev
    have "Inr (mat ! nat ?j ! nat ?i) = (Inr (z ! nat j0 ! nat i0) :: error + real)"
      by (rule trans [OF sym])
    then show ?thesis by (simp only: sum.inject)
  qed
  show ?thesis
    unfolding samples_kept_iff using l1 l2 l3 by blast
qed

lemma guarded_set_keeps:
  assumes r: "ebind (py_mod a b) (\<lambda>r. if r = 0 then Inr mat
                                      else ebind c (\<lambda>v. mat_set mat y x (g v))) = Inr mat'"
    and k: "samples_kept m z mat" and yx: "0 \<le> y" "0 \<le> x"
    and off: "a mod b \<noteq> 0 \<Longrightarrow> x mod x_mult m \<noteq> 0 \<or> y mod y_mult m \<noteq> 0"
    and mult: "0 < x_mult m" "0 < y_mult m"
  shows "samples_kept m z mat'"
proof (cases "b = 0 \<or> a mod b = 0")
  case True
  with r k show ?thesis by (auto simp: py_mod_def ebind_def split: if_splits)
next
  case False
  with r obtain v where "mat_set mat y x (g v) = Inr mat'"
    by (cases c) (simp_all add: py_mod_def ebind_def)
  from mat_set_keeps [OF this k yx off mult] False show ?thesis by simp
qed

lemma row_loop_keeps:
  assumes r: "ebind (py_mod a b) (\<lambda>r. if r \<noteq> 0 then Inr mat else efold f xs mat) = Inr mat'"
    and k: "samples_kept m z mat"
    and step: "\<And>x st st'. x \<in> set xs \<Longrightarrow> samples_kept m z st \<Longrightarrow> f x st = Inr st' \<Longrightarrow>
                 samples_kept m z st'"
  shows "samples_kept m z mat'"
proof (cases "b = 0")
  case True
  with r show ?thesis by (simp add: py_mod_def ebind_def)
next
  case False
  show ?thesis
  proof (cases "a mod b = 0")
    case True
    with r False have e: "efold f xs mat = Inr mat'" by (simp add: py_mod_def ebind_def)
    show ?thesis
      by (rule efold_inv [of f xs mat mat' "samples_kept m z", OF e k]) (rule step)
  next
    case nz: False
    with r False k show ?thesis by (simp add: py_mod_def ebind_def)
  qed
qed

lemma sample_lagrange_kept:
  assumes s: "sample_lagrange m z = Inr mat"
    and mult: "0 < x_mult m" "0 < y_mult m"
    and cx: "mesh_x_count m = (x_count (mesh_params m) - 1) * x_mult m + 1"
    and cy: "mesh_y_count m = (y_count (mesh_params m) - 1) * y_mult m + 1"
    and c1: "1 \<le> x_count (mesh_params m)" "1 \<le> y_count (mesh_params m)"
    and zl: "int (length z) = y_count (mesh_params m)"
    and zr: "\<forall>row \<in> set z. int (length row) = x_count (mesh_params m)"
  shows "samples_kept m z mat"
proof -
  let ?xin = "\<lambda>i j mat.
                 ebind (py_mod j (x_mult m)) (\<lambda>rj.
                   if rj = 0 then Inr mat
                   else ebind (calc_lagrange m mat (fst (get_lagrange_coords m))
                                 (get_x_coordinate m j) i 0) (\<lambda>v.
                        mat_set mat i j v))"
  let ?xout = "\<lambda>i mat.
           ebind (py_mod i (y_mult m)) (\<lambda>ri.
             if ri \<noteq> 0 then Inr mat
             else efold (?xin i) (py_range (mesh_x_count m)) mat)"
  let ?yin = "\<lambda>i j mat.
             ebind (py_mod j (y_mult m)) (\<lambda>rj.
               if rj = 0 then Inr mat
               else ebind (calc_lagrange m mat (snd (get_lagrange_coords m))
                             (get_y_coordinate m j) i 1) (\<lambda>v.
                    mat_set mat j i v))"
  let ?yout = "\<lambda>i mat. efold (?yin i) (py_range (mesh_y_count m)) mat"
  from s obtain mat0 mat1 where m0: "init_mesh_matrix m z = Inr mat0"
    and m1: "efold ?xout (py_range (mesh_y_count m)) mat0 = Inr mat1"
    and m2: "efold ?yout (py_range (mesh_x_count m)) mat1 = Inr mat"
    unfolding sample_lagrange_def ebind_def by (auto split: sum.splits)
  have k0: "samples_kept m z mat0"
    by (rule init_mesh_matrix_kept [OF m0 mult cx cy c1 zl zr])
  have xin: "samples_kept m z st'"
    if "i \<in> set (py_range (mesh_y_count m))" "j \<in> set (py_range (mesh_x_count m))"
      "samples_kept m z st" "?xin i j st = Inr st'" for i j st st'
    using that(1,2)
    by (intro guarded_set_keeps [where g = "\<lambda>v. v", OF that(4) that(3) _ _ _ mult])
       (simp_all add: in_py_range)
  have xout: "samples_kept m z st'"
    if "i \<in> set (py_range (mesh_y_count m))" "samples_kept m z st" "?xout i st = Inr st'"
    for i st st'
    by (rule row_loop_keeps [OF that(3) that(2)]) (rule xin [OF that(1)])
  have k1: "samples_kept m z mat1"
    by (rule efold_inv [of ?xout _ mat0 mat1 "samples_kept m z", OF m1 k0]) (rule xout)
  have yin: "samples_kept m z st'"
    if "i \<in> set (py_range (mesh_x_count m))" "j \<in> set (py_range (mesh_y_count m))"
      "samples_kept m z st" "?yin i j st = Inr st'" for i j st st'
    using that(1,2)
    by (intro guarded_set_keeps [where g = "\<lambda>v. v", OF that(4) that(3) _ _ _ mult])
       (simp_all add: in_py_range)
  have yout: "samples_kept m z st'"
    if "i \<in> set (py_range (mesh_x_count m))" "samples_kept m z st" "?yout i st = Inr st'"
    for i st st'
    by (rule efold_inv [of "?yin i" _ st st' "samples_kept m z", OF that(3) that(2)])
       (rule yin [OF that(1)])
  show ?thesis
    by (rule efold_inv [of ?yout _ mat1 mat "samples_kept m z", OF m2 k1]) (rule yout)
qed

lemma sample_bicubic_kept:
  assumes s: "sample_bicubic m z = Inr mat"
    and mult: "0 < x_mult m" "0 < y_mult m"
    and cx: "mesh_x_count m = (x_count (mesh_params m) - 1) * x_mult m + 1"
    and cy: "mesh_y_count m = (y_count (mesh_params m) - 1) * y_mult m + 1"
    and c1: "1 \<le> x_count (mesh_params m)" "1 \<le> y_count (mesh_params m)"
    and zl: "int (length z) = y_count (mesh_params m)"
    and zr: "\<forall>row \<in> set z. int (length row) = x_count (mesh_params m)"
  shows "samples_kept m z mat"
proof -
  let ?g = "\<lambda>pts. cardinal_spline pts (tension (mesh_params m))"
  let ?xin = "\<lambda>y x mat.
                 ebind (py_mod x (x_mult m)) (\<lambda>rx.
                   if rx = 0 then Inr mat
                   else ebind (get_x_ctl_pts m mat x y) (\<lambda>pts. mat_set mat y x (?g pts)))"
  let ?xout = "\<lambda>y mat.
           ebind (py_mod y (y_mult m)) (\<lambda>ry.
             if ry \<noteq> 0 then Inr mat
             else efold (?xin y) (py_range (mesh_x_count m)) mat)"
  let ?yin = "\<lambda>x y mat.
             ebind (py_mod y (y_mult m)) (\<lambda>ry.
               if ry = 0 then Inr mat
               else ebind (get_y_ctl_pts m mat x y) (\<lambda>pts. mat_set mat y x (?g pts)))"
  let ?yout = "\<lambda>x mat. efold (?yin x) (py_range (mesh_y_count m)) mat"
  from s obtain mat0 mat1 where m0: "init_mesh_matrix m z = Inr mat0"
    and m1: "efold ?xout (py_range (mesh_y_count m)) mat0 = Inr mat1"
    and m2: "efold ?yout (py_range (mesh_x_count m)) mat1 = Inr mat"
    unfolding sample_bicubic_def ebind_def by (auto split: sum.splits)
  have k0: "samples_kept m z mat0"
    by (rule init_mesh_matrix_kept [OF m0 mult cx cy c1 zl zr])
  have xin: "samples_kept m z st'"
    if "y \<in> set (py_range (mesh_y_count m))" "x \<in> set (py_range (mesh_x_count m))"
      "samples_kept m z st" "?xin y x st = Inr st'" for y x st st'
    using that(1,2)
    by (intro guarded_set_keeps [where g = ?g, OF that(4) that(3) _ _ _ mult])
       (simp_all add: in_py_range)
  have xout: "samples_kept m z st'"
    if "y \<in> set (py_range (mesh_y_count m))" "samples_kept m z st" "?xout y st = Inr st'"
    for y st st'
    by (rule row_loop_keeps [OF that(3) that(2)]) (rule xin [OF that(1)])
  have k1: "samples_kept m z mat1"
    by (rule efold_inv [of ?xout _ mat0 mat1 "samples_kept m z", OF m1 k0]) (rule xout)
  have yin: "samples_kept m z st'"
    if "x \<in> set (py_range (mesh_x_count m))" "y \<in> set (py_range (mesh_y_count m))"
      "samples_kept m z st" "?yin x y st = Inr st'" for x y st st'
    using that(1,2)
    by (intro guarded_set_keeps [where g = ?g, OF that(4) that(3) _ _ _ mult])
       (simp_all add: in_py_range)
  have yout: "samples_kept m z st'"
    if "x \<in> set (py_range (mesh_x_count m))" "samples_kept m z st" "?yout x st = Inr st'"
    for x st st'
    by (rule efold_inv [of "?yin x" _ st st' "samples_kept m z", OF that(3) that(2)])
       (rule yin [OF that(1)])
  show ?thesis
    by (rule efold_inv [of ?yout _ mat1 mat "samples_kept m z", OF m2 k1]) (rule yout)
qed

text \<open>What \<^verbatim>\<open>ZMesh.__init__\<close> computes.\<close>

lemma ZMesh_init_fields:
  assumes "ZMesh_init params = Inr m0"
  shows "mesh_params m0 = params" "probed_matrix m0 = None" "mesh_matrix m0 = None"
    "mesh_offsets m0 = (0, 0)"
    "mesh_x_count m0 = (x_count params - 1) * mesh_x_pps params + x_count params"
    "mesh_y_count m0 = (y_count params - 1) * mesh_y_pps params + y_count params"
    "x_mult m0 = mesh_x_pps params + 1" "y_mult m0 = mesh_y_pps params + 1"
    "mesh_x_count m0 \<noteq> 1" "mesh_y_count m0 \<noteq> 1"
    "mesh_x_dist m0 = (max_x params - min_x params) / of_int (mesh_x_count m0 - 1)"
    "mesh_y_dist m0 = (max_y params - min_y params) / of_int (mesh_y_count m0 - 1)"
  using assms
  by (auto simp: ZMesh_init_def Let_def ebind_def py_truediv_def split: if_splits)

lemma build_mesh_cases:
  assumes "build_mesh m0 h za = Inr (m, h')"
  shows "(algo (mesh_params m0) = ''direct'' \<and> h' = h \<and>
            m = m0\<lparr>probed_matrix := Some za, mesh_matrix := Some za\<rparr>) \<or>
         (algo (mesh_params m0) = ''lagrange'' \<and>
            (\<exists>mat. sample_lagrange (m0\<lparr>probed_matrix := Some za\<rparr>) (cells h za) = Inr mat \<and>
               h' = snd (alloc h mat) \<and>
               m = m0\<lparr>probed_matrix := Some za, mesh_matrix := Some (next_free h)\<rparr>)) \<or>
         (algo (mesh_params m0) = ''bicubic'' \<and>
            (\<exists>mat. sample_bicubic (m0\<lparr>probed_matrix := Some za\<rparr>) (cells h za) = Inr mat \<and>
               h' = snd (alloc h mat) \<and>
               m = m0\<lparr>probed_matrix := Some za, mesh_matrix := Some (next_free h)\<rparr>))"
  using assms
  by (auto simp: build_mesh_def Let_def ebind_def alloc_def split: if_splits sum.splits)

lemma samples_kept_cong:
  assumes "mesh_params m' = mesh_params m" "mesh_x_count m' = mesh_x_count m"
    "mesh_y_count m' = mesh_y_count m" "x_mult m' = x_mult m" "y_mult m' = y_mult m"
  shows "samples_kept m' z mat = samples_kept m z mat"
  by (simp add: samples_kept_def assms)

lemma dense_count:
  fixes c p :: int
  assumes "2 \<le> c" "0 \<le> p"
  shows "(c - 1) * p + c = (c - 1) * (p + 1) + 1" "2 \<le> (c - 1) * p + c"
proof -
  show "(c - 1) * p + c = (c - 1) * (p + 1) + 1" by (simp add: algebra_simps)
  define q where "q = (c - 1) * p"
  have "0 \<le> q" unfolding q_def using assms by (intro mult_nonneg_nonneg) simp_all
  with assms(1) show "2 \<le> (c - 1) * p + c" unfolding q_def [symmetric] by linarith
qed

lemma node_index:
  fixes i c k :: int
  assumes "0 \<le> i" "i < c" "0 < k"
  shows "0 \<le> i * k" "i * k < (c - 1) * k + 1"
proof -
  show "0 \<le> i * k" using assms by simp
  have "i * k \<le> (c - 1) * k" using assms by (intro mult_right_mono) simp_all
  then show "i * k < (c - 1) * k + 1" by simp
qed

text \<open>
  A mesh out of \<^verbatim>\<open>ZMesh.__init__\<close> and \<^verbatim>\<open>build_mesh\<close> has a dense matrix of the
  computed size that holds every probed value at its node.
\<close>

lemma build_mesh_kept:
  assumes init: "ZMesh_init params = Inr m0"
    and build: "build_mesh m0 h za = Inr (m, h')"
    and pps: "0 \<le> mesh_x_pps params" "0 \<le> mesh_y_pps params"
    and cnt: "2 \<le> x_count params" "2 \<le> y_count params"
    and direct: "algo params = ''direct'' \<longrightarrow> mesh_x_pps params = 0 \<and> mesh_y_pps params = 0"
    and zl: "int (length (cells h za)) = y_count params"
    and zr: "\<forall>row \<in> set (cells h za). int (length row) = x_count params"
  shows "\<exists>a. mesh_matrix m = Some a \<and> samples_kept m (cells h za) (cells h' a)"
proof -
  note f = ZMesh_init_fields [OF init]
  let ?m1 = "m0\<lparr>probed_matrix := Some za\<rparr>"
  have mult: "0 < x_mult ?m1" "0 < y_mult ?m1" using pps by (simp_all add: f)
  have cx: "mesh_x_count ?m1 = (x_count (mesh_params ?m1) - 1) * x_mult ?m1 + 1"
    using dense_count(1) [OF cnt(1) pps(1)] by (simp add: f)
  have cy: "mesh_y_count ?m1 = (y_count (mesh_params ?m1) - 1) * y_mult ?m1 + 1"
    using dense_count(1) [OF cnt(2) pps(2)] by (simp add: f)
  have c1: "1 \<le> x_count (mesh_params ?m1)" "1 \<le> y_count (mesh_params ?m1)"
    using cnt by (simp_all add: f)
  have zl1: "int (length (cells h za)) = y_count (mesh_params ?m1)" using zl by (simp add: f)
  have zr1: "\<forall>row \<in> set (cells h za). int (length row) = x_count (mesh_params ?m1)"
    using zr by (simp add: f)
  from build_mesh_cases [OF build] consider
    (direct) "algo (mesh_params m0) = ''direct''" "h' = h"
      "m = m0\<lparr>probed_matrix := Some za, mesh_matrix := Some za\<rparr>"
    | (lagrange) mat where "sample_lagrange ?m1 (cells h za) = Inr mat"
      "h' = snd (alloc h mat)" "m = m0\<lparr>probed_matrix := Some za, mesh_matrix := Some (next_free h)\<rparr>"
    | (bicubic) mat where "sample_bicubic ?m1 (cells h za) = Inr mat"
      "h' = snd (alloc h mat)" "m = m0\<lparr>probed_matrix := Some za, mesh_matrix := Some (next_free h)\<rparr>"
    by blast
  then show ?thesis
  proof cases
    case direct
    from direct(1) assms(7) have p0: "mesh_x_pps params = 0" "mesh_y_pps params = 0"
      by (simp_all add: f)
    have "samples_kept m (cells h za) (cells h za)"
      unfolding samples_kept_iff using zl zr by (simp add: direct(3) f p0)
    then show ?thesis by (simp add: direct)
  next
    case lagrange
    have "samples_kept ?m1 (cells h za) mat"
      by (rule sample_lagrange_kept [OF lagrange(1) mult cx cy c1 zl1 zr1])
    then have "samples_kept m (cells h za) mat"
      by (simp add: samples_kept_def lagrange(3))
    then show ?thesis by (simp add: lagrange alloc_def)
  next
    case bicubic
    have "samples_kept ?m1 (cells h za) mat"
      by (rule sample_bicubic_kept [OF bicubic(1) mult cx cy c1 zl1 zr1])
    then have "samples_kept m (cells h za) mat"
      by (simp add: samples_kept_def bicubic(3))
    then show ?thesis by (simp add: bicubic alloc_def)
  qed
qed

lemma build_mesh_geometry:
  assumes init: "ZMesh_init params = Inr m0"
    and build: "build_mesh m0 h za = Inr (m, h')"
  shows "mesh_params m = params" "mesh_offsets m = (0, 0)"
    "mesh_x_count m = mesh_x_count m0" "mesh_y_count m = mesh_y_count m0"
    "x_mult m = x_mult m0" "y_mult m = y_mult m0"
    "mesh_x_dist m = mesh_x_dist m0" "mesh_y_dist m = mesh_y_dist m0"
  using build_mesh_cases [OF build] ZMesh_init_fields(1,4) [OF init] by auto

text \<open>
  Claim C1 (exactness at samples). Take a mesh made by \<^verbatim>\<open>ZMesh(params)\<close> and
  \<^verbatim>\<open>build_mesh(z_matrix)\<close>, whichever of the three algorithms it names, for a probed
  matrix of \<^verbatim>\<open>y_count\<close> rows of \<^verbatim>\<open>x_count\<close> values, at least two each way, on a bed
  area of non-zero width and depth, with the direct algorithm used only without
  interpolated points (as \<^verbatim>\<open>_verify_algorithm\<close> arranges). Then for every probed index
  \<open>(i, j)\<close> the dense matrix holds the probed value \<^verbatim>\<open>z_matrix[j][i]\<close> at row
  \<^verbatim>\<open>j * y_mult\<close>, column \<^verbatim>\<open>i * x_mult\<close>, and \<^verbatim>\<open>calc_z\<close> at the coordinates of that node
  returns exactly that value. Floats are real numbers here, so the equality is exact.
\<close>

theorem calc_z_exact_at_samples:
  assumes init: "ZMesh_init params = Inr m0"
    and build: "build_mesh m0 h za = Inr (m, h')"
    and pps: "0 \<le> mesh_x_pps params" "0 \<le> mesh_y_pps params"
    and cnt: "2 \<le> x_count params" "2 \<le> y_count params"
    and direct: "algo params = ''direct'' \<longrightarrow> mesh_x_pps params = 0 \<and> mesh_y_pps params = 0"
    and span: "min_x params \<noteq> max_x params" "min_y params \<noteq> max_y params"
    and zl: "int (length (cells h za)) = y_count params"
    and zr: "\<forall>row \<in> set (cells h za). int (length row) = x_count params"
    and i: "0 \<le> i" "i < x_count params" and j: "0 \<le> j" "j < y_count params"
  shows "\<exists>a. mesh_matrix m = Some a \<and>
           mat_get (cells h' a) (j * y_mult m) (i * x_mult m) = Inr (cells h za ! nat j ! nat i) \<and>
           calc_z m h' (get_x_coordinate m (i * x_mult m)) (get_y_coordinate m (j * y_mult m))
             = Inr (cells h za ! nat j ! nat i)"
proof -
  note f = ZMesh_init_fields [OF init]
  note g = build_mesh_geometry [OF init build]
  from build_mesh_kept [OF init build pps cnt direct zl zr]
  obtain a where mm: "mesh_matrix m = Some a"
    and kept: "samples_kept m (cells h za) (cells h' a)" by blast
  let ?tbl = "cells h' a"
  from kept have ly: "int (length ?tbl) = mesh_y_count m"
    and lx: "\<forall>row \<in> set ?tbl. int (length row) = mesh_x_count m"
    and v: "?tbl ! nat (j * y_mult m) ! nat (i * x_mult m) = cells h za ! nat j ! nat i"
    using i j unfolding samples_kept_iff by (simp_all add: g)
  have mult: "0 < x_mult m" "0 < y_mult m" using pps by (simp_all add: g f)
  have cx: "mesh_x_count m = (x_count params - 1) * x_mult m + 1" "2 \<le> mesh_x_count m"
    using dense_count [OF cnt(1) pps(1)] by (simp_all add: g f)
  have cy: "mesh_y_count m = (y_count params - 1) * y_mult m + 1" "2 \<le> mesh_y_count m"
    using dense_count [OF cnt(2) pps(2)] by (simp_all add: g f)
  have d: "mesh_x_dist m \<noteq> 0" "mesh_y_dist m \<noteq> 0"
    using span f(9,10) by (simp_all add: g f(11,12))
  have ok: "mesh_ok m h'"
    using d cx(2) cy(2) ly lx by (simp add: mesh_ok_def mm list_all_iff)
  have kx: "0 \<le> i * x_mult m" "i * x_mult m < mesh_x_count m"
    using node_index [OF i mult(1)] by (simp_all add: cx(1))
  have ky: "0 \<le> j * y_mult m" "j * y_mult m < mesh_y_count m"
    using node_index [OF j mult(2)] by (simp_all add: cy(1))
  have row: "?tbl ! nat (j * y_mult m) \<in> set ?tbl" using ky ly by simp
  have rd: "mat_get ?tbl (j * y_mult m) (i * x_mult m) = Inr (cells h za ! nat j ! nat i)"
    unfolding v [symmetric] using kx ky ly lx row by (intro mat_get_nonneg) simp_all
  have cz: "calc_z m h' (get_x_coordinate m (i * x_mult m)) (get_y_coordinate m (j * y_mult m))
              = Inr (cells h za ! nat j ! nat i)"
    unfolding v [symmetric] by (rule calc_z_node [OF ok mm g(2) kx ky])
  from mm rd cz show ?thesis by blast
qed

lemma ZMesh_init_bicubic: "ZMesh_init (example_params ''bicubic'' 1) = Inr bicubic_init"
  unfolding bicubic_init_def
  by (simp add: ZMesh_init_def example_params_def py_truediv_def ebind_def Let_def)

lemma bicubic_init_fields:
  "mesh_params bicubic_init = example_params ''bicubic'' 1"
  "mesh_x_count bicubic_init = 5" "mesh_y_count bicubic_init = 5"
  "x_mult bicubic_init = 2" "y_mult bicubic_init = 2"
  "mesh_x_dist bicubic_init = 50" "mesh_y_dist bicubic_init = 50"
  "mesh_x_min bicubic_init = 0" "mesh_y_min bicubic_init = 0"
  "mesh_offsets bicubic_init = (0, 0)"
  unfolding bicubic_init_def
  by (simp_all add: ZMesh_init_def example_params_def py_truediv_def ebind_def Let_def)

lemma sample_bicubic_example:
  "sample_bicubic (bicubic_init\<lparr>probed_matrix := Some 0\<rparr>) (cells example_store 0) = Inr bicubic_dense"
  by code_simp

lemma print_mesh_bicubic:
  "print_mesh (bicubic_init\<lparr>probed_matrix := Some 0, mesh_matrix := Some 2\<rparr>)
     (snd (alloc example_store bicubic_dense)) = Inr ()"
  by code_simp

lemma build_mesh_bicubic:
  "build_mesh bicubic_init example_store 0
     = Inr (bicubic_init\<lparr>probed_matrix := Some 0, mesh_matrix := Some 2\<rparr>,
            snd (alloc example_store bicubic_dense))"
proof -
  have al: "algo (mesh_params (bicubic_init\<lparr>probed_matrix := Some 0\<rparr>)) = ''bicubic''"
    by (simp add: bicubic_init_fields example_params_def)
  have a: "fst (alloc example_store bicubic_dense) = 2"
    by (simp add: alloc_def example_store_def)
  show ?thesis
    unfolding build_mesh_def Let_def al
    by (simp add: sample_bicubic_example ebind_def a print_mesh_bicubic)
qed

lemma bicubic_mesh_eq:
  "bicubic_mesh = bicubic_init\<lparr>probed_matrix := Some 0, mesh_matrix := Some 2\<rparr>"
  "bicubic_store = snd (alloc example_store bicubic_dense)"
  by (simp_all add: bicubic_mesh_def bicubic_store_def build_mesh_bicubic)

text \<open>
  Claim C1 at the 3 by 3 example, once interpolated by the bicubic algorithm with one
  point between two probed ones (a dense matrix of 5 by 5 at address 2) and once with the
  direct algorithm: the centre value 0.2 is in the dense matrix and is what \<^verbatim>\<open>calc_z\<close>
  returns at the centre of the bed.
\<close>

theorem calc_z_exact_at_samples_witness:
  "ZMesh_init (example_params ''bicubic'' 1) = Inr bicubic_init \<and>
   build_mesh bicubic_init example_store 0 = Inr (bicubic_mesh, bicubic_store) \<and>
   mesh_matrix bicubic_mesh = Some 2 \<and>
   cells bicubic_store 2 = bicubic_dense \<and>
   mat_get (cells bicubic_store 2) 2 2 = Inr (2 / 10) \<and>
   calc_z bicubic_mesh bicubic_store 100 100 = Inr (2 / 10) \<and>
   build_mesh (flat_mesh\<lparr>probed_matrix := None, mesh_matrix := None\<rparr>) example_store 0
     = Inr (flat_mesh, example_store) \<and>
   mat_get (cells example_store 0) 1 1 = Inr (2 / 10) \<and>
   calc_z flat_mesh example_store 100 100 = Inr (2 / 10)"
proof -
  have b: "build_mesh bicubic_init example_store 0 = Inr (bicubic_mesh, bicubic_store)"
    by (simp add: build_mesh_bicubic bicubic_mesh_eq)
  have mm: "mesh_matrix bicubic_mesh = Some 2" by (simp add: bicubic_mesh_eq)
  have c: "cells bicubic_store 2 = bicubic_dense"
    by (simp add: bicubic_mesh_eq alloc_def example_store_def)
  have z: "cells example_store 0 ! Suc 0 ! Suc 0 = 2 / 10"
    "int (length (cells example_store 0)) = 3"
    "\<forall>row \<in> set (cells example_store 0). int (length row) = 3"
    by (simp_all add: example_store_def)
  have g: "x_mult bicubic_mesh = 2" "y_mult bicubic_mesh = 2"
    "get_x_coordinate bicubic_mesh 2 = 100" "get_y_coordinate bicubic_mesh 2 = 100"
    by (simp_all add: bicubic_mesh_eq bicubic_init_fields get_x_coordinate_def get_y_coordinate_def)
  have "\<exists>a. mesh_matrix bicubic_mesh = Some a \<and>
          mat_get (cells bicubic_store a) (1 * y_mult bicubic_mesh) (1 * x_mult bicubic_mesh)
            = Inr (cells example_store 0 ! nat 1 ! nat 1) \<and>
          calc_z bicubic_mesh bicubic_store (get_x_coordinate bicubic_mesh (1 * x_mult bicubic_mesh))
              (get_y_coordinate bicubic_mesh (1 * y_mult bicubic_mesh))
            = Inr (cells example_store 0 ! nat 1 ! nat 1)"
    by (rule calc_z_exact_at_samples [OF ZMesh_init_bicubic b])
       (simp_all add: example_params_def z(2,3))
  then have bic: "mat_get (cells bicubic_store 2) 2 2 = Inr (2 / 10) \<and>
      calc_z bicubic_mesh bicubic_store 100 100 = Inr (2 / 10)"
    by (simp add: mm g z(1))
  have fb: "build_mesh (flat_mesh\<lparr>probed_matrix := None, mesh_matrix := None\<rparr>) example_store 0
              = Inr (flat_mesh, example_store)"
    unfolding flat_mesh_eq by (rule build_direct_3x3 [OF print_mesh_flat])
  have fi: "ZMesh_init (example_params ''direct'' 0)
              = Inr (flat_mesh\<lparr>probed_matrix := None, mesh_matrix := None\<rparr>)"
    unfolding flat_mesh_eq by (rule ZMesh_init_direct_3x3)
  have fg: "mesh_matrix flat_mesh = Some 0" "x_mult flat_mesh = 1" "y_mult flat_mesh = 1"
    "get_x_coordinate flat_mesh 1 = 100" "get_y_coordinate flat_mesh 1 = 100"
    by (simp_all add: flat_mesh_eq direct_3x3_def get_x_coordinate_def get_y_coordinate_def)
  have "\<exists>a. mesh_matrix flat_mesh = Some a \<and>
          mat_get (cells example_store a) (1 * y_mult flat_mesh) (1 * x_mult flat_mesh)
            = Inr (cells example_store 0 ! nat 1 ! nat 1) \<and>
          calc_z flat_mesh example_store (get_x_coordinate flat_mesh (1 * x_mult flat_mesh))
              (get_y_coordinate flat_mesh (1 * y_mult flat_mesh))
            = Inr (cells example_store 0 ! nat 1 ! nat 1)"
    by (rule calc_z_exact_at_samples [OF fi fb])
       (simp_all add: example_params_def z(2,3))
  then have fl: "mat_get (cells example_store 0) 1 1 = Inr (2 / 10) \<and>
      calc_z flat_mesh example_store 100 100 = Inr (2 / 10)"
    by (simp add: fg z(1))
  from ZMesh_init_bicubic b mm c bic fb fl show ?thesis by (simp only: simp_thms)
qed

subsection \<open>The zero reference\<close>

lemma isl_projr: "\<not> isl r \<Longrightarrow> r = Inr (projr r)"
  by (cases r) simp_all

lemma set_zero_reference_flat:
  "set_zero_reference flat_mesh example_store 100 100 = Inr flat_zeroed"
proof -
  have "\<not> isl (set_zero_reference flat_mesh example_store 100 100)" by code_simp
  then show ?thesis unfolding flat_zeroed_def by (rule isl_projr)
qed

lemma flat_zeroed_cells:
  "cells flat_zeroed 0 = [[- 3 / 10, - 3 / 10, - 3 / 10], [- 3 / 10, - 2 / 10, - 3 / 10], [- 3 / 10, - 3 / 10, - 3 / 10]]"
  by code_simp

lemma calc_z_flat_before: "calc_z flat_mesh example_store 100 100 = Inr (2 / 10)"
  by code_simp

lemma calc_z_flat_zeroed: "calc_z flat_mesh flat_zeroed 100 100 = Inr (- 2 / 10)"
  by code_simp

lemma set_zero_reference_bicubic:
  "set_zero_reference bicubic_mesh bicubic_store 100 100 = Inr bicubic_zeroed"
proof -
  have "\<not> isl (set_zero_reference (bicubic_init\<lparr>probed_matrix := Some 0, mesh_matrix := Some 2\<rparr>)
                 (snd (alloc example_store bicubic_dense)) 100 100)"
    by code_simp
  then show ?thesis unfolding bicubic_zeroed_def bicubic_mesh_eq by (rule isl_projr)
qed

lemma calc_z_bicubic_before: "calc_z bicubic_mesh bicubic_store 100 100 = Inr (2 / 10)"
  unfolding bicubic_mesh_eq by code_simp

lemma bicubic_zeroed_cells:
  "cells bicubic_zeroed 0 = [[- 1 / 10, - 1 / 10, - 1 / 10], [- 1 / 10, 0, - 1 / 10], [- 1 / 10, - 1 / 10, - 1 / 10]]"
  "cells bicubic_zeroed 2 = map (map (\<lambda>v. v - 2 / 10)) bicubic_dense"
  unfolding bicubic_zeroed_def bicubic_mesh_eq by code_simp+

lemma calc_z_bicubic_zeroed: "calc_z bicubic_mesh bicubic_zeroed 100 100 = Inr 0"
  unfolding bicubic_zeroed_def bicubic_mesh_eq by code_simp

text \<open>
  Claim C4 (zero reference). \<^verbatim>\<open>_sample_direct\<close> makes the dense matrix the probed matrix
  itself, and the loop of \<^verbatim>\<open>set_zero_reference\<close> over the two matrices then takes the
  offset off that one matrix twice. On the 3 by 3 example built with the direct
  algorithm the height at the centre is 0.2 before the call and -0.2 after it, where the
  claim has 0. Built by the bicubic algorithm, whose dense matrix is a list of its own,
  the same example ends with 0 at the centre, as the claim has it.
\<close>

theorem set_zero_reference_direct_twice:
  "probed_matrix flat_mesh = Some 0 \<and> mesh_matrix flat_mesh = Some 0 \<and>
   calc_z flat_mesh example_store 100 100 = Inr (2 / 10) \<and>
   set_zero_reference flat_mesh example_store 100 100 = Inr flat_zeroed \<and>
   cells flat_zeroed 0
     = [[- 3 / 10, - 3 / 10, - 3 / 10], [- 3 / 10, - 2 / 10, - 3 / 10], [- 3 / 10, - 3 / 10, - 3 / 10]] \<and>
   calc_z flat_mesh flat_zeroed 100 100 = Inr (- 2 / 10) \<and>
   probed_matrix bicubic_mesh = Some 0 \<and> mesh_matrix bicubic_mesh = Some 2 \<and>
   calc_z bicubic_mesh bicubic_store 100 100 = Inr (2 / 10) \<and>
   set_zero_reference bicubic_mesh bicubic_store 100 100 = Inr bicubic_zeroed \<and>
   cells bicubic_zeroed 0
     = [[- 1 / 10, - 1 / 10, - 1 / 10], [- 1 / 10, 0, - 1 / 10], [- 1 / 10, - 1 / 10, - 1 / 10]] \<and>
   cells bicubic_zeroed 2 = map (map (\<lambda>v. v - 2 / 10)) bicubic_dense \<and>
   calc_z bicubic_mesh bicubic_zeroed 100 100 = Inr 0"
proof -
  have f: "probed_matrix flat_mesh = Some 0" "mesh_matrix flat_mesh = Some 0"
    by (simp_all add: flat_mesh_eq direct_3x3_def)
  have b: "probed_matrix bicubic_mesh = Some 0" "mesh_matrix bicubic_mesh = Some 2"
    by (simp_all add: bicubic_mesh_eq)
  from f b calc_z_flat_before set_zero_reference_flat flat_zeroed_cells calc_z_flat_zeroed
    calc_z_bicubic_before set_zero_reference_bicubic bicubic_zeroed_cells calc_z_bicubic_zeroed
  show ?thesis by (simp only: simp_thms)
qed

end
